(* ===== verification/Prelude.thy ===== *)
theory Prelude
  imports Complex_Main
begin

text \<open>
  Shared vocabulary of the development. The placement engine of
  \<^verbatim>\<open>src/lib/bag_generator/baggage_creator_2d.py\<close> works on numpy arrays of
  labels; a 2D array is modelled as a \<open>grid\<close>: its shape and a pixel function.
  Python's slice rules (negative bounds count from the end, bounds are clamped to
  the length) are written out once here as \<open>py_bound\<close>, and every numpy slice of
  the source becomes a \<open>window\<close>. Writing the nonzero pixels of a block back
  into a slice (the idiom \<^verbatim>\<open>a[sl][nz] = b[nz]\<close>) is \<open>paste_nz\<close>.
  The collection \<open>grid_simps\<close> gathers the rewrite rules on windows and pastes
  that the component theories use.
\<close>

named_theorems grid_simps "rewrite rules for windows, pastes and Python slice bounds"

type_synonym pose = "int \<times> int"

text \<open>The Python exceptions the modelled code can raise: \<open>ValueError\<close> (a reduction
  such as \<^verbatim>\<open>max()\<close> of an empty array, \<^verbatim>\<open>argmin\<close> of an empty sequence),
  \<open>BroadcastError\<close> (numpy's \<^verbatim>\<open>ValueError\<close> on an assignment whose shapes do
  not broadcast), \<open>AttributeError\<close> (an unrecognised shape code),
  \<open>IndexError\<close> (a numpy index out of bounds), \<open>NameError\<close> (a local read before any
  assignment reached it).\<close>

datatype py_exc = ValueError | BroadcastError | AttributeError | IndexError | NameError
type_synonym pix = "nat \<times> nat"

subsection \<open>Python slice bounds\<close>

text \<open>CPython's normalisation of a slice bound \<open>i\<close> for a sequence of length \<open>n\<close>:
  a negative bound counts from the end, then the bound is clamped to \<open>[0, n]\<close>.\<close>

definition py_bound :: "int \<Rightarrow> nat \<Rightarrow> nat" where
  "py_bound i n = nat (if i < 0 then max 0 (int n + i) else min i (int n))"

definition py_slice :: "int \<Rightarrow> int \<Rightarrow> 'a list \<Rightarrow> 'a list" where
  "py_slice i j xs =
     (let a = py_bound i (length xs); b = py_bound j (length xs) in take (b - a) (drop a xs))"

text \<open>numpy's rule for one integer index into an axis of length \<open>n\<close>: a negative
  index counts from the end; outside \<open>[-n, n)\<close> numpy raises \<open>IndexError\<close> (\<open>None\<close>).\<close>

definition py_idx :: "int \<Rightarrow> nat \<Rightarrow> nat option" where
  "py_idx i n = (if 0 \<le> i \<and> i < int n then Some (nat i)
                 else if i < 0 \<and> - int n \<le> i then Some (nat (int n + i)) else None)"

subsection \<open>Grids\<close>

text \<open>A numpy 2D array: \<open>nrows\<close> and \<open>ncols\<close> are its \<^verbatim>\<open>shape\<close>, \<open>px i j\<close> the
  entry at row \<open>i\<close>, column \<open>j\<close> (meaningful inside the shape only).\<close>

record grid =
  nrows :: nat
  ncols :: nat
  px :: "nat \<Rightarrow> nat \<Rightarrow> int"

definition grid_of_list :: "int list list \<Rightarrow> grid" where
  "grid_of_list xss =
     \<lparr>nrows = length xss, ncols = (case xss of [] \<Rightarrow> 0 | r # _ \<Rightarrow> length r),
      px = (\<lambda>i j. if i < length xss \<and> j < length (xss ! i) then xss ! i ! j else 0)\<rparr>"

definition zeros :: "nat \<Rightarrow> nat \<Rightarrow> grid" where
  "zeros m n = \<lparr>nrows = m, ncols = n, px = (\<lambda>i j. 0)\<rparr>"

definition in_shape :: "grid \<Rightarrow> nat \<Rightarrow> nat \<Rightarrow> bool" where
  "in_shape g i j \<longleftrightarrow> i < nrows g \<and> j < ncols g"

text \<open>\<^verbatim>\<open>np.where(g)\<close>: the nonzero positions in row-major (raster) order.\<close>

definition nz_pixels :: "grid \<Rightarrow> pix list" where
  "nz_pixels g = [(i, j). i \<leftarrow> [0..<nrows g], j \<leftarrow> [0..<ncols g], px g i j \<noteq> 0]"

definition any_nz :: "grid \<Rightarrow> bool" where
  "any_nz g \<longleftrightarrow> nz_pixels g \<noteq> []"

text \<open>\<^verbatim>\<open>g[r0:r1, c0:c1]\<close>.\<close>

definition window :: "int \<Rightarrow> int \<Rightarrow> int \<Rightarrow> int \<Rightarrow> grid \<Rightarrow> grid" where
  "window r0 r1 c0 c1 g =
     (let a = py_bound r0 (nrows g); b = py_bound r1 (nrows g);
          c = py_bound c0 (ncols g); d = py_bound c1 (ncols g)
      in \<lparr>nrows = b - a, ncols = d - c, px = (\<lambda>i j. px g (a + i) (c + j))\<rparr>)"

text \<open>\<^verbatim>\<open>g[a:a+h, c:c+w][nz] = blk[nz]\<close> where \<^verbatim>\<open>nz = np.where(blk)\<close>: the nonzero
  pixels of \<open>blk\<close> overwrite the grid at offset \<open>(a, c)\<close>, all others stay.\<close>

definition paste_nz :: "grid \<Rightarrow> nat \<Rightarrow> nat \<Rightarrow> grid \<Rightarrow> grid" where
  "paste_nz g a c blk =
     g\<lparr>px := (\<lambda>i j. if a \<le> i \<and> i < a + nrows blk \<and> c \<le> j \<and> j < c + ncols blk
                       \<and> px blk (i - a) (j - c) \<noteq> 0
                    then px blk (i - a) (j - c) else px g i j)\<rparr>"

text \<open>\<^verbatim>\<open>g[np.where(m)] = v\<close> for a mask \<open>m\<close> of the same shape.\<close>

definition set_where :: "grid \<Rightarrow> grid \<Rightarrow> int \<Rightarrow> grid" where
  "set_where g m v = g\<lparr>px := (\<lambda>i j. if in_shape m i j \<and> px m i j \<noteq> 0 then v else px g i j)\<rparr>"

text \<open>Pointwise maps of numpy arithmetic: \<^verbatim>\<open>k * g\<close>, \<^verbatim>\<open>g // k\<close>, \<^verbatim>\<open>g.astype(bool)\<close>.\<close>

definition gmap :: "(int \<Rightarrow> int) \<Rightarrow> grid \<Rightarrow> grid" where
  "gmap f g = g\<lparr>px := (\<lambda>i j. f (px g i j))\<rparr>"

text \<open>\<^verbatim>\<open>a[r0:r1, c0:c1] = v\<close> for a scalar \<open>v\<close>.\<close>

definition fill_window :: "grid \<Rightarrow> int \<Rightarrow> int \<Rightarrow> int \<Rightarrow> int \<Rightarrow> int \<Rightarrow> grid" where
  "fill_window g r0 r1 c0 c1 v =
     (let a = py_bound r0 (nrows g); b = py_bound r1 (nrows g);
          c = py_bound c0 (ncols g); d = py_bound c1 (ncols g)
      in g\<lparr>px := (\<lambda>i j. if a \<le> i \<and> i < b \<and> c \<le> j \<and> j < d then v else px g i j)\<rparr>)"

text \<open>\<^verbatim>\<open>int(x)\<close> on a float: truncation toward zero.\<close>

definition py_int :: "rat \<Rightarrow> int" where
  "py_int x = (if 0 \<le> x then \<lfloor>x\<rfloor> else - \<lfloor>- x\<rfloor>)"

subsection \<open>Fallible computations and numpy broadcasting\<close>

text \<open>Sequencing of fallible steps: the first exception ends the computation.\<close>

definition sbind :: "'e + 'a \<Rightarrow> ('a \<Rightarrow> 'e + 'b) \<Rightarrow> 'e + 'b" where
  "sbind x f = (case x of Inl e \<Rightarrow> Inl e | Inr a \<Rightarrow> f a)"

text \<open>numpy's broadcasting of two axis lengths: equal lengths, or one of them 1;
  \<open>None\<close> when the shapes are incompatible.\<close>

definition bcast :: "nat \<Rightarrow> nat \<Rightarrow> nat option" where
  "bcast a b = (if a = b \<or> b = 1 then Some a else if a = 1 then Some b else None)"

text \<open>The shape of \<^verbatim>\<open>a * b\<close> for two 2D arrays, \<open>None\<close> when numpy refuses to
  broadcast them, and the product on a given shape: an axis of length 1 is read at
  index 0.\<close>

definition bshape :: "grid \<Rightarrow> grid \<Rightarrow> (nat \<times> nat) option" where
  "bshape a b =
     (case (bcast (nrows a) (nrows b), bcast (ncols a) (ncols b)) of
        (Some r, Some c) \<Rightarrow> Some (r, c)
      | _ \<Rightarrow> None)"

definition bprod :: "grid \<Rightarrow> grid \<Rightarrow> nat \<times> nat \<Rightarrow> grid" where
  "bprod a b rc =
     \<lparr>nrows = fst rc, ncols = snd rc,
      px = (\<lambda>i j. px a (if nrows a = 1 then 0 else i) (if ncols a = 1 then 0 else j) *
                  px b (if nrows b = 1 then 0 else i) (if ncols b = 1 then 0 else j))\<rparr>"

text \<open>\<^verbatim>\<open>a * b\<close>, with \<open>BroadcastError\<close> for incompatible shapes.\<close>

definition bmul :: "grid \<Rightarrow> grid \<Rightarrow> py_exc + grid" where
  "bmul a b = (case bshape a b of Some rc \<Rightarrow> Inr (bprod a b rc) | None \<Rightarrow> Inl BroadcastError)"

subsection \<open>Rules on slice bounds and indices\<close>

lemma py_bound_le [grid_simps]: "py_bound i n \<le> n"
  by (simp add: py_bound_def nat_le_iff)

lemma py_bound_nonneg [grid_simps]: "0 \<le> i \<Longrightarrow> py_bound i n = min (nat i) n"
  by (auto simp: py_bound_def min_def)

lemma py_bound_nat [simp]: "py_bound (int k) n = min k n"
  by (simp add: py_bound_nonneg)

lemma py_bound_neg: "i < 0 \<Longrightarrow> py_bound i n = nat (max 0 (int n + i))"
  by (simp add: py_bound_def)

lemma py_bound_zero [simp]: "py_bound 0 n = 0"
  by (simp add: py_bound_def)

lemma length_py_slice [grid_simps]:
  "length (py_slice i j xs) = py_bound j (length xs) - py_bound i (length xs)"
  using py_bound_le [of j "length xs"] by (simp add: py_slice_def Let_def)

text \<open>An upper slice bound \<open>p + h\<close> with \<open>p\<close> not below \<open>-n\<close> never reaches
  more than \<open>h\<close> elements past the normalised lower bound; this is what keeps every
  block read back from an object's raster inside that raster.\<close>

lemma py_bound_span:
  "py_bound (p + int h) n - py_bound p n \<le> h"
  unfolding py_bound_def by (cases "p < 0"; cases "p + int h < 0") auto

lemma py_idx_nat [simp]: "i < n \<Longrightarrow> py_idx (int i) n = Some i"
  by (simp add: py_idx_def)

subsection \<open>Rules on grids\<close>

lemma window_shape [grid_simps]:
  "nrows (window r0 r1 c0 c1 g) = py_bound r1 (nrows g) - py_bound r0 (nrows g)"
  "ncols (window r0 r1 c0 c1 g) = py_bound c1 (ncols g) - py_bound c0 (ncols g)"
  by (simp_all add: window_def Let_def)

lemma window_px [grid_simps]:
  "px (window r0 r1 c0 c1 g) i j = px g (py_bound r0 (nrows g) + i) (py_bound c0 (ncols g) + j)"
  by (simp add: window_def Let_def)

lemma window_prefix [grid_simps]:
  "window 0 (int m) 0 (int n) g = \<lparr>nrows = min m (nrows g), ncols = min n (ncols g), px = px g\<rparr>"
  by (simp add: window_def)

lemma paste_nz_shape [grid_simps]:
  "nrows (paste_nz g a c blk) = nrows g" "ncols (paste_nz g a c blk) = ncols g"
  by (simp_all add: paste_nz_def)

lemma paste_nz_px:
  "px (paste_nz g a c blk) i j =
     (if a \<le> i \<and> i < a + nrows blk \<and> c \<le> j \<and> j < c + ncols blk \<and> px blk (i - a) (j - c) \<noteq> 0
      then px blk (i - a) (j - c) else px g i j)"
  by (simp add: paste_nz_def)

lemma paste_nz_outside [grid_simps]:
  "\<not> (a \<le> i \<and> i < a + nrows blk \<and> c \<le> j \<and> j < c + ncols blk) \<Longrightarrow>
   px (paste_nz g a c blk) i j = px g i j"
  by (auto simp: paste_nz_def)

lemma paste_nz_changed:
  "px (paste_nz g a c blk) i j \<noteq> px g i j \<Longrightarrow>
   a \<le> i \<and> i < a + nrows blk \<and> c \<le> j \<and> j < c + ncols blk \<and>
   px blk (i - a) (j - c) \<noteq> 0 \<and> px (paste_nz g a c blk) i j = px blk (i - a) (j - c)"
  by (simp add: paste_nz_def split: if_splits)

lemma set_where_shape [grid_simps]:
  "nrows (set_where g m v) = nrows g" "ncols (set_where g m v) = ncols g"
  by (simp_all add: set_where_def)

lemma gmap_shape [grid_simps]:
  "nrows (gmap f g) = nrows g" "ncols (gmap f g) = ncols g" "px (gmap f g) i j = f (px g i j)"
  by (simp_all add: gmap_def)

lemma set_nz_pixels [grid_simps]:
  "set (nz_pixels g) = {(i, j). i < nrows g \<and> j < ncols g \<and> px g i j \<noteq> 0}"
  by (auto simp: nz_pixels_def)

lemma any_nz_iff: "any_nz g \<longleftrightarrow> (\<exists>i j. i < nrows g \<and> j < ncols g \<and> px g i j \<noteq> 0)"
proof -
  have "nz_pixels g \<noteq> [] \<longleftrightarrow> set (nz_pixels g) \<noteq> {}" by simp
  then show ?thesis by (auto simp: any_nz_def set_nz_pixels)
qed

subsection \<open>Truncation\<close>

lemma py_int_err: "\<bar>of_int (py_int x) - x\<bar> < 1"
  by (simp add: py_int_def abs_if) linarith

subsection \<open>Rules on fallible computations\<close>

lemma sbind_simps [simp]:
  "sbind (Inl e) f = Inl e"
  "sbind (Inr a) f = f a"
  by (simp_all add: sbind_def)

lemma sbind_Inr_iff:
  "sbind x f = Inr b \<longleftrightarrow> (\<exists>a. x = Inr a \<and> f a = Inr b)"
  by (cases x) (auto simp: sbind_def)

lemma map_sum_Inr_iff:
  "map_sum f g x = Inr b \<longleftrightarrow> (\<exists>a. x = Inr a \<and> b = g a)"
  by (cases x) auto

end
