(* ===== verification/Canvas.thy ===== *)
theory Canvas
  imports Prelude
begin

text \<open>
  The occupancy canvas of \<^verbatim>\<open>BaggageImage2D\<close> and the operations that read and
  write it: \<^verbatim>\<open>place_object_in_bag\<close> (commit), \<^verbatim>\<open>get_overlap\<close> (collision
  test), \<^verbatim>\<open>_adjust_for_boundaries\<close> (clamping by raster trimming) and the
  no-rule stamp of \<^verbatim>\<open>add_object\<close>. A slice of \<^verbatim>\<open>ws_bag\<close> and of
  \<^verbatim>\<open>boundary\<close> form the record \<open>canvas\<close>; an \<^verbatim>\<open>Object2D\<close> is the record
  \<open>obj2d\<close>.
\<close>

subsection \<open>Data\<close>

text \<open>The shape codes of \<^verbatim>\<open>Object2D.shape\<close>: \<^verbatim>\<open>'E'\<close>, \<^verbatim>\<open>'B'\<close>, \<^verbatim>\<open>'C'\<close>,
  \<^verbatim>\<open>'Y'\<close>, \<^verbatim>\<open>'S'\<close>, \<^verbatim>\<open>'M'\<close>, and any other string.\<close>

datatype shape_kind = Ellipse | Box | Cone | Cylinder | Sheet | Custom | Other string

record lqd_param =
  cntr_thickness :: nat
  lqd_level :: rat
  lqd_label :: int

text \<open>The attributes of \<^verbatim>\<open>Object2D\<close> the placement rules read or write:
  \<open>data\<close> is the labelled raster, \<open>dim\<close> the numpy vector \<^verbatim>\<open>dim\<close>,
  \<open>pose\<close> the anchor (row, column) in canvas coordinates, \<open>curve_pts\<close> the two
  sheet end points in object coordinates, \<open>thick\<close> the sheet thickness
  \<^verbatim>\<open>axes[0]\<close>, \<open>lqd\<close> the liquid parameters when \<^verbatim>\<open>lqd_flag\<close> is set.\<close>

record obj2d =
  shape :: shape_kind
  label :: int
  data :: grid
  dim :: "int \<times> int"
  pose :: pose
  curve_pts :: "pose \<times> pose"
  thick :: nat
  lqd :: "lqd_param option"

record canvas =
  bag :: grid
  boundary :: grid

text \<open>The container geometry fixed by the constructor: \<^verbatim>\<open>self.size\<close>,
  \<^verbatim>\<open>self.bb_h\<close>, and \<^verbatim>\<open>self.extents\<close> when a bag mask is given
  (\<open>None\<close> when \<^verbatim>\<open>self.bag_mask is None\<close>).\<close>

record bag_cfg =
  size :: int
  bb_h :: int
  extents :: "(int \<times> int) option"

definition canvas_wf :: "canvas \<Rightarrow> bool" where
  "canvas_wf cv \<longleftrightarrow> nrows (boundary cv) = nrows (bag cv) \<and> ncols (boundary cv) = ncols (bag cv)"

subsection \<open>Commit: \<^verbatim>\<open>place_object_in_bag\<close>\<close>

text \<open>The window of the canvas under the object, clipped by numpy slicing, and the
  part of the raster that fits in it (\<^verbatim>\<open>b_data = data[:s0, :s1]\<close>).\<close>

definition obj_window :: "grid \<Rightarrow> obj2d \<Rightarrow> grid" where
  "obj_window g ob =
     (case pose ob of (p0, p1) \<Rightarrow>
        window p0 (p0 + int (nrows (data ob))) p1 (p1 + int (ncols (data ob))) g)"

definition clipped_data :: "grid \<Rightarrow> obj2d \<Rightarrow> grid" where
  "clipped_data g ob =
     (let w = obj_window g ob in window 0 (int (nrows w)) 0 (int (ncols w)) (data ob))"

definition row_origin :: "grid \<Rightarrow> obj2d \<Rightarrow> nat" where
  "row_origin g ob = py_bound (fst (pose ob)) (nrows g)"

definition col_origin :: "grid \<Rightarrow> obj2d \<Rightarrow> nat" where
  "col_origin g ob = py_bound (snd (pose ob)) (ncols g)"

definition place_object_in_bag :: "canvas \<Rightarrow> obj2d \<Rightarrow> canvas" where
  "place_object_in_bag cv ob =
     cv\<lparr>bag := paste_nz (bag cv) (row_origin (bag cv) ob) (col_origin (bag cv) ob)
                        (clipped_data (bag cv) ob)\<rparr>"

subsection \<open>Collision test: \<^verbatim>\<open>get_overlap\<close>\<close>

definition get_overlap :: "canvas \<Rightarrow> obj2d \<Rightarrow> bool \<times> grid" where
  "get_overlap cv ob =
     (let bag_data = set_where (bag cv) (boundary cv) 0;
          obj_loc = obj_window bag_data ob;
          dd = window 0 (int (nrows obj_loc)) 0 (int (ncols obj_loc)) (data ob);
          obj_int = dd\<lparr>px := (\<lambda>i j. px dd i j * (if px obj_loc i j \<noteq> 0 then 1 else 0))\<rparr>
      in (any_nz obj_int, obj_int))"

subsection \<open>Clamping: \<^verbatim>\<open>_adjust_for_boundaries\<close>\<close>

definition adj_bounds :: "bag_cfg \<Rightarrow> pose \<times> pose" where
  "adj_bounds cfg =
     (case extents cfg of
        None \<Rightarrow> ((size cfg div 2 - bb_h cfg, size cfg div 2 - bb_h cfg),
                 (size cfg div 2 + bb_h cfg, size cfg div 2 + bb_h cfg))
      | Some (e0, e1) \<Rightarrow> ((size cfg div 2 - e0 div 2, size cfg div 2 - e1 div 2),
                          (size cfg div 2 + e0 div 2, size cfg div 2 + e1 div 2)))"

text \<open>The four guarded trims of the source, in its order. Each fires on a non-strict
  comparison, so a trim by zero rows also re-slices the raster.\<close>

definition adj_row_low :: "int \<Rightarrow> obj2d \<Rightarrow> obj2d" where
  "adj_row_low lb ob =
     (if fst (pose ob) \<le> lb then
        (let d0 = fst (dim ob) - (lb - fst (pose ob)) in
         ob\<lparr>pose := (lb, snd (pose ob)), dim := (d0, snd (dim ob)),
           data := window (- d0) (int (nrows (data ob))) 0 (int (ncols (data ob))) (data ob)\<rparr>)
      else ob)"

definition adj_row_high :: "int \<Rightarrow> obj2d \<Rightarrow> obj2d" where
  "adj_row_high ub ob =
     (if fst (pose ob) + fst (dim ob) \<ge> ub then
        (let d0 = fst (dim ob) - (fst (pose ob) + fst (dim ob) - ub) in
         ob\<lparr>dim := (d0, snd (dim ob)),
           data := window 0 d0 0 (int (ncols (data ob))) (data ob)\<rparr>)
      else ob)"

definition adj_col_low :: "int \<Rightarrow> obj2d \<Rightarrow> obj2d" where
  "adj_col_low lb ob =
     (if snd (pose ob) \<le> lb then
        (let d1 = snd (dim ob) - (lb - snd (pose ob)) in
         ob\<lparr>pose := (fst (pose ob), lb), dim := (fst (dim ob), d1),
           data := window 0 (int (nrows (data ob))) (- d1) (int (ncols (data ob))) (data ob)\<rparr>)
      else ob)"

definition adj_col_high :: "int \<Rightarrow> obj2d \<Rightarrow> obj2d" where
  "adj_col_high ub ob =
     (if snd (pose ob) + snd (dim ob) \<ge> ub then
        (let d1 = snd (dim ob) - (snd (pose ob) + snd (dim ob) - ub) in
         ob\<lparr>dim := (fst (dim ob), d1),
           data := window 0 (int (nrows (data ob))) 0 d1 (data ob)\<rparr>)
      else ob)"

definition adjust_for_boundaries :: "bag_cfg \<Rightarrow> obj2d \<Rightarrow> obj2d" where
  "adjust_for_boundaries cfg ob =
     (case adj_bounds cfg of ((l0, l1), (u0, u1)) \<Rightarrow>
        adj_col_high u1 (adj_col_low l1 (adj_row_high u0 (adj_row_low l0 ob))))"

subsection \<open>The no-rule stamp of \<^verbatim>\<open>add_object\<close>\<close>

text \<open>\<^verbatim>\<open>ws_bag[p0:p0+dim[0]//2, p1:p1+dim[1]//2] = data\<close> is a numpy assignment
  with broadcasting: every axis of \<open>data\<close> must equal the target's or be 1, else
  numpy raises. On success every target cell is overwritten, background included.\<close>

definition broadcastable :: "nat \<Rightarrow> nat \<Rightarrow> bool" where
  "broadcastable src tgt \<longleftrightarrow> src = tgt \<or> src = 1"

definition stamp_object :: "canvas \<Rightarrow> obj2d \<Rightarrow> py_exc + canvas" where
  "stamp_object cv ob =
     (case pose ob of (p0, p1) \<Rightarrow>
       (let g = bag cv; d = data ob;
            a = py_bound p0 (nrows g); b = py_bound (p0 + fst (dim ob) div 2) (nrows g);
            c = py_bound p1 (ncols g); e = py_bound (p1 + snd (dim ob) div 2) (ncols g)
        in if broadcastable (nrows d) (b - a) \<and> broadcastable (ncols d) (e - c)
           then Inr (cv\<lparr>bag := g\<lparr>px := (\<lambda>i j.
                   if a \<le> i \<and> i < b \<and> c \<le> j \<and> j < e
                   then px d (if nrows d = 1 then 0 else i - a) (if ncols d = 1 then 0 else j - c)
                   else px g i j)\<rparr>\<rparr>)
           else Inl BroadcastError))"

text \<open>The raster and the \<open>dim\<close> vector agree: both extents positive and equal to
  the raster's shape.\<close>

definition dims_agree :: "obj2d \<Rightarrow> bool" where
  "dims_agree ob \<longleftrightarrow> 0 < fst (dim ob) \<and> 0 < snd (dim ob) \<and>
     nrows (data ob) = nat (fst (dim ob)) \<and> ncols (data ob) = nat (snd (dim ob))"

text \<open>\<open>ob'\<close> is a clip of \<open>ob\<close>: its pose lies right of and below \<open>ob\<close>'s, and its
  raster is the block of \<open>ob\<close>'s raster that starts at the pose difference.\<close>

definition clip_of :: "obj2d \<Rightarrow> obj2d \<Rightarrow> bool" where
  "clip_of ob ob' \<longleftrightarrow> fst (pose ob) \<le> fst (pose ob') \<and> snd (pose ob) \<le> snd (pose ob') \<and>
     nat (fst (pose ob') - fst (pose ob)) + nrows (data ob') \<le> nrows (data ob) \<and>
     nat (snd (pose ob') - snd (pose ob)) + ncols (data ob') \<le> ncols (data ob) \<and>
     (\<forall>i<nrows (data ob'). \<forall>j<ncols (data ob'). px (data ob') i j =
        px (data ob) (nat (fst (pose ob') - fst (pose ob)) + i) (nat (snd (pose ob') - snd (pose ob)) + j))"

subsection \<open>Shape and frame lemmas\<close>

lemma place_shape [grid_simps]:
  "nrows (bag (place_object_in_bag cv ob)) = nrows (bag cv)"
  "ncols (bag (place_object_in_bag cv ob)) = ncols (bag cv)"
  "boundary (place_object_in_bag cv ob) = boundary cv"
  by (simp_all add: place_object_in_bag_def grid_simps)

lemma place_canvas_wf: "canvas_wf cv \<Longrightarrow> canvas_wf (place_object_in_bag cv ob)"
  by (simp add: canvas_wf_def place_shape)

lemma obj_window_rows:
  "nrows (obj_window g ob) \<le> nrows (data ob)" "ncols (obj_window g ob) \<le> ncols (data ob)"
  by (auto simp: obj_window_def window_shape py_bound_span split: prod.splits)

lemma clipped_data_shape:
  "nrows (clipped_data g ob) = nrows (obj_window g ob)"
  "ncols (clipped_data g ob) = ncols (obj_window g ob)"
  "px (clipped_data g ob) = px (data ob)"
  using obj_window_rows [of g ob] by (simp_all add: clipped_data_def Let_def window_prefix)

lemma obj_window_origin:
  "px (obj_window g ob) i j = px g (row_origin g ob + i) (col_origin g ob + j)"
  "nrows (obj_window g ob) = py_bound (fst (pose ob) + int (nrows (data ob))) (nrows g) - row_origin g ob"
  "ncols (obj_window g ob) = py_bound (snd (pose ob) + int (ncols (data ob))) (ncols g) - col_origin g ob"
  by (simp_all add: obj_window_def row_origin_def col_origin_def window_px window_shape
      split: prod.splits)

text \<open>What a commit does to one cell: a cell covered by a nonzero pixel of the
  (clipped) raster takes that pixel's value, whatever the canvas held there; every
  other cell keeps its value.\<close>

lemma place_px:
  "px (bag (place_object_in_bag cv ob)) i j =
     (let a = row_origin (bag cv) ob; c = col_origin (bag cv) ob; w = obj_window (bag cv) ob in
      if a \<le> i \<and> i < a + nrows w \<and> c \<le> j \<and> j < c + ncols w \<and> px (data ob) (i - a) (j - c) \<noteq> 0
      then px (data ob) (i - a) (j - c) else px (bag cv) i j)"
  by (simp add: place_object_in_bag_def paste_nz_px clipped_data_shape Let_def)

lemma place_changed:
  assumes "px (bag (place_object_in_bag cv ob)) i j \<noteq> px (bag cv) i j"
  shows "row_origin (bag cv) ob \<le> i \<and> i - row_origin (bag cv) ob < nrows (obj_window (bag cv) ob) \<and>
         col_origin (bag cv) ob \<le> j \<and> j - col_origin (bag cv) ob < ncols (obj_window (bag cv) ob) \<and>
         px (data ob) (i - row_origin (bag cv) ob) (j - col_origin (bag cv) ob) \<noteq> 0"
  using assms by (auto simp: place_px Let_def split: if_splits)

subsection \<open>The collision test against the commit\<close>

lemma set_where_px:
  "px (set_where g m v) i j = (if in_shape m i j \<and> px m i j \<noteq> 0 then v else px g i j)"
  by (simp add: set_where_def)

lemma obj_window_set_where:
  "row_origin (set_where g m v) ob = row_origin g ob"
  "col_origin (set_where g m v) ob = col_origin g ob"
  "nrows (obj_window (set_where g m v) ob) = nrows (obj_window g ob)"
  "ncols (obj_window (set_where g m v) ob) = ncols (obj_window g ob)"
  by (simp_all add: row_origin_def col_origin_def obj_window_origin set_where_shape)

lemma get_overlap_iff:
  "fst (get_overlap cv ob) \<longleftrightarrow>
     (\<exists>i j. i < nrows (obj_window (bag cv) ob) \<and> j < ncols (obj_window (bag cv) ob) \<and>
        px (data ob) i j \<noteq> 0 \<and>
        px (set_where (bag cv) (boundary cv) 0)
           (row_origin (bag cv) ob + i) (col_origin (bag cv) ob + j) \<noteq> 0)"
proof -
  have r: "nrows (obj_window (bag cv) ob) \<le> nrows (data ob)"
    "ncols (obj_window (bag cv) ob) \<le> ncols (data ob)"
    by (rule obj_window_rows)+
  then show ?thesis
    by (simp add: get_overlap_def Let_def any_nz_iff window_prefix obj_window_set_where
        obj_window_origin(1) [of "set_where (bag cv) (boundary cv) 0"] min_absorb1)
       (meson order_less_le_trans)
qed

subsection \<open>Commit safety\<close>

text \<open>A commit changes a cell only to write a nonzero raster pixel there; when the
  collision test reported no overlap, every such cell held background or boundary.\<close>

lemma place_no_overlap_cell:
  assumes wf: "canvas_wf cv"
    and free: "\<not> fst (get_overlap cv ob)"
    and ch: "px (bag (place_object_in_bag cv ob)) i j \<noteq> px (bag cv) i j"
  shows "px (bag cv) i j = 0 \<or> px (boundary cv) i j \<noteq> 0"
proof -
  let ?a = "row_origin (bag cv) ob" and ?c = "col_origin (bag cv) ob"
  let ?w = "obj_window (bag cv) ob"
  from ch have c: "?a \<le> i" "i - ?a < nrows ?w" "?c \<le> j" "j - ?c < ncols ?w"
    "px (data ob) (i - ?a) (j - ?c) \<noteq> 0"
    by (simp_all add: place_changed)
  with free have "px (set_where (bag cv) (boundary cv) 0) i j = 0"
    unfolding get_overlap_iff by (metis le_add_diff_inverse)
  then show ?thesis by (auto simp: set_where_px split: if_splits)
qed

subsection \<open>Clamping\<close>

lemma adj_steps_pose_dim:
  "fst (pose (adj_col_low l ob)) = fst (pose ob)" "fst (dim (adj_col_low l ob)) = fst (dim ob)"
  "fst (pose (adj_col_high u ob)) = fst (pose ob)" "fst (dim (adj_col_high u ob)) = fst (dim ob)"
  "snd (pose (adj_row_low l ob)) = snd (pose ob)" "snd (dim (adj_row_low l ob)) = snd (dim ob)"
  "snd (pose (adj_row_high u ob)) = snd (pose ob)" "snd (dim (adj_row_high u ob)) = snd (dim ob)"
  "pose (adj_row_high u ob) = pose ob" "pose (adj_col_high u ob) = pose ob"
  by (simp_all add: adj_col_low_def adj_col_high_def adj_row_low_def adj_row_high_def Let_def)

lemma adj_row_low_ge: "l \<le> fst (pose (adj_row_low l ob))"
  by (simp add: adj_row_low_def Let_def)

lemma adj_row_high_le: "fst (pose ob) + fst (dim (adj_row_high u ob)) \<le> u"
  by (simp add: adj_row_high_def Let_def)

lemma adj_col_low_ge: "l \<le> snd (pose (adj_col_low l ob))"
  by (simp add: adj_col_low_def Let_def)

lemma adj_col_high_le: "snd (pose ob) + snd (dim (adj_col_high u ob)) \<le> u"
  by (simp add: adj_col_high_def Let_def)

text \<open>Raster and \<open>dim\<close> stay in agreement through each trim as long as the object
  still meets the bound it is trimmed against.\<close>

lemma adj_row_low_agree:
  "dims_agree ob \<Longrightarrow> l < fst (pose ob) + fst (dim ob) \<Longrightarrow> dims_agree (adj_row_low l ob)
   \<and> fst (pose (adj_row_low l ob)) = max l (fst (pose ob))"
  by (auto simp: adj_row_low_def dims_agree_def Let_def window_shape py_bound_def)

lemma adj_row_high_agree:
  "dims_agree ob \<Longrightarrow> fst (pose ob) < u \<Longrightarrow> dims_agree (adj_row_high u ob)"
  by (auto simp: adj_row_high_def dims_agree_def Let_def window_shape py_bound_def)

lemma adj_col_low_agree:
  "dims_agree ob \<Longrightarrow> l < snd (pose ob) + snd (dim ob) \<Longrightarrow> dims_agree (adj_col_low l ob)
   \<and> snd (pose (adj_col_low l ob)) = max l (snd (pose ob))"
  by (auto simp: adj_col_low_def dims_agree_def Let_def window_shape py_bound_def)

lemma adj_col_high_agree:
  "dims_agree ob \<Longrightarrow> snd (pose ob) < u \<Longrightarrow> dims_agree (adj_col_high u ob)"
  by (auto simp: adj_col_high_def dims_agree_def Let_def window_shape py_bound_def)

text \<open>Each trim keeps the raster a clip of the one before it.\<close>

lemma clip_of_refl: "clip_of ob ob"
  by (simp add: clip_of_def)

lemma clip_of_trans:
  assumes "clip_of a b" "clip_of b c" shows "clip_of a c"
proof -
  let ?r = "\<lambda>x y. nat (fst (pose y) - fst (pose x))" and ?s = "\<lambda>x y. nat (snd (pose y) - snd (pose x))"
  have r: "?r a c = ?r a b + ?r b c" and s: "?s a c = ?s a b + ?s b c"
    using assms by (auto simp: clip_of_def)
  show ?thesis
    using assms unfolding clip_of_def r s by (auto simp: add.assoc)
qed

lemma adj_row_low_clip:
  "dims_agree ob \<Longrightarrow> l < fst (pose ob) + fst (dim ob) \<Longrightarrow> clip_of ob (adj_row_low l ob)"
  by (auto simp: adj_row_low_def clip_of_def dims_agree_def Let_def window_shape window_px py_bound_def)

lemma adj_row_high_clip: "clip_of ob (adj_row_high u ob)"
  by (auto simp: adj_row_high_def clip_of_def Let_def window_shape window_px py_bound_def)

lemma adj_col_low_clip:
  "dims_agree ob \<Longrightarrow> l < snd (pose ob) + snd (dim ob) \<Longrightarrow> clip_of ob (adj_col_low l ob)"
  by (auto simp: adj_col_low_def clip_of_def dims_agree_def Let_def window_shape window_px py_bound_def)

lemma adj_col_high_clip: "clip_of ob (adj_col_high u ob)"
  by (auto simp: adj_col_high_def clip_of_def Let_def window_shape window_px py_bound_def)

lemma stamp_rows_short:
  assumes "nrows (data ob) = nat (fst (dim ob))" "2 \<le> nrows (data ob)"
  shows "py_bound (fst (pose ob) + fst (dim ob) div 2) n - py_bound (fst (pose ob)) n < nrows (data ob)"
proof -
  from assms have "fst (dim ob) div 2 = int (nat (fst (dim ob) div 2))" by simp
  then have "py_bound (fst (pose ob) + fst (dim ob) div 2) n - py_bound (fst (pose ob)) n
               \<le> nat (fst (dim ob) div 2)"
    by (metis py_bound_span)
  also have "nat (fst (dim ob) div 2) < nrows (data ob)" using assms by linarith
  finally show ?thesis .
qed

text \<open>The overlap mask itself, cell by cell, and the fact that the commit window depends
  only on the pose and the raster's shape.\<close>

lemma get_overlap_mask:
  "nrows (snd (get_overlap cv ob)) = nrows (obj_window (bag cv) ob)"
  "ncols (snd (get_overlap cv ob)) = ncols (obj_window (bag cv) ob)"
  "px (snd (get_overlap cv ob)) i j =
     px (data ob) i j * (if px (set_where (bag cv) (boundary cv) 0)
                             (row_origin (bag cv) ob + i) (col_origin (bag cv) ob + j) \<noteq> 0 then 1 else 0)"
proof -
  have r: "nrows (obj_window (bag cv) ob) \<le> nrows (data ob)"
    "ncols (obj_window (bag cv) ob) \<le> ncols (data ob)"
    by (rule obj_window_rows)+
  then show "nrows (snd (get_overlap cv ob)) = nrows (obj_window (bag cv) ob)"
    "ncols (snd (get_overlap cv ob)) = ncols (obj_window (bag cv) ob)"
    by (simp_all add: get_overlap_def Let_def window_prefix obj_window_set_where min_absorb1)
  show "px (snd (get_overlap cv ob)) i j = px (data ob) i j * (if px (set_where (bag cv) (boundary cv) 0)
                             (row_origin (bag cv) ob + i) (col_origin (bag cv) ob + j) \<noteq> 0 then 1 else 0)"
    by (simp add: get_overlap_def Let_def window_prefix obj_window_set_where
        obj_window_origin(1) [of "set_where (bag cv) (boundary cv) 0"])
qed

lemma obj_window_data_shape:
  "nrows (data ob') = nrows (data ob) \<Longrightarrow> ncols (data ob') = ncols (data ob) \<Longrightarrow> pose ob' = pose ob \<Longrightarrow>
   obj_window g ob' = obj_window g ob \<and> row_origin g ob' = row_origin g ob \<and> col_origin g ob' = col_origin g ob"
  by (simp add: obj_window_def row_origin_def col_origin_def)

subsection \<open>Properties of the canvas operations\<close>

text \<open>C1: committing an object that the collision test
  found free keeps the canvas well formed and only writes on cells that held background
  or container boundary; previously placed material is never overwritten.\<close>

theorem place_object_no_overlap_safe:
  assumes "canvas_wf cv" and "\<not> fst (get_overlap cv ob)"
  shows "canvas_wf (place_object_in_bag cv ob) \<and>
         (\<forall>i j. px (bag (place_object_in_bag cv ob)) i j \<noteq> px (bag cv) i j \<longrightarrow>
                px (bag cv) i j = 0 \<or> px (boundary cv) i j \<noteq> 0)"
  using assms place_canvas_wf place_no_overlap_cell by blast

theorem place_object_no_overlap_safe_witness:
  "canvas_wf \<lparr>bag = grid_of_list [[3, 3, 3], [0, 0, 0], [0, 5, 0]],
              boundary = grid_of_list [[1, 1, 1], [0, 0, 0], [0, 0, 0]]\<rparr> \<and>
   \<not> fst (get_overlap \<lparr>bag = grid_of_list [[3, 3, 3], [0, 0, 0], [0, 5, 0]],
              boundary = grid_of_list [[1, 1, 1], [0, 0, 0], [0, 0, 0]]\<rparr>
        \<lparr>shape = Box, label = 4, data = grid_of_list [[4, 4], [4, 0]], dim = (2, 2), pose = (0, 0),
         curve_pts = ((0, 0), (0, 0)), thick = 0, lqd = None\<rparr>) \<and>
   px (bag (place_object_in_bag \<lparr>bag = grid_of_list [[3, 3, 3], [0, 0, 0], [0, 5, 0]],
              boundary = grid_of_list [[1, 1, 1], [0, 0, 0], [0, 0, 0]]\<rparr>
        \<lparr>shape = Box, label = 4, data = grid_of_list [[4, 4], [4, 0]], dim = (2, 2), pose = (0, 0),
         curve_pts = ((0, 0), (0, 0)), thick = 0, lqd = None\<rparr>)) 2 1 = 5"
proof -
  let ?cv = "\<lparr>bag = grid_of_list [[3, 3, 3], [0, 0, 0], [0, 5, 0]],
              boundary = grid_of_list [[1, 1, 1], [0, 0, 0], [0, 0, 0]]\<rparr>"
  let ?ob = "\<lparr>shape = Box, label = 4, data = grid_of_list [[4, 4], [4, 0]], dim = (2, 2),
             pose = (0, 0), curve_pts = ((0, 0), (0, 0)), thick = 0, lqd = None\<rparr>"
  have wf: "canvas_wf ?cv" by (simp add: canvas_wf_def grid_of_list_def)
  have free: "\<not> fst (get_overlap ?cv ?ob)" by code_simp
  from place_object_no_overlap_safe [OF wf free]
  have "px (bag (place_object_in_bag ?cv ?ob)) 2 1 \<noteq> px (bag ?cv) 2 1 \<longrightarrow>
        px (bag ?cv) 2 1 = 0 \<or> px (boundary ?cv) 2 1 \<noteq> 0" by blast
  then have "px (bag (place_object_in_bag ?cv ?ob)) 2 1 = 5" by (simp add: grid_of_list_def)
  with wf free show ?thesis by blast
qed

text \<open>After clamping, the object's pose and extent
  lie within the container bounds on both axes.\<close>

theorem adjust_for_boundaries_fits:
  "case adj_bounds cfg of ((l0, l1), (u0, u1)) \<Rightarrow>
     l0 \<le> fst (pose (adjust_for_boundaries cfg ob)) \<and>
     fst (pose (adjust_for_boundaries cfg ob)) + fst (dim (adjust_for_boundaries cfg ob)) \<le> u0 \<and>
     l1 \<le> snd (pose (adjust_for_boundaries cfg ob)) \<and>
     snd (pose (adjust_for_boundaries cfg ob)) + snd (dim (adjust_for_boundaries cfg ob)) \<le> u1"
  by (auto simp: adjust_for_boundaries_def adj_steps_pose_dim adj_row_low_ge adj_row_high_le
      adj_col_low_ge adj_col_high_le
      intro: order_trans [OF adj_row_low_ge] split: prod.splits)

text \<open>Clamping an object whose raster agrees with its
  \<open>dim\<close> and which meets the container on both axes leaves raster and \<open>dim\<close> in
  agreement, with positive extents.\<close>

theorem adjust_for_boundaries_agree:
  assumes "adj_bounds cfg = ((l0, l1), (u0, u1))" and "dims_agree ob"
    and "l0 < u0" "l1 < u1"
    and "l0 < fst (pose ob) + fst (dim ob)" "fst (pose ob) < u0"
    and "l1 < snd (pose ob) + snd (dim ob)" "snd (pose ob) < u1"
  shows "dims_agree (adjust_for_boundaries cfg ob)"
proof -
  let ?a = "adj_row_low l0 ob"
  have a: "dims_agree ?a" "fst (pose ?a) = max l0 (fst (pose ob))"
    using adj_row_low_agree assms(2,5) by blast+
  let ?b = "adj_row_high u0 ?a"
  have b: "dims_agree ?b" using adj_row_high_agree [OF a(1)] a(2) assms(3,6) by simp
  let ?c = "adj_col_low l1 ?b"
  have "l1 < snd (pose ?b) + snd (dim ?b)" using assms(7) by (simp add: adj_steps_pose_dim)
  then have c: "dims_agree ?c" "snd (pose ?c) = max l1 (snd (pose ?b))"
    using adj_col_low_agree b by blast+
  have "snd (pose ?c) < u1" using c(2) assms(4,8) by (simp add: adj_steps_pose_dim)
  with c(1) have "dims_agree (adj_col_high u1 ?c)" by (rule adj_col_high_agree)
  then show ?thesis using assms(1) by (simp add: adjust_for_boundaries_def)
qed

lemma adjust_for_boundaries_clip:
  assumes "adj_bounds cfg = ((l0, l1), (u0, u1))" and "dims_agree ob"
    and "l0 < u0" "l1 < u1"
    and "l0 < fst (pose ob) + fst (dim ob)" "fst (pose ob) < u0"
    and "l1 < snd (pose ob) + snd (dim ob)" "snd (pose ob) < u1"
  shows "clip_of ob (adjust_for_boundaries cfg ob)"
proof -
  let ?a = "adj_row_low l0 ob"
  have a: "dims_agree ?a" "fst (pose ?a) = max l0 (fst (pose ob))" "clip_of ob ?a"
    using adj_row_low_agree adj_row_low_clip assms(2,5) by blast+
  let ?b = "adj_row_high u0 ?a"
  have b: "dims_agree ?b" using adj_row_high_agree [OF a(1)] a(2) assms(3,6) by simp
  let ?c = "adj_col_low l1 ?b"
  have "l1 < snd (pose ?b) + snd (dim ?b)" using assms(7) by (simp add: adj_steps_pose_dim)
  then have c: "clip_of ?b ?c" using adj_col_low_clip b by blast
  have "clip_of ob (adj_col_high u1 ?c)"
    using clip_of_trans [OF clip_of_trans [OF clip_of_trans [OF a(3) adj_row_high_clip] c] adj_col_high_clip] .
  then show ?thesis using assms(1) by (simp add: adjust_for_boundaries_def)
qed

text \<open>C24: \<^verbatim>\<open>_adjust_for_boundaries\<close> clamps an object that agrees with its
  \<open>dim\<close> and meets the container on both axes to the container bounds, and trims its
  raster with it: the result still agrees with its \<open>dim\<close>, and its raster is the
  block of the old raster at the new pose.\<close>

theorem adjust_for_boundaries_clamps:
  assumes "adj_bounds cfg = ((l0, l1), (u0, u1))" and "dims_agree ob"
    and "l0 < u0" "l1 < u1"
    and "l0 < fst (pose ob) + fst (dim ob)" "fst (pose ob) < u0"
    and "l1 < snd (pose ob) + snd (dim ob)" "snd (pose ob) < u1"
  shows "l0 \<le> fst (pose (adjust_for_boundaries cfg ob)) \<and>
         fst (pose (adjust_for_boundaries cfg ob)) + fst (dim (adjust_for_boundaries cfg ob)) \<le> u0 \<and>
         l1 \<le> snd (pose (adjust_for_boundaries cfg ob)) \<and>
         snd (pose (adjust_for_boundaries cfg ob)) + snd (dim (adjust_for_boundaries cfg ob)) \<le> u1 \<and>
         dims_agree (adjust_for_boundaries cfg ob) \<and> clip_of ob (adjust_for_boundaries cfg ob)"
  using adjust_for_boundaries_fits [of cfg ob] adjust_for_boundaries_agree [OF assms]
    adjust_for_boundaries_clip [OF assms] assms(1)
  by simp

theorem adjust_for_boundaries_clamps_witness:
  "adj_bounds \<lparr>size = 20, bb_h = 5, extents = None\<rparr> = ((5, 5), (15, 15)) \<and>
   dims_agree \<lparr>shape = Box, label = 4, data = \<lparr>nrows = 4, ncols = 3, px = \<lambda>i j. 1\<rparr>, dim = (4, 3), pose = (3, 13),
        curve_pts = ((0, 0), (0, 0)), thick = 0, lqd = None\<rparr> \<and>
   adjust_for_boundaries \<lparr>size = 20, bb_h = 5, extents = None\<rparr>
        \<lparr>shape = Box, label = 4, data = \<lparr>nrows = 4, ncols = 3, px = \<lambda>i j. 1\<rparr>, dim = (4, 3), pose = (3, 13),
         curve_pts = ((0, 0), (0, 0)), thick = 0, lqd = None\<rparr> =
   \<lparr>shape = Box, label = 4, data = \<lparr>nrows = 2, ncols = 2, px = \<lambda>i j. 1\<rparr>, dim = (2, 2), pose = (5, 13),
         curve_pts = ((0, 0), (0, 0)), thick = 0, lqd = None\<rparr> \<and>
   clip_of \<lparr>shape = Box, label = 4, data = \<lparr>nrows = 4, ncols = 3, px = \<lambda>i j. 1\<rparr>, dim = (4, 3), pose = (3, 13),
        curve_pts = ((0, 0), (0, 0)), thick = 0, lqd = None\<rparr>
     \<lparr>shape = Box, label = 4, data = \<lparr>nrows = 2, ncols = 2, px = \<lambda>i j. 1\<rparr>, dim = (2, 2), pose = (5, 13),
         curve_pts = ((0, 0), (0, 0)), thick = 0, lqd = None\<rparr>"
proof -
  have b: "adj_bounds \<lparr>size = 20, bb_h = 5, extents = None\<rparr> = ((5, 5), (15, 15))"
    by (simp add: adj_bounds_def)
  have d: "dims_agree \<lparr>shape = Box, label = 4, data = \<lparr>nrows = 4, ncols = 3, px = \<lambda>i j. 1\<rparr>, dim = (4, 3), pose = (3, 13),
        curve_pts = ((0, 0), (0, 0)), thick = 0, lqd = None\<rparr>"
    by (simp add: dims_agree_def)
  have e: "adjust_for_boundaries \<lparr>size = 20, bb_h = 5, extents = None\<rparr>
        \<lparr>shape = Box, label = 4, data = \<lparr>nrows = 4, ncols = 3, px = \<lambda>i j. 1\<rparr>, dim = (4, 3), pose = (3, 13),
         curve_pts = ((0, 0), (0, 0)), thick = 0, lqd = None\<rparr> =
   \<lparr>shape = Box, label = 4, data = \<lparr>nrows = 2, ncols = 2, px = \<lambda>i j. 1\<rparr>, dim = (2, 2), pose = (5, 13),
         curve_pts = ((0, 0), (0, 0)), thick = 0, lqd = None\<rparr>"
    by (simp add: adjust_for_boundaries_def b adj_row_low_def adj_row_high_def adj_col_low_def
        adj_col_high_def window_def py_bound_def)
  show ?thesis using adjust_for_boundaries_clamps [OF b d] b d e by simp
qed

text \<open>C5: the no-rule stamp of \<^verbatim>\<open>add_object\<close> assigns a raster
  of \<open>dim[0]\<close> rows to a slice of \<open>dim[0]//2\<close> rows; for every object at least two
  rows tall whose raster agrees with its \<open>dim\<close> the shapes do not broadcast and numpy
  raises, wherever the object is.\<close>

theorem stamp_object_raises:
  assumes "nrows (data ob) = nat (fst (dim ob))" and "2 \<le> nrows (data ob)"
  shows "stamp_object cv ob = Inl BroadcastError"
proof -
  from stamp_rows_short [OF assms, of "nrows (bag cv)"] assms(2)
  have "\<not> broadcastable (nrows (data ob))
          (py_bound (fst (pose ob) + fst (dim ob) div 2) (nrows (bag cv)) -
           py_bound (fst (pose ob)) (nrows (bag cv)))"
    by (simp add: broadcastable_def)
  then show ?thesis by (cases "pose ob") (simp add: stamp_object_def Let_def)
qed

theorem stamp_object_raises_witness:
  "nrows (data \<lparr>shape = Box, label = 4, data = zeros 4 3, dim = (4, 3), pose = (3, 3),
        curve_pts = ((0, 0), (0, 0)), thick = 0, lqd = None\<rparr>) = nat 4 \<and>
   2 \<le> nrows (zeros 4 3) \<and>
   stamp_object \<lparr>bag = zeros 10 10, boundary = zeros 10 10\<rparr>
     \<lparr>shape = Box, label = 4, data = zeros 4 3, dim = (4, 3), pose = (3, 3),
      curve_pts = ((0, 0), (0, 0)), thick = 0, lqd = None\<rparr> = Inl BroadcastError"
  using stamp_object_raises [of "\<lparr>shape = Box, label = 4, data = zeros 4 3, dim = (4, 3), pose = (3, 3),
      curve_pts = ((0, 0), (0, 0)), thick = 0, lqd = None\<rparr>"]
  by (simp add: zeros_def)

text \<open>C33: \<^verbatim>\<open>place_object_in_bag\<close> slices \<^verbatim>\<open>ws_bag[pose[0] : pose[0]+dim[0]]\<close>
  without clamping, so a negative row pose counts from the end. For an object shorter than
  the canvas: when it reaches into the canvas, the slice is empty and nothing is committed;
  when it lies wholly above the canvas, the object is written into the canvas's bottom rows,
  row \<open>i\<close> of the raster at row \<open>n + pose[0] + i\<close>.\<close>

theorem place_negative_pose:
  assumes "fst (pose ob) < 0" "nrows (data ob) < nrows (bag cv)"
  shows "(0 \<le> fst (pose ob) + int (nrows (data ob)) \<longrightarrow> place_object_in_bag cv ob = cv) \<and>
         (- int (nrows (bag cv)) \<le> fst (pose ob) \<and> fst (pose ob) + int (nrows (data ob)) < 0 \<and> 0 \<le> snd (pose ob) \<and>
          nat (snd (pose ob)) + ncols (data ob) \<le> ncols (bag cv) \<longrightarrow>
          (\<forall>i<nrows (data ob). \<forall>j<ncols (data ob). px (data ob) i j \<noteq> 0 \<longrightarrow>
             px (bag (place_object_in_bag cv ob)) (nat (int (nrows (bag cv)) + fst (pose ob)) + i) (nat (snd (pose ob)) + j)
               = px (data ob) i j))"
proof (intro conjI impI allI)
  let ?n = "nrows (bag cv)" and ?d = "nrows (data ob)" and ?p = "fst (pose ob)"
  have a: "row_origin (bag cv) ob = nat (int ?n + ?p)"
    using assms by (simp add: row_origin_def py_bound_def)
  {
    assume "0 \<le> ?p + int ?d"
    then have "nrows (obj_window (bag cv) ob) = 0"
      using assms by (auto simp: obj_window_def window_shape py_bound_def split: prod.splits)
    then have "px (bag (place_object_in_bag cv ob)) = px (bag cv)"
      by (simp add: place_px fun_eq_iff Let_def)
    then have "bag (place_object_in_bag cv ob) = bag cv"
      by (intro grid.equality) (simp_all add: paste_nz_shape place_object_in_bag_def)
    then show "place_object_in_bag cv ob = cv"
      by (simp add: place_object_in_bag_def)
  }
  fix i j
  assume h: "- int ?n \<le> ?p \<and> ?p + int ?d < 0 \<and> 0 \<le> snd (pose ob) \<and> nat (snd (pose ob)) + ncols (data ob) \<le> ncols (bag cv)"
    and ij: "i < ?d" "j < ncols (data ob)" and nz: "px (data ob) i j \<noteq> 0"
  have w: "nrows (obj_window (bag cv) ob) = ?d" "ncols (obj_window (bag cv) ob) = ncols (data ob)"
    "col_origin (bag cv) ob = nat (snd (pose ob))"
    using assms h by (auto simp: obj_window_def col_origin_def window_shape py_bound_def split: prod.splits)
  show "px (bag (place_object_in_bag cv ob)) (nat (int ?n + ?p) + i) (nat (snd (pose ob)) + j) = px (data ob) i j"
    using ij nz by (simp add: place_px a w Let_def)
qed

theorem place_negative_pose_witness:
  "place_object_in_bag \<lparr>bag = zeros 4 4, boundary = zeros 4 4\<rparr>
     \<lparr>shape = Box, label = 5, data = grid_of_list [[5], [5], [5]], dim = (3, 1), pose = (- 1, 0),
      curve_pts = ((0, 0), (0, 0)), thick = 0, lqd = None\<rparr> = \<lparr>bag = zeros 4 4, boundary = zeros 4 4\<rparr> \<and>
   px (bag (place_object_in_bag \<lparr>bag = zeros 4 4, boundary = zeros 4 4\<rparr>
     \<lparr>shape = Box, label = 5, data = grid_of_list [[5]], dim = (1, 1), pose = (- 2, 0),
      curve_pts = ((0, 0), (0, 0)), thick = 0, lqd = None\<rparr>)) 2 0 = 5"
proof
  show "place_object_in_bag \<lparr>bag = zeros 4 4, boundary = zeros 4 4\<rparr>
     \<lparr>shape = Box, label = 5, data = grid_of_list [[5], [5], [5]], dim = (3, 1), pose = (- 1, 0),
      curve_pts = ((0, 0), (0, 0)), thick = 0, lqd = None\<rparr> = \<lparr>bag = zeros 4 4, boundary = zeros 4 4\<rparr>"
    using place_negative_pose [of "\<lparr>shape = Box, label = 5, data = grid_of_list [[5], [5], [5]], dim = (3, 1),
      pose = (- 1, 0), curve_pts = ((0, 0), (0, 0)), thick = 0, lqd = None\<rparr>"
      "\<lparr>bag = zeros 4 4, boundary = zeros 4 4\<rparr>"]
    by (simp add: grid_of_list_def zeros_def)
  show "px (bag (place_object_in_bag \<lparr>bag = zeros 4 4, boundary = zeros 4 4\<rparr>
     \<lparr>shape = Box, label = 5, data = grid_of_list [[5]], dim = (1, 1), pose = (- 2, 0),
      curve_pts = ((0, 0), (0, 0)), thick = 0, lqd = None\<rparr>)) 2 0 = 5"
    using place_negative_pose [of "\<lparr>shape = Box, label = 5, data = grid_of_list [[5]], dim = (1, 1),
      pose = (- 2, 0), curve_pts = ((0, 0), (0, 0)), thick = 0, lqd = None\<rparr>"
      "\<lparr>bag = zeros 4 4, boundary = zeros 4 4\<rparr>"]
    by (simp add: grid_of_list_def zeros_def)
qed

end
