(* ===== verification/Raster.thy ===== *)
theory Raster
  imports Canvas
begin

text \<open>
  The primitive rasterizer of \<^verbatim>\<open>Object2D\<close>: the crop of a mask to its
  foreground's bounding box, shared by \<^verbatim>\<open>create_ellipse\<close>,
  \<^verbatim>\<open>create_rectanguloid\<close>, \<^verbatim>\<open>create_trapezoid\<close> and
  \<^verbatim>\<open>create_custom_object\<close>; the axis-aligned box of \<^verbatim>\<open>create_rectanguloid\<close>; the
  line of \<^verbatim>\<open>create_sheet\<close> with its curve points; the slice search, thresholds and crop
  of \<^verbatim>\<open>create_custom_object\<close>; and the labelling \<^verbatim>\<open>self.data = self.label*self.data\<close>
  of the constructor. The transforms \<^verbatim>\<open>scipy.ndimage.rotate\<close> and
  \<^verbatim>\<open>skimage.transform.rescale\<close> are library calls and are parameters (\<open>rot\<close>,
  \<open>tf\<close>) of the model; the unrotated case is \<open>rot = id\<close>. The sheet is rotated with
  linear interpolation (\<^verbatim>\<open>order=1\<close>), whose values lie in \<open>[0, 1]\<close>; the code
  only reads them through \<^verbatim>\<open>> 0\<close> and \<^verbatim>\<open>astype(bool)\<close>, so \<open>rot\<close> returns the
  integer grid that is 1 where the rotated value is positive, which loses nothing the
  code observes.
\<close>

subsection \<open>Integer square root\<close>

text \<open>\<^verbatim>\<open>int(sqrt(x)//2)\<close> on a non-negative integer \<open>x\<close> is
  \<open>\<lfloor>\<surd>x\<rfloor> div 2\<close>; the floor of the square root is computed by counting up.\<close>

function isqrt_from :: "nat \<Rightarrow> nat \<Rightarrow> nat" where
  "isqrt_from n k = (if (k + 1) * (k + 1) \<le> n then isqrt_from n (k + 1) else k)"
  by pat_completeness auto
termination
  by (relation "measure (\<lambda>(n, k). Suc n - k)") (auto simp: le_square order_trans)

declare isqrt_from.simps [simp del]

definition isqrt :: "nat \<Rightarrow> nat" where
  "isqrt n = isqrt_from n 0"

subsection \<open>Bounding-box crop\<close>

text \<open>\<^verbatim>\<open>coord = np.where(mask)\<close>, then \<^verbatim>\<open>coord[0].min()\<close>, \<^verbatim>\<open>coord[0].max()\<close>
  and the same for columns. The reductions raise on an empty mask.\<close>

definition bbox :: "grid \<Rightarrow> (nat \<times> nat \<times> nat \<times> nat) option" where
  "bbox m =
     (let nz = nz_pixels m in
      if nz = [] then None
      else Some (Min (set (map fst nz)), Max (set (map fst nz)),
                 Min (set (map snd nz)), Max (set (map snd nz))))"

text \<open>\<^verbatim>\<open>dim = rmax - rmin + 1\<close>, and the slice is
  \<^verbatim>\<open>mask[rmin : rmin + dim[0] + 1, cmin : cmin + dim[1] + 1]\<close>.\<close>

definition crop_bbox :: "grid \<Rightarrow> py_exc + grid" where
  "crop_bbox m =
     (case bbox m of
        None \<Rightarrow> Inl ValueError
      | Some (r0, r1, c0, c1) \<Rightarrow>
          Inr (window (int r0) (int r0 + int (r1 - r0 + 1) + 1)
                      (int c0) (int c0 + int (c1 - c0 + 1) + 1) m))"

text \<open>\<^verbatim>\<open>x.astype(bool)\<close> read back as numbers.\<close>

definition as_bool :: "grid \<Rightarrow> grid" where
  "as_bool g = gmap (\<lambda>v. if v \<noteq> 0 then 1 else 0) g"

subsection \<open>\<^verbatim>\<open>create_rectanguloid\<close>\<close>

text \<open>A square buffer of odd side \<^verbatim>\<open>max_dim\<close> with
  \<^verbatim>\<open>mask[s0 : s0 + dim[0] + 1, s1 : s1 + dim[1] + 1] = 1\<close>.\<close>

definition fill_rect :: "nat \<Rightarrow> int \<Rightarrow> int \<Rightarrow> int \<Rightarrow> int \<Rightarrow> grid" where
  "fill_rect m r0 r1 c0 c1 =
     (let a = py_bound r0 m; b = py_bound r1 m; c = py_bound c0 m; d = py_bound c1 m in
      \<lparr>nrows = m, ncols = m, px = (\<lambda>i j. if a \<le> i \<and> i < b \<and> c \<le> j \<and> j < d then 1 else 0)\<rparr>)"

definition box_buffer :: "int \<times> int \<Rightarrow> nat \<times> int \<times> int" where
  "box_buffer d =
     (let md = 2 * int (isqrt (nat (fst d ^ 2 + snd d ^ 2)) div 2) + 1 in
      (nat md, (md - 1) div 2 - fst d div 2 + 1, (md - 1) div 2 - snd d div 2 + 1))"

text \<open>The buffer leaves at least one empty row below and one empty column right of
  the filled box (the condition under which the box is not clipped by its own
  buffer).\<close>

definition box_room :: "int \<times> int \<Rightarrow> bool" where
  "box_room d = (case box_buffer d of (md, s0, s1) \<Rightarrow> s0 + fst d + 1 < int md \<and> s1 + snd d + 1 < int md)"

text \<open>The result is the raster \<^verbatim>\<open>self.data\<close> and its shape \<^verbatim>\<open>self.dim\<close>.\<close>

definition create_rectanguloid :: "(grid \<Rightarrow> grid) \<Rightarrow> int \<times> int \<Rightarrow> py_exc + grid \<times> (int \<times> int)" where
  "create_rectanguloid rot d =
     (case box_buffer d of (md, s0, s1) \<Rightarrow>
       (case crop_bbox (rot (fill_rect md s0 (s0 + fst d + 1) s1 (s1 + snd d + 1))) of
          Inl e \<Rightarrow> Inl e
        | Inr img \<Rightarrow> Inr (as_bool img, (int (nrows img), int (ncols img)))))"

subsection \<open>\<^verbatim>\<open>create_ellipse\<close>\<close>

text \<open>\<^verbatim>\<open>mask[rr, cc] = 1\<close> on an \<open>m \<times> m\<close> square of zeros, for the pixel lists a
  skimage rasteriser returns; numpy raises \<open>IndexError\<close> for a pixel outside the square.\<close>

definition mark_pixels :: "nat \<Rightarrow> pix list \<Rightarrow> py_exc + grid" where
  "mark_pixels m ps =
     (if list_all (\<lambda>(i, j). i < m \<and> j < m) ps
      then Inr \<lparr>nrows = m, ncols = m, px = (\<lambda>i j. if (i, j) \<in> set ps then 1 else 0)\<rparr>
      else Inl IndexError)"

text \<open>The axes are truncated by \<^verbatim>\<open>astype(int)\<close>; the buffer is a square of side
  \<^verbatim>\<open>2*max(axes[0], axes[1])+1\<close>; \<^verbatim>\<open>skimage.draw.ellipse\<close> is the parameter \<open>ell\<close>
  (centre row and column, the two radii, the rotation \<^verbatim>\<open>theta[0]\<close>, the shape), called
  first and assumed to return a pixel list, possibly empty, for every shape; then
  \<^verbatim>\<open>np.zeros\<close> raises \<open>ValueError\<close> on a negative side; the crop is the one of
  \<^verbatim>\<open>create_rectanguloid\<close>.\<close>

definition create_ellipse :: "(int \<Rightarrow> int \<Rightarrow> int \<Rightarrow> int \<Rightarrow> real \<Rightarrow> nat \<times> nat \<Rightarrow> pix list)
    \<Rightarrow> rat \<times> rat \<Rightarrow> real \<Rightarrow> py_exc + grid \<times> (int \<times> int)" where
  "create_ellipse ell ax th =
     (let a0 = py_int (fst ax); a1 = py_int (snd ax); m = max a0 a1; side = 2 * m + 1;
          ps = ell (m + 1) (m + 1) a0 a1 th (nat side, nat side) in
      if side < 0 then Inl ValueError
      else sbind (mark_pixels (nat side) ps) (\<lambda>mask.
           sbind (crop_bbox mask) (\<lambda>img. Inr (as_bool img, (int (nrows img), int (ncols img))))))"

subsection \<open>\<^verbatim>\<open>create_trapezoid\<close>\<close>

text \<open>\<^verbatim>\<open>np.arctan(a / b)\<close> on numpy floats: \<open>b = 0\<close> gives \<open>\<plusminus>inf\<close> and the arctangent
  \<open>\<plusminus>\<pi>/2\<close>, or \<open>nan\<close> when \<open>a = 0\<close> too (the value \<open>None\<close>).\<close>

definition np_div_arctan :: "real \<Rightarrow> real \<Rightarrow> real option" where
  "np_div_arctan a b =
     (if b \<noteq> 0 then Some (arctan (a / b))
      else if 0 < a then Some (pi / 2) else if a < 0 then Some (- pi / 2) else None)"

text \<open>The angle handed to \<^verbatim>\<open>sptx.rotate\<close>: \<^verbatim>\<open>rho\<close> is the arctangent of the slope
  of the cone's axis, in radians, and \<^verbatim>\<open>np.deg2rad(rho)\<close> converts it once more.\<close>

definition trap_angle :: "real \<times> real \<times> real \<Rightarrow> real \<times> real \<times> real \<Rightarrow> real option" where
  "trap_angle c1 c2 =
     map_option (\<lambda>r. r * pi / 180) (np_div_arctan (fst (snd c2) - fst (snd c1)) (fst c2 - fst c1))"

text \<open>The slice \<^verbatim>\<open>mask[rmin : rmin+dim[0]+1, cmin : cmin+dim[1]+1]\<close> with the
  extents read from \<^verbatim>\<open>np.where(sel)\<close> of a selection \<open>sel\<close> of the mask.\<close>

definition crop_where :: "grid \<Rightarrow> grid \<Rightarrow> py_exc + grid" where
  "crop_where sel m =
     (case bbox sel of
        None \<Rightarrow> Inl ValueError
      | Some (r0, r1, c0, c1) \<Rightarrow>
          Inr (window (int r0) (int r0 + int (r1 - r0 + 1) + 1)
                      (int c0) (int c0 + int (c1 - c0 + 1) + 1) m))"

text \<open>The polygon of the trapezoid on a square of side \<^verbatim>\<open>2*max_dim+1\<close>
  (\<^verbatim>\<open>skimage.draw.polygon\<close> is the parameter \<open>poly\<close>), rotated by \<open>rot\<close> at the angle
  above (\<open>None\<close> for \<open>nan\<close>), cropped to the pixels equal to 1. The result also
  holds \<^verbatim>\<open>obj_dict['geom']['base']\<close> and \<^verbatim>\<open>['apex']\<close>, rewritten as the one-row
  arrays \<^verbatim>\<open>array([center1])\<close> and \<^verbatim>\<open>array([center2])\<close>.\<close>

definition create_trapezoid :: "(real option \<Rightarrow> grid \<Rightarrow> grid) \<Rightarrow> (int list \<Rightarrow> int list \<Rightarrow> nat \<times> nat \<Rightarrow> pix list)
    \<Rightarrow> real \<times> real \<times> real \<Rightarrow> real \<times> real \<times> real \<Rightarrow> int \<Rightarrow> int
    \<Rightarrow> py_exc + (grid \<times> (int \<times> int)) \<times> (real \<times> real \<times> real) list \<times> (real \<times> real \<times> real) list" where
  "create_trapezoid rot poly c1 c2 r1 r2 =
     (let mx = max r1 r2; mn = min r1 r2; side = mx * 2 + 1 in
      if side < 0 then Inl ValueError
      else sbind (mark_pixels (nat side) (poly [mx - mn, mx + mn, side, 0] [0, 0, side, side] (nat side, nat side))) (\<lambda>mask.
           (let m = rot (trap_angle c1 c2) mask in
            sbind (crop_where (gmap (\<lambda>v. if v = 1 then 1 else 0) m) m) (\<lambda>img.
              Inr ((as_bool img, (int (nrows img), int (ncols img))), [c1], [c2])))))"

subsection \<open>\<^verbatim>\<open>create_sheet\<close>\<close>

text \<open>\<^verbatim>\<open>mask[max_dim//2, 5:-5] = 1\<close> on a square of side \<^verbatim>\<open>max_dim = int(dim[1]) + 10\<close>.\<close>

definition sheet_line :: "nat \<Rightarrow> grid" where
  "sheet_line md = fill_window (zeros md md) (int (md div 2)) (int (md div 2) + 1) 5 (- 5) 1"

text \<open>\<^verbatim>\<open>np.where(cpt_mask > 0)\<close>.\<close>

definition pos_pixels :: "grid \<Rightarrow> pix list" where
  "pos_pixels g = [(i, j). i \<leftarrow> [0..<nrows g], j \<leftarrow> [0..<ncols g], 0 < px g i j]"

text \<open>The sheet raster, its shape and its two curve points: the line is rotated (the
  parameter \<open>rot\<close>, \<^verbatim>\<open>scipy.ndimage.rotate\<close> with \<^verbatim>\<open>reshape=False\<close>), the first and
  last positive pixels become the curve points, and the raster is the slice between them,
  end points included. \<^verbatim>\<open>np.zeros\<close> raises on a negative side, the indexing
  \<^verbatim>\<open>pts_coords[0][0]\<close> on an empty line.\<close>

definition create_sheet :: "(grid \<Rightarrow> grid) \<Rightarrow> int \<times> int \<Rightarrow> py_exc + grid \<times> (int \<times> int) \<times> (pose \<times> pose)" where
  "create_sheet rot d =
     (if snd d + 10 < 0 then Inl ValueError
      else
        (let md = nat (snd d + 10); m = rot (sheet_line md); cm = rot (sheet_line md); pts = pos_pixels cm in
         if pts = [] then Inl IndexError
         else
           (let a = hd pts; b = last pts;
                r0 = min (fst a) (fst b); r1 = max (fst a) (fst b);
                c0 = min (snd a) (snd b); c1 = max (snd a) (snd b);
                img = window (int r0) (int r1 + 1) (int c0) (int c1 + 1) m
            in Inr (as_bool img, (int (nrows img), int (ncols img)),
                    ((int (fst a) - int r0, int (snd a) - int c0), (int (fst b) - int r0, int (snd b) - int c0))))))"

subsection \<open>\<^verbatim>\<open>create_custom_object\<close>\<close>

text \<open>\<^verbatim>\<open>mask.max()\<close>: \<open>ValueError\<close> on an empty array.\<close>

definition py_max :: "grid \<Rightarrow> py_exc + int" where
  "py_max g =
     (if nrows g = 0 \<or> ncols g = 0 then Inl ValueError
      else Inr (Max (set [px g i j. i \<leftarrow> [0..<nrows g], j \<leftarrow> [0..<ncols g]])))"

text \<open>\<^verbatim>\<open>sum(mask) < 50\<close>. The star import \<^verbatim>\<open>from numpy import *\<close> (line 31) binds
  \<^verbatim>\<open>sum\<close> to \<^verbatim>\<open>numpy.sum\<close>, which adds every element of the array to one scalar
  (0 for an empty array), so the comparison never raises.\<close>

definition sum_lt_50 :: "grid \<Rightarrow> bool" where
  "sum_lt_50 g = (sum_list [px g i j. i \<leftarrow> [0..<nrows g], j \<leftarrow> [0..<ncols g]] < 50)"

text \<open>\<^verbatim>\<open>while mask.max()<1 and sum(mask)<50: mask = self.data[:,:,r]; ...; r += 1\<close> over the
  slices \<open>vol\<close> of the 3D mask; indexing past the last slice raises \<open>IndexError\<close>, before
  the test \<^verbatim>\<open>r == dims[2]\<close> can be reached.\<close>

function custom_scan :: "grid list \<Rightarrow> nat \<Rightarrow> grid \<Rightarrow> py_exc + grid" where
  "custom_scan vol r msk =
     (case py_max msk of
        Inl e \<Rightarrow> Inl e
      | Inr mx \<Rightarrow>
          if \<not> mx < 1 then Inr msk
          else if \<not> sum_lt_50 msk then Inr msk
          else if r < length vol
          then custom_scan vol (Suc r) (if r = length vol then gmap (\<lambda>v. v + 1) (vol ! r) else vol ! r)
          else Inl IndexError)"
  by pat_completeness auto
termination
  by (relation "measure (\<lambda>(vol, r, msk). length vol - r)") auto

text \<open>The middle slice \<^verbatim>\<open>data[:,:,dims[2]//2]\<close>, or the scan from slice 1 when it is empty.\<close>

definition custom_mask :: "grid list \<Rightarrow> py_exc + grid" where
  "custom_mask vol =
     (if length vol div 2 < length vol
      then (let m = vol ! (length vol div 2) in
            case py_max m of
              Inl e \<Rightarrow> Inl e
            | Inr mx \<Rightarrow> if mx < 1 then custom_scan vol 1 (zeros (nrows m) (ncols m)) else Inr m)
      else Inl IndexError)"

text \<open>The volume of a custom shape is a boolean mask: its slices hold no negative
  value and have at least one row and one column.\<close>

definition mask_slices :: "grid list \<Rightarrow> bool" where
  "mask_slices vol \<longleftrightarrow> list_all (\<lambda>g. 0 < nrows g \<and> 0 < ncols g \<and>
     (\<forall>i<nrows g. \<forall>j<ncols g. 0 \<le> px g i j)) vol"

text \<open>Rotation and rescaling are the parameter \<open>tf\<close> (\<^verbatim>\<open>sptx.rotate\<close>, then
  \<^verbatim>\<open>sktr.rescale\<close>); its result is read through the thresholds
  \<^verbatim>\<open>mask[mask>0] = 1; mask[mask<0.5] = 0\<close>, which leave 1 exactly where it is positive. Then
  \<^verbatim>\<open>if mask.max()<1: mask = mask + 1\<close> and the crop shared with the other shapes.\<close>

definition create_custom_object :: "(grid \<Rightarrow> grid) \<Rightarrow> grid list \<Rightarrow> py_exc + grid \<times> (int \<times> int)" where
  "create_custom_object tf vol =
     (case custom_mask vol of
        Inl e \<Rightarrow> Inl e
      | Inr m \<Rightarrow>
          (let m1 = gmap (\<lambda>v. if 0 < v then 1 else 0) (tf m) in
           case py_max m1 of
             Inl e \<Rightarrow> Inl e
           | Inr mx \<Rightarrow>
               (case crop_bbox (if mx < 1 then gmap (\<lambda>v. v + 1) m1 else m1) of
                  Inl e \<Rightarrow> Inl e
                | Inr img \<Rightarrow> Inr (as_bool img, (int (nrows img), int (ncols img))))))"

subsection \<open>Labelling\<close>

text \<open>The tail of \<^verbatim>\<open>Object2D.__init__\<close>: \<^verbatim>\<open>self.data = self.label*self.data\<close>
  on the boolean raster.\<close>

definition label_raster :: "int \<Rightarrow> grid \<Rightarrow> grid" where
  "label_raster l g = gmap (\<lambda>v. l * v) g"

text \<open>The box branch of the constructor: \<^verbatim>\<open>dim\<close> from the descriptor,
  \<^verbatim>\<open>create_rectanguloid\<close>, the liquid parameters, the labelling.\<close>

definition init_box :: "(grid \<Rightarrow> grid) \<Rightarrow> int \<Rightarrow> int \<times> int \<Rightarrow> pose \<Rightarrow> lqd_param option
                        \<Rightarrow> py_exc + obj2d" where
  "init_box rot l d p lq =
     (case create_rectanguloid rot d of
        Inl e \<Rightarrow> Inl e
      | Inr (img, dm) \<Rightarrow>
          Inr \<lparr>shape = Box, label = l, data = label_raster l img, dim = dm, pose = p,
               curve_pts = ((0, 0), (0, 0)), thick = 0, lqd = lq\<rparr>)"

subsection \<open>Square root\<close>

lemma isqrt_from_spec: "k * k \<le> n \<Longrightarrow>
  isqrt_from n k * isqrt_from n k \<le> n \<and> n < (isqrt_from n k + 1) * (isqrt_from n k + 1)"
proof (induction n k rule: isqrt_from.induct)
  case (1 n k)
  show ?case
  proof (cases "(k + 1) * (k + 1) \<le> n")
    case True
    with "1.IH" show ?thesis by (simp add: isqrt_from.simps [of n k])
  next
    case False
    with "1.prems" show ?thesis by (simp add: isqrt_from.simps [of n k])
  qed
qed

lemma isqrt_spec: "isqrt n * isqrt n \<le> n \<and> n < (isqrt n + 1) * (isqrt n + 1)"
  unfolding isqrt_def by (rule isqrt_from_spec) simp

subsection \<open>Crop lemmas\<close>

lemma bbox_Some:
  assumes "bbox m = Some (r0, r1, c0, c1)"
  shows "\<exists>j. (r0, j) \<in> set (nz_pixels m)" "\<exists>j. (r1, j) \<in> set (nz_pixels m)"
    "\<exists>i. (i, c0) \<in> set (nz_pixels m)" "\<exists>i. (i, c1) \<in> set (nz_pixels m)"
    "\<And>i j. (i, j) \<in> set (nz_pixels m) \<Longrightarrow> r0 \<le> i \<and> i \<le> r1 \<and> c0 \<le> j \<and> j \<le> c1"
proof -
  let ?nz = "nz_pixels m"
  from assms have ne: "?nz \<noteq> []" and
    r: "r0 = Min (set (map fst ?nz))" "r1 = Max (set (map fst ?nz))"
       "c0 = Min (set (map snd ?nz))" "c1 = Max (set (map snd ?nz))"
    by (auto simp: bbox_def Let_def split: if_splits)
  from ne have fin: "finite (set (map fst ?nz))" "set (map fst ?nz) \<noteq> {}"
    "finite (set (map snd ?nz))" "set (map snd ?nz) \<noteq> {}" by simp_all
  show "\<exists>j. (r0, j) \<in> set ?nz" using Min_in [OF fin(1,2)] r(1) by force
  show "\<exists>j. (r1, j) \<in> set ?nz" using Max_in [OF fin(1,2)] r(2) by force
  show "\<exists>i. (i, c0) \<in> set ?nz" using Min_in [OF fin(3,4)] r(3) by force
  show "\<exists>i. (i, c1) \<in> set ?nz" using Max_in [OF fin(3,4)] r(4) by force
  fix i j assume "(i, j) \<in> set ?nz"
  then have "i \<in> set (map fst ?nz)" "j \<in> set (map snd ?nz)" by force+
  with fin r show "r0 \<le> i \<and> i \<le> r1 \<and> c0 \<le> j \<and> j \<le> c1" by simp
qed

lemma bbox_in_shape:
  "bbox m = Some (r0, r1, c0, c1) \<Longrightarrow> r0 \<le> r1 \<and> r1 < nrows m \<and> c0 \<le> c1 \<and> c1 < ncols m"
  using bbox_Some [of m r0 r1 c0 c1] by (auto simp: set_nz_pixels)

lemma bbox_None: "bbox m = None \<longleftrightarrow> \<not> any_nz m"
  by (simp add: bbox_def any_nz_def Let_def)

text \<open>The crop's shape and content: it starts at the first foreground row and column
  and runs one past the last, clipped by the buffer.\<close>

lemma crop_bbox_eq:
  assumes "bbox m = Some (r0, r1, c0, c1)"
  shows "crop_bbox m = Inr \<lparr>nrows = min (r1 + 2) (nrows m) - r0, ncols = min (c1 + 2) (ncols m) - c0,
                            px = (\<lambda>i j. px m (r0 + i) (c0 + j))\<rparr>"
proof -
  from bbox_in_shape [OF assms] have "r0 \<le> r1" "c0 \<le> c1" "r0 < nrows m" "c0 < ncols m" by auto
  then have "int r0 + int (r1 - r0 + 1) + 1 = int (r1 + 2)" "int c0 + int (c1 - c0 + 1) + 1 = int (c1 + 2)"
    by simp_all
  with assms \<open>r0 < nrows m\<close> \<open>c0 < ncols m\<close> show ?thesis
    by (simp add: crop_bbox_def window_def Let_def py_bound_nonneg nat_add_distrib)
qed

lemma crop_bbox_Inr:
  "bbox m = Some (r0, r1, c0, c1) \<Longrightarrow> crop_bbox m = Inr c \<Longrightarrow>
   nrows c = min (r1 + 2) (nrows m) - r0 \<and> ncols c = min (c1 + 2) (ncols m) - c0 \<and>
   (\<forall>i j. px c i j = px m (r0 + i) (c0 + j))"
  by (auto simp: crop_bbox_eq)

text \<open>The row after the last foreground row holds no foreground.\<close>

lemma bbox_row_after:
  "bbox m = Some (r0, r1, c0, c1) \<Longrightarrow> Suc r1 < nrows m \<Longrightarrow> j < ncols m \<Longrightarrow> px m (Suc r1) j = 0"
  using bbox_Some(5) [of m r0 r1 c0 c1 "Suc r1" j] by (auto simp: set_nz_pixels)

lemma bbox_col_after:
  "bbox m = Some (r0, r1, c0, c1) \<Longrightarrow> Suc c1 < ncols m \<Longrightarrow> i < nrows m \<Longrightarrow> px m i (Suc c1) = 0"
  using bbox_Some(5) [of m r0 r1 c0 c1 i "Suc c1"] by (auto simp: set_nz_pixels)

subsection \<open>The unrotated box\<close>

lemma fill_rect_nz:
  "set (nz_pixels (fill_rect m r0 r1 c0 c1)) =
     {py_bound r0 m..<py_bound r1 m} \<times> {py_bound c0 m..<py_bound c1 m}"
  using py_bound_le [of r1 m] py_bound_le [of c1 m]
  by (auto simp: set_nz_pixels fill_rect_def Let_def)

lemma Min_Max_interval:
  "(a::nat) < b \<Longrightarrow> Min {a..<b} = a \<and> Max {a..<b} = b - 1"
  by (auto intro!: Min_eqI Max_eqI)

lemma bbox_rect:
  assumes "a < b" "c < d"
    and "set (nz_pixels m) = {a..<b} \<times> {c..<d}"
  shows "bbox m = Some (a, b - 1, c, d - 1)"
proof -
  have "(a, c) \<in> set (nz_pixels m)" using assms by simp
  then have ne: "nz_pixels m \<noteq> []" by auto
  have "set (map fst (nz_pixels m)) = {a..<b}" "set (map snd (nz_pixels m)) = {c..<d}"
    using assms by (auto simp: image_iff)
  with ne assms(1,2) show ?thesis by (simp add: bbox_def Min_Max_interval)
qed

lemma box_buffer_parts:
  assumes "box_buffer d = (md, s0, s1)"
  shows "int md = 2 * ((int md - 1) div 2) + 1" "s0 = (int md - 1) div 2 - fst d div 2 + 1"
    "s1 = (int md - 1) div 2 - snd d div 2 + 1"
  using assms by (auto simp: box_buffer_def Let_def)

lemma box_room_pos:
  assumes "box_buffer d = (md, s0, s1)" "box_room d" "0 \<le> fst d" "0 \<le> snd d"
  shows "0 < s0" "0 < s1" "s0 + fst d + 1 < int md" "s1 + snd d + 1 < int md"
proof -
  note p = box_buffer_parts [OF assms(1)]
  from assms(1,2) show r: "s0 + fst d + 1 < int md" "s1 + snd d + 1 < int md" by (simp_all add: box_room_def)
  from r(1) p(1,2) assms(3) show "0 < s0" by linarith
  from r(2) p(1,3) assms(4) show "0 < s1" by linarith
qed

subsection \<open>The sheet line and the custom mask\<close>

lemma py_max_zeros: "0 < n \<Longrightarrow> 0 < m \<Longrightarrow> py_max (zeros n m) = Inr 0"
proof -
  assume "0 < n" "0 < m"
  then have "set [px (zeros n m) i j. i \<leftarrow> [0..<n], j \<leftarrow> [0..<m]] = {0}"
    by (auto simp: zeros_def)
  with \<open>0 < n\<close> \<open>0 < m\<close> show ?thesis by (simp add: py_max_def zeros_def)
qed

lemma py_max_Inr: "py_max g = Inr mx \<Longrightarrow> 0 < nrows g \<and> 0 < ncols g"
  by (auto simp: py_max_def split: if_splits)

text \<open>On a boolean mask, \<^verbatim>\<open>mask.max() < 1\<close> means the slice is empty, and an empty
  slice sums to 0; the scan then returns the first nonempty slice from \<open>r\<close> on.\<close>

lemma py_max_mask:
  assumes "mask_slices [g]"
  shows "\<exists>mx. py_max g = Inr mx \<and> (mx < 1 \<longleftrightarrow> \<not> any_nz g)"
proof -
  let ?S = "set [px g i j. i \<leftarrow> [0..<nrows g], j \<leftarrow> [0..<ncols g]]"
  from assms have n: "0 < nrows g" "0 < ncols g" and nn: "\<forall>i<nrows g. \<forall>j<ncols g. 0 \<le> px g i j"
    by (auto simp: mask_slices_def)
  have ne: "?S \<noteq> {}" using n by auto
  have "Max ?S < 1 \<longleftrightarrow> (\<forall>v\<in>?S. v < 1)" using ne by simp
  also have "\<dots> \<longleftrightarrow> \<not> any_nz g"
  proof
    assume a: "\<forall>v\<in>?S. v < 1"
    show "\<not> any_nz g"
    proof
      assume "any_nz g"
      then obtain i j where ij: "i < nrows g" "j < ncols g" "px g i j \<noteq> 0" by (auto simp: any_nz_iff)
      then have "px g i j \<in> ?S" by force
      with a nn ij show False by fastforce
    qed
  next
    assume "\<not> any_nz g"
    then show "\<forall>v\<in>?S. v < 1" by (auto simp: any_nz_iff)
  qed
  finally show ?thesis using n by (simp add: py_max_def)
qed

lemma sum_lt_50_empty: "\<not> any_nz g \<Longrightarrow> sum_lt_50 g"
proof -
  assume "\<not> any_nz g"
  then have "\<forall>v\<in>set [px g i j. i \<leftarrow> [0..<nrows g], j \<leftarrow> [0..<ncols g]]. v = 0"
    by (auto simp: any_nz_iff)
  moreover have "\<forall>v\<in>set xs. v = 0 \<Longrightarrow> sum_list xs = 0" for xs :: "int list"
    by (induction xs) auto
  ultimately have "sum_list [px g i j. i \<leftarrow> [0..<nrows g], j \<leftarrow> [0..<ncols g]] = 0"
    by blast
  then show ?thesis by (simp add: sum_lt_50_def)
qed

lemma custom_scan_find:
  assumes "mask_slices vol" "mask_slices [msk]"
  shows "custom_scan vol r msk =
           (if any_nz msk then Inr msk
            else case find (\<lambda>k. any_nz (vol ! k)) [r..<length vol] of
                   Some k \<Rightarrow> Inr (vol ! k) | None \<Rightarrow> Inl IndexError)"
  using assms
proof (induction vol r msk rule: custom_scan.induct)
  case (1 vol r msk)
  from py_max_mask [OF "1.prems"(2)] obtain mx where mx: "py_max msk = Inr mx" "mx < 1 \<longleftrightarrow> \<not> any_nz msk"
    by blast
  show ?case
  proof (cases "any_nz msk")
    case True
    with mx show ?thesis by (simp add: custom_scan.simps)
  next
    case False
    show ?thesis
    proof (cases "r < length vol")
      case True
      have "mask_slices [vol ! r]" using "1.prems"(1) True by (simp add: mask_slices_def list_all_length)
      with "1.IH" [OF mx(1) _ _ True "1.prems"(1)] False mx True
      have "custom_scan vol (Suc r) (vol ! r) =
              (if any_nz (vol ! r) then Inr (vol ! r)
               else case find (\<lambda>k. any_nz (vol ! k)) [Suc r..<length vol] of
                      Some k \<Rightarrow> Inr (vol ! k) | None \<Rightarrow> Inl IndexError)"
        by (simp add: sum_lt_50_empty)
      with False mx True show ?thesis
        by (simp add: custom_scan.simps [of vol r] sum_lt_50_empty upt_conv_Cons)
    next
      case False
      with \<open>\<not> any_nz msk\<close> mx show ?thesis by (simp add: custom_scan.simps [of vol r] sum_lt_50_empty)
    qed
  qed
qed

lemma concat_map_single:
  "concat (map (\<lambda>i. if i = h then xs else []) [0..<n]) = (if h < n then xs else [])"
  by (induction n) auto

lemma concat_map_interval:
  "b \<le> n \<Longrightarrow> concat (map (\<lambda>j. if a \<le> j \<and> j < b then [f j] else []) [0..<n]) = map f [a..<b]"
proof (induction n arbitrary: b)
  case 0
  then show ?case by simp
next
  case (Suc n)
  show ?case
  proof (cases "b \<le> n")
    case True
    with Suc show ?thesis by simp
  next
    case False
    with Suc.prems have b: "b = Suc n" by simp
    have "concat (map (\<lambda>j. if a \<le> j \<and> j < b then [f j] else []) [0..<n]) =
          concat (map (\<lambda>j. if a \<le> j \<and> j < n then [f j] else []) [0..<n])"
      using b by (intro arg_cong [where f = concat] map_cong) auto
    also have "\<dots> = map f [a..<n]" by (rule Suc.IH) simp
    finally show ?thesis using b by auto
  qed
qed

lemma sheet_line_px:
  "10 < md \<Longrightarrow> px (sheet_line md) i j = (if i = md div 2 \<and> 5 \<le> j \<and> j < md - 5 then 1 else 0)"
proof -
  assume md: "10 < md"
  have "nat (int (md div 2) + 1) = Suc (md div 2)" "nat (int md - 5) = md - 5" using md by simp_all
  with md show ?thesis by (auto simp: sheet_line_def fill_window_def zeros_def py_bound_def Let_def)
qed

lemma pos_pixels_sheet_line:
  assumes "10 < md"
  shows "pos_pixels (sheet_line md) = map (Pair (md div 2)) [5..<md - 5]"
proof -
  have s: "nrows (sheet_line md) = md" "ncols (sheet_line md) = md"
    by (simp_all add: sheet_line_def fill_window_def zeros_def Let_def)
  have "pos_pixels (sheet_line md) =
        concat (map (\<lambda>i. if i = md div 2 then map (Pair (md div 2)) [5..<md - 5] else []) [0..<md])"
    unfolding pos_pixels_def s
  proof (intro arg_cong [where f = concat] map_cong refl)
    fix i assume "i \<in> set [0..<md]"
    show "concat (map (\<lambda>j. if 0 < px (sheet_line md) i j then [(i, j)] else []) [0..<md]) =
          (if i = md div 2 then map (Pair (md div 2)) [5..<md - 5] else [])"
    proof (cases "i = md div 2")
      case True
      have "(\<lambda>j. if 0 < px (sheet_line md) i j then [(i, j)] else []) =
            (\<lambda>j. if 5 \<le> j \<and> j < md - 5 then [Pair (md div 2) j] else [])"
        using assms True by (auto simp: sheet_line_px)
      with True concat_map_interval [of "md - 5" md 5 "Pair (md div 2)"] show ?thesis by simp
    next
      case False
      then have "(\<lambda>j. if 0 < px (sheet_line md) i j then [(i, j)] else []) = (\<lambda>j. [])"
        using assms by (auto simp: sheet_line_px)
      with False show ?thesis by simp
    qed
  qed
  also have "\<dots> = map (Pair (md div 2)) [5..<md - 5]" using assms by (simp add: concat_map_single)
  finally show ?thesis .
qed

subsection \<open>The trapezoid's angle\<close>

lemma np_div_arctan_bound: "np_div_arctan a b = Some r \<Longrightarrow> \<bar>r\<bar> \<le> pi / 2"
  using arctan_bounded [of "a / b"] pi_gt_zero
  by (auto simp: np_div_arctan_def abs_if split: if_splits)

subsection \<open>Properties of the rasterizer\<close>

text \<open>C22: the rotation \<^verbatim>\<open>create_trapezoid\<close> hands to \<^verbatim>\<open>sptx.rotate\<close>, which reads
  it in degrees, is below one twentieth of a degree in magnitude for every pair of
  centres: the arctangent is already in radians and \<^verbatim>\<open>np.deg2rad\<close> shrinks it again,
  so cones and cylinders are never visibly rotated.\<close>

theorem trapezoid_rotation_negligible:
  assumes "trap_angle c1 c2 = Some x"
  shows "\<bar>x\<bar> < 1 / 20"
proof -
  obtain r where r: "np_div_arctan (fst (snd c2) - fst (snd c1)) (fst c2 - fst c1) = Some r"
    and x: "x = r * pi / 180"
    using assms by (auto simp: trap_angle_def)
  have "\<bar>r\<bar> \<le> pi / 2" using np_div_arctan_bound [OF r] .
  then have "\<bar>x\<bar> \<le> pi / 2 * pi / 180"
    by (simp add: x abs_mult mult_right_mono)
  also have "\<dots> < 4 / 2 * 4 / 180"
    using mult_strict_mono [OF pi_less_4 pi_less_4] pi_gt_zero by simp
  finally show ?thesis by simp
qed

theorem trapezoid_rotation_negligible_witness:
  "trap_angle (0, 0, 0) (1, 2, 0) = Some (arctan 2 * pi / 180) \<and> \<bar>arctan 2 * pi / 180\<bar> < (1 / 20 :: real)"
proof -
  have a: "trap_angle (0, 0, 0) (1, 2, 0) = Some (arctan 2 * pi / 180)"
    by (simp add: trap_angle_def np_div_arctan_def)
  show ?thesis using trapezoid_rotation_negligible [OF a] a by simp
qed

text \<open>C20: the crop keeps one row below the last foreground
  row and one column right of the last foreground column whenever the mask has them,
  so a cropped raster has an all-background bottom row and right column; the crop is
  not tight (the slice end \<^verbatim>\<open>rmin + dim + 1\<close> is one past the box).\<close>

theorem crop_bbox_background_border:
  assumes bb: "bbox m = Some (r0, r1, c0, c1)" and cr: "crop_bbox m = Inr c"
    and room: "Suc r1 < nrows m" "Suc c1 < ncols m"
  shows "nrows c = r1 - r0 + 2 \<and> (\<forall>j < ncols c. px c (r1 - r0 + 1) j = 0) \<and>
         ncols c = c1 - c0 + 2 \<and> (\<forall>i < nrows c. px c i (c1 - c0 + 1) = 0)"
proof -
  from bbox_in_shape [OF bb] have le: "r0 \<le> r1" "c0 \<le> c1" by auto
  from crop_bbox_Inr [OF bb cr] room le
  have sh: "nrows c = r1 - r0 + 2" "ncols c = c1 - c0 + 2"
    and p: "\<And>i j. px c i j = px m (r0 + i) (c0 + j)" by auto
  have "px c (r1 - r0 + 1) j = 0" if "j < ncols c" for j
    using p [of "r1 - r0 + 1" j] bbox_row_after [OF bb room(1), of "c0 + j"] that sh(2) room(2) le
    by simp
  moreover have "px c i (c1 - c0 + 1) = 0" if "i < nrows c" for i
    using p [of i "c1 - c0 + 1"] bbox_col_after [OF bb room(2), of "r0 + i"] that sh(1) room(1) le
    by simp
  ultimately show ?thesis using sh by blast
qed

theorem crop_bbox_background_border_witness:
  "bbox (fill_rect 37 4 35 9 30) = Some (4, 34, 9, 29) \<and> Suc 34 < nrows (fill_rect 37 4 35 9 30) \<and>
   Suc 29 < ncols (fill_rect 37 4 35 9 30) \<and>
   (case crop_bbox (fill_rect 37 4 35 9 30) of Inl e \<Rightarrow> False
      | Inr c \<Rightarrow> nrows c = 32 \<and> ncols c = 22 \<and> px c 31 0 = 0 \<and> px c 0 21 = 0)"
proof -
  have bb: "bbox (fill_rect 37 4 35 9 30) = Some (4, 34, 9, 29)" by code_simp
  have r: "Suc 34 < nrows (fill_rect 37 4 35 9 30)" "Suc 29 < ncols (fill_rect 37 4 35 9 30)"
    by (simp_all add: fill_rect_def)
  obtain c where c: "crop_bbox (fill_rect 37 4 35 9 30) = Inr c"
    using bb by (simp add: crop_bbox_def)
  from crop_bbox_background_border [OF bb c r] have "nrows c = 32" "ncols c = 22"
    "px c 31 0 = 0" "px c 0 21 = 0" by simp_all
  with bb r c show ?thesis by simp
qed

text \<open>C21: an unrotated box of dimensions \<open>(d0, d1)\<close>
  whose buffer has room is rasterised as \<open>d0 + 1\<close> by \<open>d1 + 1\<close> foreground pixels
  (the slice \<^verbatim>\<open>s0:s0+dim[0]+1\<close> fills one row and column more than the
  dimension) followed by one background row and column, and \<^verbatim>\<open>self.dim\<close> is
  \<open>(d0 + 2, d1 + 2)\<close>.\<close>

theorem create_rectanguloid_unrotated:
  assumes "0 \<le> d0" "0 \<le> d1" "box_room (d0, d1)"
  shows "\<exists>g. create_rectanguloid id (d0, d1) = Inr (g, (d0 + 2, d1 + 2)) \<and>
           (\<forall>i < nrows g. \<forall>j < ncols g. px g i j = (if i \<le> nat d0 \<and> j \<le> nat d1 then 1 else 0))"
proof -
  obtain md s0 s1 where bb: "box_buffer (d0, d1) = (md, s0, s1)" by (metis prod_cases3)
  note pos = box_room_pos [OF bb, simplified, OF assms(3,1,2)]
  let ?m = "fill_rect md s0 (s0 + d0 + 1) s1 (s1 + d1 + 1)"
  have nz: "set (nz_pixels ?m) = {nat s0..<nat (s0 + d0 + 1)} \<times> {nat s1..<nat (s1 + d1 + 1)}"
  proof -
    have "py_bound s0 md = nat s0" "py_bound (s0 + d0 + 1) md = nat (s0 + d0 + 1)"
      "py_bound s1 md = nat s1" "py_bound (s1 + d1 + 1) md = nat (s1 + d1 + 1)"
      using pos assms(1,2) by (simp_all add: py_bound_nonneg)
    then show ?thesis by (simp add: fill_rect_nz)
  qed
  have bx: "bbox ?m = Some (nat s0, nat (s0 + d0), nat s1, nat (s1 + d1))"
    using bbox_rect [OF _ _ nz] pos assms(1,2) by (simp add: nat_add_distrib)
  let ?c = "\<lparr>nrows = nat d0 + 2, ncols = nat d1 + 2, px = (\<lambda>i j. px ?m (nat s0 + i) (nat s1 + j))\<rparr>"
  have room: "Suc (Suc (nat s0 + nat d0)) \<le> md" "Suc (Suc (nat s1 + nat d1)) \<le> md"
    using pos assms(1,2) by arith+
  have crop: "crop_bbox ?m = Inr ?c"
    using crop_bbox_eq [OF bx] pos assms(1,2) room by (simp add: fill_rect_def Let_def nat_add_distrib)
  have cr: "create_rectanguloid id (d0, d1) = Inr (as_bool ?c, (d0 + 2, d1 + 2))"
    using assms(1,2) by (simp add: create_rectanguloid_def bb crop)
  have "\<forall>i < nrows (as_bool ?c). \<forall>j < ncols (as_bool ?c).
          px (as_bool ?c) i j = (if i \<le> nat d0 \<and> j \<le> nat d1 then 1 else 0)"
    using pos assms(1,2) by (auto simp: as_bool_def gmap_shape fill_rect_def Let_def py_bound_nonneg)
  with cr show ?thesis by blast
qed

theorem create_rectanguloid_unrotated_witness:
  "0 \<le> (30::int) \<and> 0 \<le> (20::int) \<and> box_room (30, 20) \<and>
   (\<exists>g. create_rectanguloid id (30, 20) = Inr (g, (32, 22)) \<and> px g 30 20 = 1 \<and> px g 31 0 = 0)"
proof -
  have h: "box_room (30, 20)" by code_simp
  from create_rectanguloid_unrotated [OF _ _ h] obtain g where
    "create_rectanguloid id (30, 20) = Inr (g, (32, 22))"
    "\<forall>i < nrows g. \<forall>j < ncols g. px g i j = (if i \<le> 30 \<and> j \<le> 20 then 1 else 0)"
    by auto
  moreover have "nrows g = 32" "ncols g = 22"
    using calculation(1)
    by (auto simp: create_rectanguloid_def as_bool_def gmap_shape split: sum.splits prod.splits)
  ultimately show ?thesis using h by auto
qed

text \<open>The spec's end-to-end example, a 30 by 20 unrotated box: the raster is 32 by 22
  with 651 foreground pixels, where the spec expects 600.\<close>

theorem box_30_20_raster:
  "case create_rectanguloid id (30, 20) of Inl e \<Rightarrow> False
     | Inr (g, dm) \<Rightarrow> dm = (32, 22) \<and> length (nz_pixels g) = 651"
  by code_simp

text \<open>Every pixel of a freshly built box object is background or
  the object's label, so a nonzero value identifies the object.\<close>

theorem init_box_labels:
  assumes "init_box rot l d p lq = Inr ob"
  shows "\<forall>i j. px (data ob) i j = 0 \<or> px (data ob) i j = l"
  using assms by (auto simp: init_box_def create_rectanguloid_def label_raster_def as_bool_def
      gmap_shape split: sum.splits prod.splits if_splits)

theorem init_box_labels_witness:
  "case init_box id 7 (3, 2) (0, 0) None of Inl e \<Rightarrow> False
     | Inr ob \<Rightarrow> px (data ob) 0 0 = 7 \<and> (\<forall>i j. px (data ob) i j = 0 \<or> px (data ob) i j = 7)"
proof -
  have ok: "\<not> isl (init_box id 7 (3, 2) (0, 0) None)" by code_simp
  have v: "(case init_box id 7 (3, 2) (0, 0) None of Inl e \<Rightarrow> 0 | Inr ob \<Rightarrow> px (data ob) 0 0) = 7"
    by code_simp
  from ok obtain ob where ob: "init_box id 7 (3, 2) (0, 0) None = Inr ob"
    by (cases "init_box id 7 (3, 2) (0, 0) None") auto
  with v init_box_labels [OF ob] show ?thesis by simp
qed

text \<open>C34: \<^verbatim>\<open>create_custom_object\<close> takes the middle slice of a boolean mask when it
  is nonempty; otherwise its fallback loop returns the first nonempty slice among slices
  \<open>1 .. n-1\<close> (a single foreground pixel suffices, so the 50-pixel bound never acts, and
  slice 0 is never looked at), and raises \<open>IndexError\<close> when there is none, before its
  \<^verbatim>\<open>r == dims[2]\<close> fallback can run.\<close>

theorem custom_mask_scan:
  assumes "mask_slices vol" "vol \<noteq> []"
  shows "custom_mask vol =
           (if any_nz (vol ! (length vol div 2)) then Inr (vol ! (length vol div 2))
            else case find (\<lambda>k. any_nz (vol ! k)) [1..<length vol] of
                   Some k \<Rightarrow> Inr (vol ! k) | None \<Rightarrow> Inl IndexError)"
proof -
  let ?m = "vol ! (length vol div 2)"
  have lt: "length vol div 2 < length vol" using assms(2) by simp
  then have m: "mask_slices [?m]" using assms(1) by (simp add: mask_slices_def list_all_length)
  from py_max_mask [OF m] obtain mx where mx: "py_max ?m = Inr mx" "mx < 1 \<longleftrightarrow> \<not> any_nz ?m" by blast
  have z: "mask_slices [zeros (nrows ?m) (ncols ?m)]" "\<not> any_nz (zeros (nrows ?m) (ncols ?m))"
    using m by (simp_all add: mask_slices_def zeros_def any_nz_iff)
  show ?thesis
    using lt mx custom_scan_find [OF assms(1) z(1), of 1] z(2)
    by (simp add: custom_mask_def Let_def)
qed

theorem custom_mask_scan_witness:
  "mask_slices [grid_of_list [[1]], grid_of_list [[0]], grid_of_list [[0]]] \<and>
   custom_mask [grid_of_list [[1]], grid_of_list [[0]], grid_of_list [[0]]] = Inl IndexError \<and>
   mask_slices [grid_of_list [[1]], grid_of_list [[0]], grid_of_list [[0]], grid_of_list [[1]]] \<and>
   custom_mask [grid_of_list [[1]], grid_of_list [[0]], grid_of_list [[0]], grid_of_list [[1]]] = Inr (grid_of_list [[1]])"
proof -
  have a: "mask_slices [grid_of_list [[1]], grid_of_list [[0]], grid_of_list [[0]]]"
    and b: "mask_slices [grid_of_list [[1]], grid_of_list [[0]], grid_of_list [[0]], grid_of_list [[1]]]"
    by (simp_all add: mask_slices_def grid_of_list_def)
  have n: "any_nz (grid_of_list [[1]])" "\<not> any_nz (grid_of_list [[0]])"
    by (simp_all add: any_nz_iff grid_of_list_def)
  have "[1..<3] = [1, 2]" "[1..<4] = [1, 2, 3]" by (simp_all add: upt_rec)
  then show ?thesis using custom_mask_scan [OF a] custom_mask_scan [OF b] a b n by simp
qed

text \<open>C35: An unrotated sheet of length \<open>d1 > 0\<close> is rasterised as one row of \<open>d1\<close> foreground
  pixels, with no background border, shape \<open>(1, d1)\<close>, and curve points at its two ends.\<close>

theorem create_sheet_unrotated:
  assumes "0 < d1"
  shows "\<exists>g. create_sheet id (d0, d1) = Inr (g, (1, d1), ((0, 0), (0, d1 - 1))) \<and>
             nrows g = 1 \<and> ncols g = nat d1 \<and> (\<forall>j < nat d1. px g 0 j = 1)"
proof -
  define md where "md = nat (d1 + 10)"
  let ?h = "md div 2"
  let ?img = "window (int ?h) (int ?h + 1) (int 5) (int (md - 6) + 1) (sheet_line md)"
  have md: "10 < md" "int (md - 6) - 5 = d1 - 1" "md - 10 = nat d1" using assms by (simp_all add: md_def)
  have pts: "pos_pixels (sheet_line md) = map (Pair ?h) [5..<md - 5]"
    using md(1) by (simp add: pos_pixels_sheet_line)
  have ne: "[5..<md - 5] \<noteq> []" and lst: "last [5..<md - 5] = md - 6" using md(1) by simp_all
  have sh: "nrows (sheet_line md) = md" "ncols (sheet_line md) = md"
    by (simp_all add: sheet_line_def fill_window_def zeros_def Let_def)
  have "int (md - 6) + 1 = int (md - 5)" using md(1) by simp
  then have img: "nrows ?img = 1" "ncols ?img = nat d1" "\<And>j. px ?img 0 j = px (sheet_line md) ?h (5 + j)"
    using md(1,3) sh by (simp_all add: window_def Let_def py_bound_def)
  have eq: "create_sheet id (d0, d1) = Inr (as_bool ?img, (1, d1), ((0, 0), (0, d1 - 1)))"
    using assms md(2) ne lst img(1,2) unfolding create_sheet_def Let_def md_def [symmetric]
    by (simp add: pts hd_map last_map md_def [symmetric])
  have "\<forall>j < nat d1. px (as_bool ?img) 0 j = 1"
    using md img by (auto simp: as_bool_def gmap_def sheet_line_px)
  with eq img show ?thesis by (auto simp: as_bool_def gmap_shape)
qed

theorem create_sheet_unrotated_witness:
  "\<exists>g. create_sheet id (0, 3) = Inr (g, (1, 3), ((0, 0), (0, 2))) \<and>
       nrows g = 1 \<and> ncols g = 3 \<and> (\<forall>j < 3. px g 0 j = 1)"
  using create_sheet_unrotated [of 3 0] by simp

end
