(* ===== verification/Overlap.thy ===== *)
theory Overlap
  imports Canvas "HOL-Library.Multiset"
begin

text \<open>
  The collision resolver \<^verbatim>\<open>BaggageImage2D.run_shape_grammar_overlap\<close>. Its
  pieces, in the order the loop body uses them: the connected components of the
  overlap mask (\<^verbatim>\<open>skimage.measure.label\<close>, a library call modelled from its
  documentation: 8-connectivity, labels in raster order of each component's first
  pixel), the component with the most pixels (\<^verbatim>\<open>np.argmax\<close>, first index on
  ties), its bounding box, the per-axis shift rule, the ground test, the pose history
  with the oscillation test, and the cap of ten iterations.

  The pose is a numpy array mutated in place (\<^verbatim>\<open>bag_obj.pose[0] -= ...\<close>), and
  \<^verbatim>\<open>pose_list.append(bag_obj.pose)\<close> appends a reference to that same array. The
  loop state therefore holds an explicit store \<open>heap\<close> of arrays by address: the
  object's pose lives at \<open>pose_ref\<close>, and the history \<open>hist\<close> is a list of
  addresses. The transient flag \<^verbatim>\<open>self.LATERAL_OSC_FLAG\<close> is the field
  \<open>lat_osc\<close>, threaded in and out. The loop \<^verbatim>\<open>while ...: ... if ol_ctr==10: break\<close>,
  with \<^verbatim>\<open>ol_ctr\<close> starting at 0, is the fuel argument of \<open>ovl_loop\<close>, started at 10.
\<close>

subsection \<open>Connected components\<close>

text \<open>Two pixels touch when they differ by at most one in each coordinate.\<close>

definition adj8 :: "pix \<Rightarrow> pix \<Rightarrow> bool" where
  "adj8 p q \<longleftrightarrow> fst p \<le> fst q + 1 \<and> fst q \<le> fst p + 1 \<and> snd p \<le> snd q + 1 \<and> snd q \<le> snd p + 1"

text \<open>Flood fill from a frontier: move the pool's pixels that touch the next frontier
  pixel into the component and the frontier.\<close>

function flood :: "pix list \<Rightarrow> pix list \<Rightarrow> pix list \<Rightarrow> pix list \<times> pix list" where
  "flood [] pool acc = (acc, pool)"
| "flood (p # fr) pool acc =
     flood (fr @ filter (adj8 p) pool) (filter (\<lambda>q. \<not> adj8 p q) pool) (acc @ filter (adj8 p) pool)"
  by pat_completeness auto
termination
proof (relation "measures [\<lambda>(fr, pool, acc). length pool, \<lambda>(fr, pool, acc). length fr]")
  fix p fr pool and acc :: "pix list"
  have s: "length (filter (adj8 p) pool) + length (filter (\<lambda>q. \<not> adj8 p q) pool) = length pool"
    by (rule sum_length_filter_compl)
  show "((fr @ filter (adj8 p) pool, filter (\<lambda>q. \<not> adj8 p q) pool, acc @ filter (adj8 p) pool),
         p # fr, pool, acc) \<in> measures [\<lambda>(fr, pool, acc). length pool, \<lambda>(fr, pool, acc). length fr]"
  proof (cases "filter (adj8 p) pool = []")
    case True
    then have "filter (\<lambda>q. \<not> adj8 p q) pool = pool" by (simp add: filter_id_conv filter_empty_conv)
    with True show ?thesis by simp
  next
    case False
    with s have "length (filter (\<lambda>q. \<not> adj8 p q) pool) < length pool"
      by (cases "filter (adj8 p) pool") auto
    then show ?thesis by simp
  qed
qed simp

text \<open>\<^verbatim>\<open>label(mask)\<close> on the raster-ordered foreground pixels: the first remaining
  pixel seeds the next component.\<close>

function label_comps :: "pix list \<Rightarrow> pix list list" where
  "label_comps [] = []"
| "label_comps (p # ps) = (case flood [p] ps [p] of (c, rest) \<Rightarrow> c # label_comps rest)"
  by pat_completeness auto
termination
proof (relation "measure length")
  fix p ps c rest
  assume "(c, rest) = flood [p] ps [p]"
  moreover have "length (snd (flood fr pool acc)) \<le> length pool" for fr pool and acc :: "pix list"
    by (induction fr pool acc rule: flood.induct) (auto simp: flood.simps intro: le_trans [OF _ length_filter_le])
  ultimately have "length rest \<le> length ps" by (metis snd_conv)
  then show "(rest, p # ps) \<in> measure length" by simp
qed simp

subsection \<open>The largest component\<close>

text \<open>\<^verbatim>\<open>np.argmax\<close>: the index of the first maximum.\<close>

fun argmax_acc :: "nat list \<Rightarrow> nat \<Rightarrow> nat \<Rightarrow> nat \<Rightarrow> nat" where
  "argmax_acc [] i bi bv = bi"
| "argmax_acc (x # xs) i bi bv =
     (if bv < x then argmax_acc xs (Suc i) i x else argmax_acc xs (Suc i) bi bv)"

definition argmax :: "nat list \<Rightarrow> nat" where
  "argmax xs = (case xs of [] \<Rightarrow> 0 | x # ys \<Rightarrow> argmax_acc ys 1 0 x)"

text \<open>\<^verbatim>\<open>vrows.min(), vrows.max()\<close> and the same for the columns of a component.\<close>

definition comp_bbox :: "pix list \<Rightarrow> (nat \<times> nat) \<times> (nat \<times> nat)" where
  "comp_bbox c = ((Min (set (map fst c)), Max (set (map fst c))),
                  (Min (set (map snd c)), Max (set (map snd c))))"

text \<open>\<^verbatim>\<open>pix_cnt\<close> counts the pixels of each label and \<^verbatim>\<open>max_ind\<close> picks the first
  largest; the other labels are cleared.\<close>

definition largest_comp :: "grid \<Rightarrow> pix list" where
  "largest_comp oi = (let cs = label_comps (nz_pixels oi) in cs ! argmax (map length cs))"

subsection \<open>The correction loop\<close>

text \<open>The shift of one axis from the chosen component's extent \<open>[lo, hi]\<close> in a mask
  whose last index is \<open>maxd\<close>: none when the component spans the axis, back by
  \<open>hi - lo + 1\<close> when it touches only the far edge, forward by as much when it
  touches only the near edge, none otherwise.\<close>

definition axis_shift :: "nat \<Rightarrow> nat \<Rightarrow> nat \<Rightarrow> int" where
  "axis_shift lo hi maxd =
     (if lo = 0 \<and> hi = maxd then 0
      else if hi = maxd then - (int (hi - lo) + 1)
      else if lo = 0 then int (hi - lo) + 1
      else 0)"

text \<open>The resolver's own floor, \<^verbatim>\<open>self.size // 2 + self.bb_h\<close>.\<close>

definition res_ground :: "bag_cfg \<Rightarrow> int" where
  "res_ground cfg = size cfg div 2 + bb_h cfg"

text \<open>The loop's state: the store of pose arrays, \<^verbatim>\<open>pose_list\<close> as addresses,
  \<^verbatim>\<open>ol_ctr\<close>, the two shift switches and \<^verbatim>\<open>self.LATERAL_OSC_FLAG\<close>.\<close>

record ovl_state =
  heap :: "nat \<Rightarrow> pose"
  hist :: "nat list"
  ol_ctr :: nat
  row_shift :: bool
  col_shift :: bool
  lat_osc :: bool

definition pose_ref :: nat where
  "pose_ref = 0"

definition cur_pose :: "ovl_state \<Rightarrow> pose" where
  "cur_pose st = heap st pose_ref"

definition set_pose :: "ovl_state \<Rightarrow> pose \<Rightarrow> ovl_state" where
  "set_pose st p = st\<lparr>heap := (heap st)(pose_ref := p)\<rparr>"

text \<open>The two guarded shifts, rows first, applied to the array in place.\<close>

definition ovl_shift :: "grid \<Rightarrow> ovl_state \<Rightarrow> ovl_state" where
  "ovl_shift oi st =
     (case comp_bbox (largest_comp oi) of ((r0, r1), (c0, c1)) \<Rightarrow>
        let st1 = (if row_shift st
                   then set_pose st (fst (cur_pose st) + axis_shift r0 r1 (nrows oi - 1), snd (cur_pose st))
                   else st)
        in if col_shift st1
           then set_pose st1 (fst (cur_pose st1), snd (cur_pose st1) + axis_shift c0 c1 (ncols oi - 1))
           else st1)"

text \<open>\<^verbatim>\<open>if ol_ctr>=2\<close>: compare the pose with \<^verbatim>\<open>pose_list[-2]\<close>; on a match move the
  object up by the component's height plus one, freeze both shifts and raise the flag.\<close>

definition osc_check :: "nat \<Rightarrow> ovl_state \<Rightarrow> ovl_state" where
  "osc_check bd0 st =
     (if 2 \<le> ol_ctr st then
        (let prev = heap st (hist st ! (length (hist st) - 2)) in
         if fst (cur_pose st) = fst prev \<and> snd (cur_pose st) = snd prev
         then (set_pose st (fst (cur_pose st) - (int bd0 + 1), snd (cur_pose st)))
                \<lparr>col_shift := False, row_shift := False, lat_osc := True\<rparr>
         else st)
      else st)"

text \<open>\<^verbatim>\<open>bbox_dim[0]\<close>: the height of the chosen component less one.\<close>

definition comp_height :: "grid \<Rightarrow> nat" where
  "comp_height oi = (case comp_bbox (largest_comp oi) of ((r0, r1), _) \<Rightarrow> r1 - r0)"

text \<open>One pass of the loop body once the mask is known: the shifts, the ground test
  (\<open>True\<close> in the second component is its \<^verbatim>\<open>break\<close>), the append to the history,
  the oscillation test and the counter.\<close>

definition ovl_iter :: "bag_cfg \<Rightarrow> obj2d \<Rightarrow> grid \<Rightarrow> ovl_state \<Rightarrow> ovl_state \<times> bool" where
  "ovl_iter cfg ob oi st =
     (let st1 = ovl_shift oi st in
      if res_ground cfg \<le> fst (cur_pose st1) + fst (dim ob) then (st1, True)
      else (let st3 = osc_check (comp_height oi) (st1\<lparr>hist := hist st1 @ [pose_ref]\<rparr>)
            in (st3\<lparr>ol_ctr := Suc (ol_ctr st3)\<rparr>, False)))"

text \<open>The loop: stop when the mask is clear or on the ground break, otherwise recompute
  \<^verbatim>\<open>get_overlap\<close> at the new pose and go on; fuel 0 is \<^verbatim>\<open>ol_ctr==10\<close>.\<close>

fun ovl_loop :: "nat \<Rightarrow> bag_cfg \<Rightarrow> canvas \<Rightarrow> obj2d \<Rightarrow> bool \<times> grid \<Rightarrow> ovl_state \<Rightarrow> ovl_state" where
  "ovl_loop 0 cfg cv ob ovr st = st"
| "ovl_loop (Suc n) cfg cv ob ovr st =
     (if \<not> fst ovr then st
      else (case ovl_iter cfg ob (snd ovr) st of
              (st', True) \<Rightarrow> st'
            | (st', False) \<Rightarrow> ovl_loop n cfg cv ob (get_overlap cv (ob\<lparr>pose := cur_pose st'\<rparr>)) st'))"

text \<open>\<^verbatim>\<open>pose_list = [bag_obj.pose]\<close>, \<^verbatim>\<open>ol_ctr = 0\<close>.\<close>

definition ovl_init :: "obj2d \<Rightarrow> bool \<Rightarrow> bool \<Rightarrow> bool \<Rightarrow> ovl_state" where
  "ovl_init ob rs cs lat =
     \<lparr>heap = (\<lambda>_. (0, 0))(pose_ref := pose ob), hist = [pose_ref], ol_ctr = 0,
      row_shift = rs, col_shift = cs, lat_osc = lat\<rparr>"

text \<open>\<^verbatim>\<open>run_shape_grammar_overlap\<close> with \<^verbatim>\<open>fix_obj=False\<close>: the object at its final
  pose and the flag.\<close>

definition resolve_overlap :: "bag_cfg \<Rightarrow> canvas \<Rightarrow> obj2d \<Rightarrow> bool \<Rightarrow> bool \<Rightarrow> bool \<Rightarrow> obj2d \<times> bool" where
  "resolve_overlap cfg cv ob rs cs lat =
     (let ovr = get_overlap cv ob in
      if fst ovr
      then (let st = ovl_loop 10 cfg cv ob ovr (ovl_init ob rs cs lat) in
            (ob\<lparr>pose := cur_pose st\<rparr>, lat_osc st))
      else (ob, lat))"

text \<open>The whole method; with \<^verbatim>\<open>fix_obj\<close> the object is committed to the canvas.\<close>

definition run_shape_grammar_overlap ::
  "bag_cfg \<Rightarrow> canvas \<Rightarrow> obj2d \<Rightarrow> bool \<Rightarrow> bool \<Rightarrow> bool \<Rightarrow> bool \<Rightarrow> canvas \<times> obj2d \<times> bool" where
  "run_shape_grammar_overlap cfg cv ob fix_obj rs cs lat =
     (case resolve_overlap cfg cv ob rs cs lat of (ob', lat') \<Rightarrow>
        (if fix_obj then place_object_in_bag cv ob' else cv, ob', lat'))"

text \<open>Invariants of the proofs: the flood's closure invariant, connectivity inside a
  pixel set, and the aliasing of the history.\<close>

definition flood_inv :: "pix list \<Rightarrow> pix list \<Rightarrow> pix list \<Rightarrow> bool" where
  "flood_inv fr pool acc \<longleftrightarrow> set fr \<subseteq> set acc \<and>
     (\<forall>x \<in> set acc. x \<in> set fr \<or> (\<forall>q \<in> set pool. \<not> adj8 x q))"

definition linked :: "pix set \<Rightarrow> pix \<Rightarrow> pix \<Rightarrow> bool" where
  "linked S = (\<lambda>x y. x \<in> S \<and> y \<in> S \<and> adj8 x y)\<^sup>*\<^sup>*"

definition hist_aliased :: "ovl_state \<Rightarrow> bool" where
  "hist_aliased st \<longleftrightarrow> hist st \<noteq> [] \<and> set (hist st) \<subseteq> {pose_ref}"

subsection \<open>Components: partition, closure, connectivity\<close>

declare flood.simps [simp del]

lemma flood_Nil [simp]: "flood [] pool acc = (acc, pool)"
  by (simp add: flood.simps)

lemma flood_mset: "mset (fst (flood fr pool acc)) + mset (snd (flood fr pool acc)) = mset acc + mset pool"
proof (induction fr pool acc rule: flood.induct)
  case (1 pool acc)
  then show ?case by simp
next
  case (2 p fr pool acc)
  have "mset (filter (adj8 p) pool) + mset (filter (\<lambda>q. \<not> adj8 p q) pool) = mset pool"
    by simp
  with "2.IH" show ?case by (simp add: flood.simps algebra_simps)
qed

text \<open>Closure: once the frontier is empty, no pixel of the component is adjacent to
  a pixel left in the pool.\<close>

lemma flood_closed:
  "flood_inv fr pool acc \<Longrightarrow> \<forall>x \<in> set (fst (flood fr pool acc)). \<forall>q \<in> set (snd (flood fr pool acc)). \<not> adj8 x q"
proof (induction fr pool acc rule: flood.induct)
  case (1 pool acc)
  then show ?case by (simp add: flood_inv_def)
next
  case (2 p fr pool acc)
  let ?nb = "filter (adj8 p) pool" and ?pool = "filter (\<lambda>q. \<not> adj8 p q) pool"
  have fr: "set (p # fr) \<subseteq> set acc" and old: "\<forall>x \<in> set acc. x \<in> set (p # fr) \<or> (\<forall>q \<in> set pool. \<not> adj8 x q)"
    using "2.prems" by (simp_all add: flood_inv_def)
  have "\<forall>x \<in> set (acc @ ?nb). x \<in> set (fr @ ?nb) \<or> (\<forall>q \<in> set ?pool. \<not> adj8 x q)"
  proof
    fix x assume x: "x \<in> set (acc @ ?nb)"
    show "x \<in> set (fr @ ?nb) \<or> (\<forall>q \<in> set ?pool. \<not> adj8 x q)"
    proof (cases "x \<in> set acc")
      case True
      with old have "x = p \<or> x \<in> set fr \<or> (\<forall>q \<in> set pool. \<not> adj8 x q)" by simp
      then show ?thesis by auto
    next
      case False
      with x show ?thesis by simp
    qed
  qed
  moreover have "set (fr @ ?nb) \<subseteq> set (acc @ ?nb)" using fr by auto
  ultimately have "flood_inv (fr @ ?nb) ?pool (acc @ ?nb)" by (simp add: flood_inv_def)
  then have "\<forall>x \<in> set (fst (flood (fr @ ?nb) ?pool (acc @ ?nb))).
               \<forall>q \<in> set (snd (flood (fr @ ?nb) ?pool (acc @ ?nb))). \<not> adj8 x q"
    by (rule "2.IH")
  then show ?case by (simp only: flood.simps(2))
qed

lemma linked_mono: "linked S x y \<Longrightarrow> S \<subseteq> T \<Longrightarrow> linked T x y"
  unfolding linked_def by (induction rule: rtranclp_induct) (auto intro: rtranclp.rtrancl_into_rtrancl)

lemma flood_linked:
  "set fr \<subseteq> set acc \<Longrightarrow> s \<in> set acc \<Longrightarrow> \<forall>x \<in> set acc. linked (set acc) s x \<Longrightarrow>
   \<forall>x \<in> set (fst (flood fr pool acc)). linked (set (fst (flood fr pool acc))) s x"
proof (induction fr pool acc rule: flood.induct)
  case (1 pool acc)
  then show ?case by simp
next
  case (2 p fr pool acc)
  let ?acc = "acc @ filter (adj8 p) pool"
  have p: "p \<in> set acc" "linked (set acc) s p" using "2.prems" by auto
  have "\<forall>x \<in> set ?acc. linked (set ?acc) s x"
  proof
    fix x assume x: "x \<in> set ?acc"
    show "linked (set ?acc) s x"
    proof (cases "x \<in> set acc")
      case True
      with "2.prems"(3) show ?thesis by (auto intro: linked_mono)
    next
      case False
      with x have "adj8 p x" "x \<in> set ?acc" by auto
      moreover have "linked (set ?acc) s p" using p(2) by (auto intro: linked_mono)
      ultimately show ?thesis using p(1) unfolding linked_def
        by (auto intro: rtranclp.rtrancl_into_rtrancl)
    qed
  qed
  moreover have "set (fr @ filter (adj8 p) pool) \<subseteq> set ?acc" using "2.prems"(1) by auto
  moreover have "s \<in> set ?acc" using "2.prems"(2) by simp
  ultimately show ?case using "2.IH" by (simp add: flood.simps)
qed

lemma label_comps_mset: "mset (concat (label_comps ps)) = mset ps"
proof (induction ps rule: label_comps.induct)
  case 1
  then show ?case by simp
next
  case (2 p ps)
  obtain c rest where f: "flood [p] ps [p] = (c, rest)" by (cases "flood [p] ps [p]")
  from flood_mset [of "[p]" ps "[p]"] f have "mset c + mset rest = add_mset p (mset ps)" by simp
  with "2.IH" f show ?case by simp
qed

lemma label_comps_set: "set (concat (label_comps ps)) = set ps"
  by (metis label_comps_mset set_mset_mset)

lemma adj8_sym: "adj8 p q \<longleftrightarrow> adj8 q p"
  by (auto simp: adj8_def)

lemma flood_prefix: "\<exists>ys. fst (flood fr pool acc) = acc @ ys"
proof (induction fr pool acc rule: flood.induct)
  case (1 pool acc)
  then show ?case by simp
next
  case (2 p fr pool acc)
  then obtain ys where "fst (flood (fr @ filter (adj8 p) pool) (filter (\<lambda>q. \<not> adj8 p q) pool)
      (acc @ filter (adj8 p) pool)) = acc @ filter (adj8 p) pool @ ys" by auto
  then show ?case by (auto simp: flood.simps)
qed

lemma label_comps_Cons:
  "flood [p] ps [p] = (c, rest) \<Longrightarrow> label_comps (p # ps) = c # label_comps rest"
  by simp

declare label_comps.simps(2) [simp del]

text \<open>Distinct components never touch.\<close>

lemma label_comps_sep:
  "i < j \<Longrightarrow> j < length (label_comps ps) \<Longrightarrow> x \<in> set (label_comps ps ! i) \<Longrightarrow>
   y \<in> set (label_comps ps ! j) \<Longrightarrow> \<not> adj8 x y"
proof (induction ps arbitrary: i j rule: label_comps.induct)
  case 1
  then show ?case by simp
next
  case (2 p ps)
  obtain c rest where f: "flood [p] ps [p] = (c, rest)" by (cases "flood [p] ps [p]")
  note lc = label_comps_Cons [OF f]
  show ?case
  proof (cases i)
    case 0
    with "2.prems" lc have x: "x \<in> set c" and y: "y \<in> set (concat (label_comps rest))"
      by (auto simp: nth_Cons' split: if_splits)
    have "flood_inv [p] ps [p]" by (simp add: flood_inv_def)
    from flood_closed [OF this] have "\<forall>x \<in> set c. \<forall>q \<in> set rest. \<not> adj8 x q"
      by (simp only: f fst_conv snd_conv)
    moreover have "y \<in> set rest" using y by (simp only: label_comps_set)
    ultimately show ?thesis using x by blast
  next
    case (Suc i')
    with "2.prems" lc obtain j' where "j = Suc j'" "i' < j'" "j' < length (label_comps rest)"
      "x \<in> set (label_comps rest ! i')" "y \<in> set (label_comps rest ! j')"
      by (cases j) auto
    with "2.IH" [OF f [symmetric]] show ?thesis by blast
  qed
qed

text \<open>Each component is connected and starts with its seed pixel.\<close>

lemma label_comps_linked:
  "c \<in> set (label_comps ps) \<Longrightarrow> c \<noteq> [] \<and> (\<forall>x \<in> set c. linked (set c) (hd c) x)"
proof (induction ps rule: label_comps.induct)
  case 1
  then show ?case by simp
next
  case (2 p ps)
  obtain c' rest where f: "flood [p] ps [p] = (c', rest)" by (cases "flood [p] ps [p]")
  note lc = label_comps_Cons [OF f]
  show ?case
  proof (cases "c = c'")
    case True
    obtain ys where c': "c' = p # ys" using flood_prefix [of "[p]" ps "[p]"] f by auto
    have "\<forall>x \<in> set (fst (flood [p] ps [p])). linked (set (fst (flood [p] ps [p]))) p x"
      by (rule flood_linked) (simp_all add: linked_def)
    then have "\<forall>x \<in> set c'. linked (set c') p x" by (simp only: f fst_conv)
    with c' True show ?thesis by simp
  next
    case False
    from "2.prems" have "c \<in> set (c' # label_comps rest)" by (simp only: lc)
    with False have "c \<in> set (label_comps rest)" by simp
    with "2.IH" [OF f [symmetric]] show ?thesis .
  qed
qed

subsection \<open>First maximum\<close>

lemma argmax_acc_spec:
  assumes "bi < i" "xs0 ! bi = bv" "length xs0 = i" "\<forall>k < i. xs0 ! k \<le> bv" "\<forall>k < bi. xs0 ! k < bv"
  shows "let r = argmax_acc xs i bi bv; ys = xs0 @ xs in
         r < length ys \<and> (\<forall>k < length ys. ys ! k \<le> ys ! r) \<and> (\<forall>k < r. ys ! k < ys ! r)"
  using assms
proof (induction xs arbitrary: xs0 i bi bv)
  case Nil
  then show ?case by simp
next
  case (Cons x xs)
  show ?case
  proof (cases "bv < x")
    case True
    have "let r = argmax_acc xs (Suc i) i x; ys = (xs0 @ [x]) @ xs in
          r < length ys \<and> (\<forall>k < length ys. ys ! k \<le> ys ! r) \<and> (\<forall>k < r. ys ! k < ys ! r)"
      using Cons.prems True
      by (intro Cons.IH) (auto simp: nth_append less_Suc_eq)
    with True show ?thesis by simp
  next
    case False
    have "let r = argmax_acc xs (Suc i) bi bv; ys = (xs0 @ [x]) @ xs in
          r < length ys \<and> (\<forall>k < length ys. ys ! k \<le> ys ! r) \<and> (\<forall>k < r. ys ! k < ys ! r)"
      using Cons.prems False
      by (intro Cons.IH) (auto simp: nth_append less_Suc_eq)
    with False show ?thesis by simp
  qed
qed

subsection \<open>The loop\<close>

lemma set_pose_simps [simp]:
  "cur_pose (set_pose st p) = p" "hist (set_pose st p) = hist st" "ol_ctr (set_pose st p) = ol_ctr st"
  "row_shift (set_pose st p) = row_shift st" "col_shift (set_pose st p) = col_shift st"
  "lat_osc (set_pose st p) = lat_osc st"
  by (simp_all add: set_pose_def cur_pose_def)

lemma ovl_shift_frame [simp]:
  "hist (ovl_shift oi st) = hist st" "ol_ctr (ovl_shift oi st) = ol_ctr st"
  "row_shift (ovl_shift oi st) = row_shift st" "col_shift (ovl_shift oi st) = col_shift st"
  "lat_osc (ovl_shift oi st) = lat_osc st"
  by (simp_all add: ovl_shift_def Let_def split: prod.splits)

lemma heap_pose_ref: "heap st pose_ref = cur_pose st"
  by (simp add: cur_pose_def)

text \<open>With the history aliased, the comparison with \<^verbatim>\<open>pose_list[-2]\<close> reads the live pose.\<close>

lemma osc_check_aliased:
  assumes "set (hist st) \<subseteq> {pose_ref}" "2 \<le> length (hist st)" "2 \<le> ol_ctr st"
  shows "osc_check bd0 st = (set_pose st (fst (cur_pose st) - (int bd0 + 1), snd (cur_pose st)))
                              \<lparr>col_shift := False, row_shift := False, lat_osc := True\<rparr>"
proof -
  from assms(2) have "hist st ! (length (hist st) - 2) \<in> set (hist st)" by (intro nth_mem) simp
  with assms(1) have "hist st ! (length (hist st) - 2) = pose_ref" by blast
  with assms(3) show ?thesis by (simp add: osc_check_def Let_def heap_pose_ref)
qed

lemma osc_check_frame:
  "hist (osc_check b st) = hist st" "ol_ctr (osc_check b st) = ol_ctr st"
  "lat_osc st \<Longrightarrow> lat_osc (osc_check b st)"
  by (simp_all add: osc_check_def Let_def)

lemma ovl_iter_aliased:
  "hist_aliased st \<Longrightarrow> hist_aliased (fst (ovl_iter cfg ob oi st))"
  by (auto simp: ovl_iter_def hist_aliased_def Let_def osc_check_frame)

lemma ovl_iter_ctr:
  "ovl_iter cfg ob oi st = (st', g) \<Longrightarrow> ol_ctr st' = (if g then ol_ctr st else Suc (ol_ctr st))"
  by (auto simp: ovl_iter_def Let_def osc_check_frame split: if_splits)

lemma ovl_iter_lat:
  "ovl_iter cfg ob oi st = (st', g) \<Longrightarrow> lat_osc st \<Longrightarrow> lat_osc st'"
  by (auto simp: ovl_iter_def Let_def osc_check_frame split: if_splits)

lemma ovl_loop_aliased:
  "hist_aliased st \<Longrightarrow> hist_aliased (ovl_loop n cfg cv ob ovr st)"
proof (induction n cfg cv ob ovr st rule: ovl_loop.induct)
  case (1 cfg cv ob ovr st)
  then show ?case by simp
next
  case (2 n cfg cv ob ovr st)
  obtain st' g where it: "ovl_iter cfg ob (snd ovr) st = (st', g)" by (cases "ovl_iter cfg ob (snd ovr) st")
  have a: "hist_aliased st'" using ovl_iter_aliased [OF "2.prems", of cfg ob "snd ovr"] it by simp
  show ?case
  proof (cases "fst ovr \<and> \<not> g")
    case True
    with "2.IH" [OF _ it [symmetric]] a it show ?thesis by simp
  next
    case False
    with it a "2.prems" show ?thesis by auto
  qed
qed

lemma ovl_loop_ctr: "ol_ctr (ovl_loop n cfg cv ob ovr st) \<le> ol_ctr st + n"
proof (induction n cfg cv ob ovr st rule: ovl_loop.induct)
  case (1 cfg cv ob ovr st)
  then show ?case by simp
next
  case (2 n cfg cv ob ovr st)
  obtain st' g where it: "ovl_iter cfg ob (snd ovr) st = (st', g)" by (cases "ovl_iter cfg ob (snd ovr) st")
  from ovl_iter_ctr [OF it] have c: "ol_ctr st' \<le> Suc (ol_ctr st)" by simp
  show ?case
  proof (cases "fst ovr \<and> \<not> g")
    case True
    with "2.IH" [OF _ it [symmetric]] c it show ?thesis by simp
  next
    case False
    with it c show ?thesis by auto
  qed
qed


lemma ovl_iter_escape:
  assumes "hist_aliased st" "2 \<le> ol_ctr st" "ovl_iter cfg ob oi st = (st', False)"
  shows "lat_osc st' \<and> \<not> row_shift st' \<and> \<not> col_shift st' \<and>
         cur_pose st' = (fst (cur_pose (ovl_shift oi st)) - (int (comp_height oi) + 1),
                         snd (cur_pose (ovl_shift oi st)))"
proof -
  let ?st2 = "(ovl_shift oi st)\<lparr>hist := hist (ovl_shift oi st) @ [pose_ref]\<rparr>"
  from assms(3) have ng: "\<not> res_ground cfg \<le> fst (cur_pose (ovl_shift oi st)) + fst (dim ob)"
    and st': "st' = (osc_check (comp_height oi) ?st2)\<lparr>ol_ctr := Suc (ol_ctr (osc_check (comp_height oi) ?st2))\<rparr>"
    by (auto simp: ovl_iter_def Let_def split: if_splits)
  have "set (hist ?st2) \<subseteq> {pose_ref}" "2 \<le> length (hist ?st2)" "2 \<le> ol_ctr ?st2"
    using assms(1,2) by (auto simp: hist_aliased_def Suc_le_eq)
  from osc_check_aliased [OF this] st' show ?thesis by (simp add: cur_pose_def set_pose_def)
qed

lemma ovl_loop_lat:
  "hist_aliased st \<Longrightarrow> lat_osc st \<or> ol_ctr st \<le> 2 \<Longrightarrow> 3 \<le> ol_ctr (ovl_loop n cfg cv ob ovr st) \<Longrightarrow>
   lat_osc (ovl_loop n cfg cv ob ovr st)"
proof (induction n cfg cv ob ovr st rule: ovl_loop.induct)
  case (1 cfg cv ob ovr st)
  then show ?case by simp
next
  case (2 n cfg cv ob ovr st)
  obtain st' g where it: "ovl_iter cfg ob (snd ovr) st = (st', g)" by (cases "ovl_iter cfg ob (snd ovr) st")
  have a: "hist_aliased st'" using ovl_iter_aliased [OF "2.prems"(1), of cfg ob "snd ovr"] it by simp
  have c: "ol_ctr st' = (if g then ol_ctr st else Suc (ol_ctr st))" by (rule ovl_iter_ctr [OF it])
  have l: "lat_osc st \<Longrightarrow> lat_osc st'" by (rule ovl_iter_lat [OF it])
  show ?case
  proof (cases "fst ovr")
    case False
    with "2.prems" show ?thesis by simp
  next
    case ov: True
    show ?thesis
    proof (cases g)
      case True
      with ov it "2.prems" c l show ?thesis by auto
    next
      case False
      have "lat_osc st' \<or> ol_ctr st' \<le> 2"
      proof (cases "2 \<le> ol_ctr st")
        case True
        with ovl_iter_escape [OF "2.prems"(1) True] it False show ?thesis by simp
      next
        case le: False
        with c False show ?thesis by simp
      qed
      moreover have "3 \<le> ol_ctr (ovl_loop n cfg cv ob (get_overlap cv (ob\<lparr>pose := cur_pose st'\<rparr>)) st')"
        using "2.prems"(3) ov it False by simp
      ultimately show ?thesis using "2.IH" [of st' g] ov it False a by simp
    qed
  qed
qed

lemma argmax_spec:
  assumes "xs \<noteq> []"
  shows "argmax xs < length xs \<and> (\<forall>k < length xs. xs ! k \<le> xs ! argmax xs) \<and>
         (\<forall>k < argmax xs. xs ! k < xs ! argmax xs)"
proof -
  obtain x ys where xs: "xs = x # ys" using assms by (cases xs) auto
  have "let r = argmax_acc ys 1 0 x; zs = [x] @ ys in
        r < length zs \<and> (\<forall>k < length zs. zs ! k \<le> zs ! r) \<and> (\<forall>k < r. zs ! k < zs ! r)"
    by (rule argmax_acc_spec) auto
  then show ?thesis by (simp add: xs argmax_def Let_def)
qed

lemma label_comps_nonempty: "ps \<noteq> [] \<Longrightarrow> label_comps ps \<noteq> []"
  using label_comps_set [of ps] by auto

lemma ovl_init_aliased: "hist_aliased (ovl_init ob rs cs lat)"
  by (simp add: ovl_init_def hist_aliased_def)

lemma ovl_init_ctr: "ol_ctr (ovl_init ob rs cs lat) = 0"
  by (simp add: ovl_init_def)

lemma ovl_shift_off: "\<not> row_shift st \<Longrightarrow> \<not> col_shift st \<Longrightarrow> ovl_shift oi st = st"
  by (simp add: ovl_shift_def Let_def split: prod.splits)

lemma ovl_iter_step:
  assumes "ovl_iter cfg ob oi st = (st', False)"
  shows "\<not> res_ground cfg \<le> fst (cur_pose (ovl_shift oi st)) + fst (dim ob) \<and>
         st' = (osc_check (comp_height oi) ((ovl_shift oi st)\<lparr>hist := hist st @ [pose_ref]\<rparr>))
                 \<lparr>ol_ctr := Suc (ol_ctr st)\<rparr>"
  using assms by (auto simp: ovl_iter_def Let_def osc_check_frame split: if_splits)

lemma ovl_shift_pose:
  "comp_bbox (largest_comp oi) = ((r0, r1), (c0, c1)) \<Longrightarrow>
   cur_pose (ovl_shift oi st) =
     (fst (cur_pose st) + (if row_shift st then axis_shift r0 r1 (nrows oi - 1) else 0),
      snd (cur_pose st) + (if col_shift st then axis_shift c0 c1 (ncols oi - 1) else 0))"
  by (simp add: ovl_shift_def Let_def)

subsection \<open>Properties of the resolver\<close>

text \<open>C3: When the overlap mask is not empty, the component the resolver corrects
  against is one of the 8-connected components of the mask, is nonempty, connected, made
  of overlap pixels, has the most pixels of all components, and every component labelled
  before it is strictly smaller (numpy's first maximum).\<close>

theorem largest_comp_max:
  assumes "any_nz oi"
  shows "largest_comp oi \<in> set (label_comps (nz_pixels oi)) \<and> largest_comp oi \<noteq> [] \<and>
         set (largest_comp oi) \<subseteq> set (nz_pixels oi) \<and>
         (\<forall>x \<in> set (largest_comp oi). linked (set (largest_comp oi)) (hd (largest_comp oi)) x) \<and>
         (\<forall>c \<in> set (label_comps (nz_pixels oi)). length c \<le> length (largest_comp oi)) \<and>
         (\<forall>k < argmax (map length (label_comps (nz_pixels oi))).
            length (label_comps (nz_pixels oi) ! k) < length (largest_comp oi))"
proof -
  let ?cs = "label_comps (nz_pixels oi)"
  have ne: "?cs \<noteq> []" using assms by (simp add: any_nz_def label_comps_nonempty)
  then have "map length ?cs \<noteq> []" by simp
  note am = argmax_spec [OF this]
  let ?r = "argmax (map length ?cs)"
  have r: "?r < length ?cs" using am by simp
  have lc: "largest_comp oi = ?cs ! ?r" by (simp add: largest_comp_def Let_def)
  have mem: "largest_comp oi \<in> set ?cs" using r lc by simp
  have lk: "largest_comp oi \<noteq> [] \<and> (\<forall>x \<in> set (largest_comp oi). linked (set (largest_comp oi)) (hd (largest_comp oi)) x)"
    using label_comps_linked [OF mem] .
  have sub: "set (largest_comp oi) \<subseteq> set (nz_pixels oi)"
    using mem label_comps_set [of "nz_pixels oi"] by auto
  have mx: "\<forall>c \<in> set ?cs. length c \<le> length (largest_comp oi)"
    using am r by (auto simp: lc in_set_conv_nth)
  have fst_max: "\<forall>k < ?r. length (?cs ! k) < length (largest_comp oi)"
    using am r by (simp add: lc)
  show ?thesis using mem lk sub mx fst_max by blast
qed

theorem largest_comp_max_witness:
  "any_nz (grid_of_list [[1, 1, 0, 1], [0, 0, 0, 1], [0, 0, 0, 1]]) \<and>
   largest_comp (grid_of_list [[1, 1, 0, 1], [0, 0, 0, 1], [0, 0, 0, 1]]) = [(0, 3), (1, 3), (2, 3)] \<and>
   length [(0::nat, 0::nat), (0, 1)] \<le>
     length (largest_comp (grid_of_list [[1, 1, 0, 1], [0, 0, 0, 1], [0, 0, 0, 1]]))"
proof -
  let ?g = "grid_of_list [[1, 1, 0, 1], [0, 0, 0, 1], [0, 0, 0, 1]]"
  have n: "any_nz ?g" by code_simp
  have l: "largest_comp ?g = [(0, 3), (1, 3), (2, 3)]" by code_simp
  have m: "[(0, 0), (0, 1)] \<in> set (label_comps (nz_pixels ?g))" by code_simp
  from largest_comp_max [OF n] m have "length [(0::nat, 0::nat), (0, 1)] \<le> length (largest_comp ?g)"
    by blast
  with n l show ?thesis by blast
qed

text \<open>When the collision test finds no overlap, the resolver leaves the object
  and the oscillation flag unchanged, and with fix_obj the canvas is exactly the plain
  commit of the object.\<close>

theorem run_shape_grammar_overlap_clear:
  assumes "\<not> fst (get_overlap cv ob)"
  shows "run_shape_grammar_overlap cfg cv ob fix_obj rs cs lat =
           (if fix_obj then place_object_in_bag cv ob else cv, ob, lat)"
  using assms by (simp add: run_shape_grammar_overlap_def resolve_overlap_def)

theorem run_shape_grammar_overlap_clear_witness:
  "\<not> fst (get_overlap \<lparr>bag = grid_of_list [[3, 3, 3], [0, 0, 0], [0, 5, 0]],
              boundary = grid_of_list [[1, 1, 1], [0, 0, 0], [0, 0, 0]]\<rparr>
        \<lparr>shape = Box, label = 4, data = grid_of_list [[4, 4], [4, 0]], dim = (2, 2), pose = (0, 0),
         curve_pts = ((0, 0), (0, 0)), thick = 0, lqd = None\<rparr>) \<and>
   snd (run_shape_grammar_overlap \<lparr>size = 30, bb_h = 10, extents = None\<rparr>
        \<lparr>bag = grid_of_list [[3, 3, 3], [0, 0, 0], [0, 5, 0]],
         boundary = grid_of_list [[1, 1, 1], [0, 0, 0], [0, 0, 0]]\<rparr>
        \<lparr>shape = Box, label = 4, data = grid_of_list [[4, 4], [4, 0]], dim = (2, 2), pose = (0, 0),
         curve_pts = ((0, 0), (0, 0)), thick = 0, lqd = None\<rparr> True True True False) =
     (\<lparr>shape = Box, label = 4, data = grid_of_list [[4, 4], [4, 0]], dim = (2, 2), pose = (0, 0),
       curve_pts = ((0, 0), (0, 0)), thick = 0, lqd = None\<rparr>, False)"
  (is "?h \<and> ?c")
proof -
  have h: ?h by code_simp
  show ?thesis using run_shape_grammar_overlap_clear [OF h] h by simp
qed

text \<open>Every entry of the pose history is the object's own pose array:
  pose_list.append(bag_obj.pose) stores a reference, so at every point of the correction
  loop the history holds only aliases of the live pose.\<close>

theorem resolve_overlap_history_aliased:
  "hist_aliased (ovl_loop n cfg cv ob ovr (ovl_init ob rs cs lat))"
  by (rule ovl_loop_aliased [OF ovl_init_aliased])

text \<open>C2: \<^verbatim>\<open>pose_list\<close> holds references to the object's own pose array, so
  the comparison with \<^verbatim>\<open>pose_list[-2]\<close> always matches: whenever the correction
  loop runs a third iteration, the lateral-oscillation flag is raised, whatever the
  poses visited.\<close>

theorem resolve_overlap_flags_from_third:
  assumes "3 \<le> ol_ctr (ovl_loop 10 cfg cv ob ovr (ovl_init ob rs cs lat))"
  shows "lat_osc (ovl_loop 10 cfg cv ob ovr (ovl_init ob rs cs lat))"
  using ovl_loop_lat [OF ovl_init_aliased _ assms] by (simp add: ovl_init_ctr)

theorem resolve_overlap_flags_from_third_witness:
  "3 \<le> ol_ctr (ovl_loop 10 \<lparr>size = 30, bb_h = 10, extents = None\<rparr>
    \<lparr>bag = \<lparr>nrows = 12, ncols = 12, px = (\<lambda>i j. if j = 5 \<and> 4 \<le> i \<and> i \<le> 8 then 9 else 0)\<rparr>, boundary = zeros 12 12\<rparr>
    \<lparr>shape = Box, label = 4, data = grid_of_list [[4], [4]], dim = (2, 1), pose = (7, 5),
     curve_pts = ((0, 0), (0, 0)), thick = 0, lqd = None\<rparr>
    (get_overlap \<lparr>bag = \<lparr>nrows = 12, ncols = 12, px = (\<lambda>i j. if j = 5 \<and> 4 \<le> i \<and> i \<le> 8 then 9 else 0)\<rparr>, boundary = zeros 12 12\<rparr>
    \<lparr>shape = Box, label = 4, data = grid_of_list [[4], [4]], dim = (2, 1), pose = (7, 5),
     curve_pts = ((0, 0), (0, 0)), thick = 0, lqd = None\<rparr>)
    (ovl_init \<lparr>shape = Box, label = 4, data = grid_of_list [[4], [4]], dim = (2, 1), pose = (7, 5),
     curve_pts = ((0, 0), (0, 0)), thick = 0, lqd = None\<rparr> True True False)) \<and>
   lat_osc (ovl_loop 10 \<lparr>size = 30, bb_h = 10, extents = None\<rparr>
    \<lparr>bag = \<lparr>nrows = 12, ncols = 12, px = (\<lambda>i j. if j = 5 \<and> 4 \<le> i \<and> i \<le> 8 then 9 else 0)\<rparr>, boundary = zeros 12 12\<rparr>
    \<lparr>shape = Box, label = 4, data = grid_of_list [[4], [4]], dim = (2, 1), pose = (7, 5),
     curve_pts = ((0, 0), (0, 0)), thick = 0, lqd = None\<rparr>
    (get_overlap \<lparr>bag = \<lparr>nrows = 12, ncols = 12, px = (\<lambda>i j. if j = 5 \<and> 4 \<le> i \<and> i \<le> 8 then 9 else 0)\<rparr>, boundary = zeros 12 12\<rparr>
    \<lparr>shape = Box, label = 4, data = grid_of_list [[4], [4]], dim = (2, 1), pose = (7, 5),
     curve_pts = ((0, 0), (0, 0)), thick = 0, lqd = None\<rparr>)
    (ovl_init \<lparr>shape = Box, label = 4, data = grid_of_list [[4], [4]], dim = (2, 1), pose = (7, 5),
     curve_pts = ((0, 0), (0, 0)), thick = 0, lqd = None\<rparr> True True False))"
  (is "?h \<and> ?c")
proof -
  have h: ?h by code_simp
  show ?thesis using resolve_overlap_flags_from_third [OF h] h by simp
qed

text \<open>C4: Once the oscillation branch has frozen both shifts, every further
  iteration that does not reach the ground moves the object up by the component's height
  plus one row, keeps the column, keeps the flag raised and counts the
  iteration.\<close>

theorem ovl_iter_escape_repeats:
  assumes "hist_aliased st" "2 \<le> ol_ctr st" "\<not> row_shift st" "\<not> col_shift st"
    and "ovl_iter cfg ob oi st = (st', False)"
  shows "cur_pose st' = (fst (cur_pose st) - (int (comp_height oi) + 1), snd (cur_pose st)) \<and>
         lat_osc st' \<and> \<not> row_shift st' \<and> \<not> col_shift st' \<and> hist_aliased st' \<and>
         ol_ctr st' = Suc (ol_ctr st)"
proof -
  have e: "lat_osc st' \<and> \<not> row_shift st' \<and> \<not> col_shift st' \<and>
         cur_pose st' = (fst (cur_pose (ovl_shift oi st)) - (int (comp_height oi) + 1),
                         snd (cur_pose (ovl_shift oi st)))"
    by (rule ovl_iter_escape [OF assms(1,2,5)])
  have "hist_aliased st'" using ovl_iter_aliased [OF assms(1), of cfg ob oi] assms(5) by simp
  moreover have "ol_ctr st' = Suc (ol_ctr st)" using ovl_iter_ctr [OF assms(5)] by simp
  ultimately show ?thesis using e ovl_shift_off [OF assms(3,4)] by simp
qed

theorem ovl_iter_escape_repeats_witness:
  "hist_aliased \<lparr>heap = (\<lambda>_. (0, 0))(pose_ref := (5, 5)), hist = [pose_ref, pose_ref, pose_ref],
      ol_ctr = 2, row_shift = False, col_shift = False, lat_osc = True\<rparr> \<and>
   cur_pose (fst (ovl_iter \<lparr>size = 30, bb_h = 10, extents = None\<rparr>
     \<lparr>shape = Box, label = 4, data = grid_of_list [[4], [4]], dim = (2, 1), pose = (5, 5),
      curve_pts = ((0, 0), (0, 0)), thick = 0, lqd = None\<rparr> (grid_of_list [[4], [4]])
     \<lparr>heap = (\<lambda>_. (0, 0))(pose_ref := (5, 5)), hist = [pose_ref, pose_ref, pose_ref],
      ol_ctr = 2, row_shift = False, col_shift = False, lat_osc = True\<rparr>)) = (3, 5)"
proof -
  let ?cfg = "\<lparr>size = 30, bb_h = 10, extents = None\<rparr>"
  let ?ob = "\<lparr>shape = Box, label = 4, data = grid_of_list [[4], [4]], dim = (2, 1), pose = (5, 5),
      curve_pts = ((0, 0), (0, 0)), thick = 0, lqd = None\<rparr>"
  let ?oi = "grid_of_list [[4], [4]]"
  let ?st = "\<lparr>heap = (\<lambda>_. (0, 0))(pose_ref := (5, 5)), hist = [pose_ref, pose_ref, pose_ref],
      ol_ctr = 2, row_shift = False, col_shift = False, lat_osc = True\<rparr>"
  have a: "hist_aliased ?st" by (simp add: hist_aliased_def)
  have g: "snd (ovl_iter ?cfg ?ob ?oi ?st) = False" by code_simp
  have it: "ovl_iter ?cfg ?ob ?oi ?st = (fst (ovl_iter ?cfg ?ob ?oi ?st), False)"
    using g by (metis prod.collapse)
  have h: "comp_height ?oi = 1" by code_simp
  from ovl_iter_escape_repeats [OF a _ _ _ it] h a show ?thesis
    by (simp add: cur_pose_def)
qed

text \<open>In the first two iterations the oscillation test is not taken: a
  non-grounded pass moves the pose by the shift rule on each enabled axis (rows first,
  from the bounding box of the largest component), appends the pose to the history,
  counts the iteration and leaves the switches and the flag alone.\<close>

theorem ovl_iter_first_passes:
  assumes "ol_ctr st < 2" "comp_bbox (largest_comp oi) = ((r0, r1), (c0, c1))"
    and "ovl_iter cfg ob oi st = (st', False)"
  shows "cur_pose st' =
           (fst (cur_pose st) + (if row_shift st then axis_shift r0 r1 (nrows oi - 1) else 0),
            snd (cur_pose st) + (if col_shift st then axis_shift c0 c1 (ncols oi - 1) else 0)) \<and>
         hist st' = hist st @ [pose_ref] \<and> ol_ctr st' = Suc (ol_ctr st) \<and>
         row_shift st' = row_shift st \<and> col_shift st' = col_shift st \<and> lat_osc st' = lat_osc st"
proof -
  note s = ovl_iter_step [OF assms(3)]
  have "osc_check (comp_height oi) ((ovl_shift oi st)\<lparr>hist := hist st @ [pose_ref]\<rparr>) =
        (ovl_shift oi st)\<lparr>hist := hist st @ [pose_ref]\<rparr>"
    using assms(1) by (simp add: osc_check_def)
  with s ovl_shift_pose [OF assms(2)] show ?thesis by (simp add: cur_pose_def)
qed

theorem ovl_iter_first_passes_witness:
  "ol_ctr (ovl_init \<lparr>shape = Box, label = 4, data = grid_of_list [[4], [4]], dim = (2, 1),
      pose = (7, 5), curve_pts = ((0, 0), (0, 0)), thick = 0, lqd = None\<rparr> True True False) < 2 \<and>
   comp_bbox (largest_comp (grid_of_list [[0], [4]])) = ((1, 1), (0, 0)) \<and>
   cur_pose (fst (ovl_iter \<lparr>size = 30, bb_h = 10, extents = None\<rparr>
     \<lparr>shape = Box, label = 4, data = grid_of_list [[4], [4]], dim = (2, 1), pose = (7, 5),
      curve_pts = ((0, 0), (0, 0)), thick = 0, lqd = None\<rparr> (grid_of_list [[0], [4]])
     (ovl_init \<lparr>shape = Box, label = 4, data = grid_of_list [[4], [4]], dim = (2, 1),
      pose = (7, 5), curve_pts = ((0, 0), (0, 0)), thick = 0, lqd = None\<rparr> True True False))) = (6, 5)"
proof -
  let ?cfg = "\<lparr>size = 30, bb_h = 10, extents = None\<rparr>"
  let ?ob = "\<lparr>shape = Box, label = 4, data = grid_of_list [[4], [4]], dim = (2, 1), pose = (7, 5),
      curve_pts = ((0, 0), (0, 0)), thick = 0, lqd = None\<rparr>"
  let ?oi = "grid_of_list [[0], [4]]"
  let ?st = "ovl_init ?ob True True False"
  have c: "ol_ctr ?st < 2" by (simp add: ovl_init_def)
  have b: "comp_bbox (largest_comp ?oi) = ((1, 1), (0, 0))" by code_simp
  have g: "snd (ovl_iter ?cfg ?ob ?oi ?st) = False" by code_simp
  have it: "ovl_iter ?cfg ?ob ?oi ?st = (fst (ovl_iter ?cfg ?ob ?oi ?st), False)"
    using g by (metis prod.collapse)
  have p: "cur_pose ?st = (7, 5)" "row_shift ?st" "col_shift ?st" "nrows ?oi = 2" "ncols ?oi = 1"
    by (simp_all add: ovl_init_def cur_pose_def grid_of_list_def)
  from ovl_iter_first_passes [OF c b it] p c b show ?thesis
    by (simp add: axis_shift_def)
qed

end
