(* ===== verification/Sheet.thy ===== *)
theory Sheet
  imports Raster "HOL-Library.Monad_Syntax"
begin

text \<open>
  The sheet curve fitter: \<^verbatim>\<open>run_midpoint_recursion\<close>, \<^verbatim>\<open>generate_sheet_curve\<close> and
  \<^verbatim>\<open>inflate_sheet\<close> of \<^verbatim>\<open>BaggageImage2D\<close>. A sheet is two end points; its curve is
  the union of straight raster lines between the leaves of a binary recursion that moves
  each midpoint to the nearest free row of its column. Lines are drawn by
  \<^verbatim>\<open>skimage.draw.line\<close>, modelled as the library's Bresenham loop (\<open>draw_line\<close>).
  The recursion may call itself on points that are no longer free, so it is a
  \<open>partial_function (option)\<close>; theorem \<open>run_midpoint_recursion_total\<close> shows that it
  returns on every input, by a lexicographic measure (column distance, row distance, and
  a flag for one rounding case) that decreases once the second end point of a call is a
  relocated, hence free, midpoint. Reads of the canvas use numpy's index rule, so an out
  of range read is an \<open>IndexError\<close>; an empty \<^verbatim>\<open>argmin\<close> is a \<open>ValueError\<close>.
  The theory also holds \<^verbatim>\<open>get_2d_plane\<close>, the plane through a simplex of sheet
  points that the 3D overlap test uses.
\<close>

subsection \<open>\<^verbatim>\<open>skimage.draw.line\<close>\<close>



text \<open>The loop of \<^verbatim>\<open>skimage.draw._line\<close> after the steep/shallow swap: emit the current pixel
  (swapped back when steep), step the major axis, and step the minor axis when the error term
  is not negative. The library's inner \<^verbatim>\<open>while d >= 0\<close> runs at most once because
  \<open>d < 2 * dc\<close> there, so it is the \<open>if\<close> here.\<close>

fun line_steps :: "nat \<Rightarrow> bool \<Rightarrow> int \<Rightarrow> int \<Rightarrow> int \<Rightarrow> int \<Rightarrow> int \<Rightarrow> int \<Rightarrow> int \<Rightarrow> (int \<times> int) list" where
  "line_steps 0 st r c d sr sc dr dc = []"
| "line_steps (Suc k) st r c d sr sc dr dc =
     (if st then (c, r) else (r, c)) #
     (if 0 \<le> d then line_steps k st (r + sr) (c + sc) (d - 2 * dc + 2 * dr) sr sc dr dc
      else line_steps k st r (c + sc) (d + 2 * dr) sr sc dr dc)"

text \<open>\<^verbatim>\<open>line(r0, c0, r1, c1)\<close>: the pixels from \<open>(r0, c0)\<close> to \<open>(r1, c1)\<close>, the end point last.\<close>

definition draw_line :: "int \<Rightarrow> int \<Rightarrow> int \<Rightarrow> int \<Rightarrow> (int \<times> int) list" where
  "draw_line r0 c0 r1 c1 =
     (let dr = \<bar>r1 - r0\<bar>; dc = \<bar>c1 - c0\<bar>;
          sc = (if 0 < c1 - c0 then 1 else -1); sr = (if 0 < r1 - r0 then 1 else -1)
      in (if dc < dr then line_steps (nat dr) True c0 r0 (2 * dc - dr) sc sr dc dr
          else line_steps (nat dc) False r0 c0 (2 * dr - dc) sr sc dr dc) @ [(r1, c1)])"

subsection \<open>\<^verbatim>\<open>run_midpoint_recursion\<close>\<close>

text \<open>\<^verbatim>\<open>np.any(ws_bag[line_pts])\<close>: any nonzero cell on the line; numpy raises when an index
  is out of range.\<close>

definition line_hits :: "grid \<Rightarrow> (int \<times> int) list \<Rightarrow> py_exc + bool" where
  "line_hits g pts =
     (if list_all (\<lambda>(r, c). py_idx r (nrows g) \<noteq> None \<and> py_idx c (ncols g) \<noteq> None) pts
      then Inr (list_ex (\<lambda>(r, c). px g (the (py_idx r (nrows g))) (the (py_idx c (ncols g))) \<noteq> 0) pts)
      else Inl IndexError)"

text \<open>\<^verbatim>\<open>np.where(ws_bag[:, c] == 0)[0]\<close>: the free rows of a column, ascending.\<close>

definition col_zero_rows :: "grid \<Rightarrow> nat \<Rightarrow> nat list" where
  "col_zero_rows g c = filter (\<lambda>r. px g r c = 0) [0..<nrows g]"

definition ndist :: "nat \<Rightarrow> nat \<Rightarrow> nat" where
  "ndist a b = (if a \<le> b then b - a else a - b)"

text \<open>\<^verbatim>\<open>rows[argmin(abs(rows - m))]\<close>: the first row nearest to \<open>m\<close>; \<^verbatim>\<open>argmin\<close> of an
  empty array raises.\<close>

fun nearest_acc :: "nat list \<Rightarrow> nat \<Rightarrow> nat \<Rightarrow> nat" where
  "nearest_acc [] m best = best"
| "nearest_acc (r # rs) m best = nearest_acc rs m (if ndist r m < ndist best m then r else best)"

definition nearest_row :: "nat list \<Rightarrow> nat \<Rightarrow> py_exc + nat" where
  "nearest_row rows m = (case rows of [] \<Rightarrow> Inl ValueError | r # rs \<Rightarrow> Inr (nearest_acc rs m r))"

definition seg_line :: "pix \<Rightarrow> pix \<Rightarrow> (int \<times> int) list" where
  "seg_line p q = draw_line (int (fst p)) (int (snd p)) (int (fst q)) (int (snd q))"

text \<open>The midpoint \<^verbatim>\<open>np.average(simplex_pts, axis=0).astype(int)\<close> (the coordinates are
  not negative, so truncation is \<open>div 2\<close>) moved to the nearest free row of its column.\<close>

definition free_mid :: "grid \<Rightarrow> pix \<Rightarrow> pix \<Rightarrow> py_exc + pix" where
  "free_mid g p q =
     (let mc = (snd p + snd q) div 2 in
      if mc < ncols g
      then (case nearest_row (col_zero_rows g mc) ((fst p + fst q) div 2) of
              Inl e \<Rightarrow> Inl e | Inr r \<Rightarrow> Inr (r, mc))
      else Inl IndexError)"

text \<open>The recursion: a line without overlap is a leaf; otherwise the relocated midpoint
  splits it, unless it equals an end point, which is the accepted base case. The
  second call runs only when the first returned.\<close>

partial_function (option) run_midpoint_recursion :: "grid \<Rightarrow> pix \<Rightarrow> pix \<Rightarrow> (py_exc + (pix \<times> pix) list) option" where
  "run_midpoint_recursion g p q =
     (case line_hits g (seg_line p q) of
        Inl e \<Rightarrow> Some (Inl e)
      | Inr hit \<Rightarrow>
          if \<not> hit then Some (Inr [(p, q)]) else
          (case free_mid g p q of
             Inl e \<Rightarrow> Some (Inl e)
           | Inr m \<Rightarrow>
               (if m = p \<or> m = q then Some (Inr [(p, q)])
                else do {
                  s1 \<leftarrow> run_midpoint_recursion g p m;
                  (case s1 of
                     Inl e \<Rightarrow> Some (Inl e)
                   | Inr l1 \<Rightarrow> do {
                       s2 \<leftarrow> run_midpoint_recursion g q m;
                       Some (case s2 of Inl e \<Rightarrow> Inl e | Inr l2 \<Rightarrow> Inr (l1 @ l2)) }) })))"

declare run_midpoint_recursion.simps [code]

subsection \<open>\<^verbatim>\<open>generate_sheet_curve\<close> and \<^verbatim>\<open>inflate_sheet\<close>\<close>

text \<open>The recursion returns on every input (theorem \<open>run_midpoint_recursion_total\<close>),
  so its callers read the result with \<open>the\<close>.\<close>

definition midpoint_segments :: "grid \<Rightarrow> pix \<Rightarrow> pix \<Rightarrow> py_exc + (pix \<times> pix) list" where
  "midpoint_segments g p q = the (run_midpoint_recursion g p q)"

text \<open>\<^verbatim>\<open>np.clip(x, 0, 2*self.bb_h-1)\<close> for a container with \<open>bb_h \<ge> 1\<close>, where the
  bound is not negative and the clipped point a pair of naturals.\<close>

definition np_clip :: "int \<Rightarrow> int \<Rightarrow> nat" where
  "np_clip hi x = nat (min hi (max 0 x))"

text \<open>The end point adjustment of \<^verbatim>\<open>generate_sheet_curve\<close>: a point on an occupied cell
  (\<^verbatim>\<open>> 0\<close>) moves to the nearest free row of its column.\<close>

definition relocate_endpoint :: "grid \<Rightarrow> pix \<Rightarrow> py_exc + pix" where
  "relocate_endpoint g c =
     (if fst c < nrows g \<and> snd c < ncols g then
        (if 0 < px g (fst c) (snd c) then
           (case nearest_row (col_zero_rows g (snd c)) (fst c) of
              Inl e \<Rightarrow> Inl e | Inr r \<Rightarrow> Inr (r, snd c))
         else Inr c)
      else Inl IndexError)"

text \<open>\<^verbatim>\<open>bin_data[b_pts] = v\<close>.\<close>

definition set_pixels :: "grid \<Rightarrow> (int \<times> int) list \<Rightarrow> int \<Rightarrow> py_exc + grid" where
  "set_pixels g pts v =
     (if list_all (\<lambda>(r, c). py_idx r (nrows g) \<noteq> None \<and> py_idx c (ncols g) \<noteq> None) pts
      then Inr (g\<lparr>px := (\<lambda>i j. if list_ex (\<lambda>(r, c). py_idx r (nrows g) = Some i \<and> py_idx c (ncols g) = Some j) pts
                               then v else px g i j)\<rparr>)
      else Inl IndexError)"

text \<open>The end of \<^verbatim>\<open>generate_sheet_curve\<close>: the bounding box of all leaf end points, the new
  pose at its minimum, and the leaves drawn into a fresh raster in rebased coordinates.
  \<open>dim\<close> is not updated, as in the source.\<close>

definition draw_segments :: "obj2d \<Rightarrow> (pix \<times> pix) list \<Rightarrow> py_exc + obj2d" where
  "draw_segments ob segs =
     (if segs = [] then Inl ValueError else
      (let rs = concat (map (\<lambda>(a, b). [fst a, fst b]) segs); cs = concat (map (\<lambda>(a, b). [snd a, snd b]) segs);
           r0 = Min (set rs); r1 = Max (set rs); c0 = Min (set cs); c1 = Max (set cs);
           pts = concat (map (\<lambda>(a, b). draw_line (int (fst a) - int r0) (int (snd a) - int c0)
                                                  (int (fst b) - int r0) (int (snd b) - int c0)) segs)
       in case set_pixels (zeros (r1 - r0 + 1) (c1 - c0 + 1)) pts 1 of
            Inl e \<Rightarrow> Inl e
          | Inr d \<Rightarrow> Inr (ob\<lparr>pose := (int r0, int c0), data := d\<rparr>)))"

text \<open>\<^verbatim>\<open>generate_sheet_curve\<close>: end points in canvas coordinates and clipped, adjusted, and
  the two recursions from each end point to their (unrelocated) average.\<close>

definition generate_sheet_curve :: "bag_cfg \<Rightarrow> canvas \<Rightarrow> obj2d \<Rightarrow> py_exc + obj2d" where
  "generate_sheet_curve cfg cv ob =
     (let g = bag cv; hi = 2 * bb_h cfg - 1;
          a = fst (curve_pts ob); b = snd (curve_pts ob); p = pose ob;
          e0 = (np_clip hi (fst a + fst p), np_clip hi (snd a + snd p));
          e1 = (np_clip hi (fst b + fst p), np_clip hi (snd b + snd p))
      in case relocate_endpoint g e0 of Inl e \<Rightarrow> Inl e | Inr e0' \<Rightarrow>
         (case relocate_endpoint g e1 of Inl e \<Rightarrow> Inl e | Inr e1' \<Rightarrow>
           (let m = ((fst e0' + fst e1') div 2, (snd e0' + snd e1') div 2) in
            case midpoint_segments g e0' m of Inl e \<Rightarrow> Inl e | Inr l1 \<Rightarrow>
            (case midpoint_segments g e1' m of Inl e \<Rightarrow> Inl e | Inr l2 \<Rightarrow>
             draw_segments ob (l1 @ l2)))))"

text \<open>\<^verbatim>\<open>disk(r)\<close>: the offsets \<open>(di, dj)\<close> with \<open>di\<^sup>2 + dj\<^sup>2 \<le> r\<^sup>2\<close>.\<close>

definition disk_offsets :: "nat \<Rightarrow> (int \<times> int) list" where
  "disk_offsets r = [(di, dj). di \<leftarrow> [- int r..int r], dj \<leftarrow> [- int r..int r], di * di + dj * dj \<le> int r * int r]"

text \<open>\<^verbatim>\<open>binary_dilation(data.astype(bool), disk(r))\<close>: scipy keeps the input's shape and
  reads outside it as background. \<^verbatim>\<open>disk\<close> is the structuring element of
  \<^verbatim>\<open>skimage.morphology\<close>, as in the liquid rule.\<close>

definition dilate_disk :: "nat \<Rightarrow> grid \<Rightarrow> grid" where
  "dilate_disk r g =
     g\<lparr>px := (\<lambda>i j. if list_ex (\<lambda>(di, dj). 0 \<le> int i + di \<and> int i + di < int (nrows g) \<and>
                                       0 \<le> int j + dj \<and> int j + dj < int (ncols g) \<and>
                                       px g (nat (int i + di)) (nat (int j + dj)) \<noteq> 0) (disk_offsets r)
                    then 1 else 0)\<rparr>"

text \<open>\<^verbatim>\<open>inflate_sheet\<close>: dilate by \<^verbatim>\<open>disk(axes[0])\<close>, clear the cells where the
  dilated raster overlaps the canvas, and relabel.\<close>

definition inflate_sheet :: "canvas \<Rightarrow> obj2d \<Rightarrow> obj2d" where
  "inflate_sheet cv ob =
     (let ob1 = ob\<lparr>data := dilate_disk (thick ob) (data ob)\<rparr>;
          d = set_where (data ob1) (snd (get_overlap cv ob1)) 0
      in ob1\<lparr>data := gmap (\<lambda>v. if v = 0 then 0 else label ob) d\<rparr>)"

subsection \<open>\<^verbatim>\<open>get_2d_plane\<close>\<close>

text \<open>Points of the simplex \<^verbatim>\<open>pt_triad\<close> are triples of numbers; \<^verbatim>\<open>b - a\<close> and
  \<^verbatim>\<open>np.cross\<close> on them.\<close>

type_synonym pt3 = "rat \<times> rat \<times> rat"

definition sub3 :: "pt3 \<Rightarrow> pt3 \<Rightarrow> pt3" where
  "sub3 b a = (fst b - fst a, fst (snd b) - fst (snd a), snd (snd b) - snd (snd a))"

definition cross3 :: "pt3 \<Rightarrow> pt3 \<Rightarrow> pt3" where
  "cross3 u v =
     (case (u, v) of ((u0, u1, u2), (v0, v1, v2)) \<Rightarrow>
        (u1 * v2 - u2 * v1, u2 * v0 - u0 * v2, u0 * v1 - u1 * v0))"

text \<open>The plane \<open>a0 x + a1 y + a2 z + a3 = 0\<close> through the three points, with the normal
  \<^verbatim>\<open>cross(ab_vect, ac_vect)\<close> and \<^verbatim>\<open>a3 = -(a0*a[0] + a1*a[1] + a2*a[2])\<close>.\<close>

definition plane_coeffs :: "pt3 \<times> pt3 \<times> pt3 \<Rightarrow> rat \<times> rat \<times> rat \<times> rat" where
  "plane_coeffs t =
     (case t of (a, b, c) \<Rightarrow>
        (case cross3 (sub3 b a) (sub3 c a) of (a0, a1, a2) \<Rightarrow>
           (a0, a1, a2, - (a0 * fst a + a1 * fst (snd a) + a2 * snd (snd a)))))"

text \<open>\<^verbatim>\<open>get_2d_plane\<close>: the pixels \<open>(r, c)\<close> of the triangle spanned by the last two
  coordinates (\<^verbatim>\<open>skimage.draw.polygon\<close>, the parameter \<open>poly\<close>), each with the height
  \<^verbatim>\<open>-(1/a0)*(a1*r + a2*c + a3)\<close> truncated by \<^verbatim>\<open>astype(int)\<close>. The triple of arrays
  \<^verbatim>\<open>(z_val, rows, cols)\<close> is the list of triples \<open>(z, r, c)\<close>. For \<open>a0 = 0\<close> numpy
  divides by zero to \<open>inf\<close> or \<open>nan\<close> and the cast yields an unspecified integer: the
  value \<open>None\<close> when there is a pixel to cast.\<close>

definition get_2d_plane :: "(rat list \<Rightarrow> rat list \<Rightarrow> (int \<times> int) list) \<Rightarrow> pt3 \<times> pt3 \<times> pt3
    \<Rightarrow> (int \<times> int \<times> int) list option" where
  "get_2d_plane poly t =
     (case plane_coeffs t of (a0, a1, a2, a3) \<Rightarrow>
        (case t of (a, b, c) \<Rightarrow>
           (let pg = poly [fst (snd a), fst (snd b), fst (snd c)] [snd (snd a), snd (snd b), snd (snd c)] in
            if a0 = 0 \<and> pg \<noteq> [] then None
            else Some (map (\<lambda>(r, cc). (py_int (- (1 / a0) * (a1 * of_int r + a2 * of_int cc + a3)), r, cc)) pg))))"

subsection \<open>Measures and contracts of the proofs\<close>

text \<open>A free cell is inside the canvas and holds background; the recursion's measure puts
  calls whose first point is not free above all others, then compares column distance,
  row distance and the rounding flag.\<close>

definition free_cell :: "grid \<Rightarrow> pix \<Rightarrow> bool" where
  "free_cell g p \<longleftrightarrow> fst p < nrows g \<and> snd p < ncols g \<and> px g (fst p) (snd p) = 0"

definition mid_flag :: "pix \<times> pix \<Rightarrow> nat" where
  "mid_flag s = (case s of (p, q) \<Rightarrow>
     if ndist (snd p) (snd q) \<le> 1 \<and> (if snd p < snd q then fst q < fst p else fst p < fst q) then 1 else 0)"

definition seg_rel :: "((pix \<times> pix) \<times> (pix \<times> pix)) set" where
  "seg_rel = measures [\<lambda>(p, q). ndist (snd p) (snd q), \<lambda>(p, q). ndist (fst p) (fst q), mid_flag]"

definition mid_rel :: "grid \<Rightarrow> ((pix \<times> pix) \<times> (pix \<times> pix)) set" where
  "mid_rel g = measures [\<lambda>(p, q). if free_cell g p then 0 else 1, \<lambda>(p, q). ndist (snd p) (snd q),
                         \<lambda>(p, q). ndist (fst p) (fst q), mid_flag]"

text \<open>The leaf contract of the sheet section of the design: every leaf either has no
  overlapping pixel, or its relocated midpoint is one of its own end points.\<close>

definition leaf_ok :: "grid \<Rightarrow> pix \<times> pix \<Rightarrow> bool" where
  "leaf_ok g s = (case s of (a, b) \<Rightarrow>
     line_hits g (seg_line a b) = Inr False \<or>
     (case free_mid g a b of Inl e \<Rightarrow> False | Inr m \<Rightarrow> m = a \<or> m = b))"

definition leaves_ok :: "grid \<Rightarrow> py_exc + (pix \<times> pix) list \<Rightarrow> bool" where
  "leaves_ok g r = (case r of Inl e \<Rightarrow> True | Inr segs \<Rightarrow> segs \<noteq> [] \<and> list_all (leaf_ok g) segs)"

subsection \<open>Lemmas\<close>

lemma between_free:
  fixes a b r m :: nat
  assumes "2 * m \<le> a + b" "a + b \<le> 2 * m + 1"
    and "ndist r m \<le> ndist a m" "ndist r m \<le> ndist b m" "r \<noteq> a" "r \<noteq> b"
  shows "ndist a r < ndist a b \<and> ndist b r < ndist a b"
  using assms unfolding ndist_def by (auto split: if_splits)

lemma side_free:
  fixes a b r m :: nat
  assumes "2 * m \<le> a + b" "a + b \<le> 2 * m + 1" "ndist r m \<le> ndist a m" "r \<noteq> a"
  shows "ndist b r < ndist a b \<or> (ndist b r = ndist a b \<and> b < a \<and> r < b)"
  using assms unfolding ndist_def by (auto split: if_splits)

lemma ndist_commute: "ndist a b = ndist b a"
  by (simp add: ndist_def)

lemma seg_rel_row:
  "ndist (snd p') (snd q') = ndist (snd p) (snd q) \<Longrightarrow> ndist (fst p') (fst q') < ndist (fst p) (fst q) \<Longrightarrow>
   ((p', q'), (p, q)) \<in> seg_rel"
  by (simp add: seg_rel_def)

lemma mid_decrease_left:
  fixes p q mid :: pix
  assumes mc: "snd mid = (snd p + snd q) div 2" and m: "m = (fst p + fst q) div 2"
    and zq: "snd q = snd mid \<Longrightarrow> ndist (fst mid) m \<le> ndist (fst q) m"
    and np: "mid \<noteq> p" and nq: "mid \<noteq> q"
  shows "((p, mid), (p, q)) \<in> seg_rel"
proof -
  obtain r0 c0 r1 c1 rs cm where pq: "p = (r0, c0)" "q = (r1, c1)" "mid = (rs, cm)"
    by (cases p, cases q, cases mid) auto
  have cm: "2 * cm \<le> c0 + c1" "c0 + c1 \<le> 2 * cm + 1" using mc pq by simp_all
  have mm: "2 * m \<le> r1 + r0" "r1 + r0 \<le> 2 * m + 1" using m pq by simp_all
  consider "c0 = c1" | "c1 = Suc c0" | "c0 = Suc c1" | "c0 + 2 \<le> c1 \<or> c1 + 2 \<le> c0" by arith
  then show ?thesis
  proof cases
    case 1
    with cm have "cm = c0" by simp
    with 1 pq zq nq have z: "ndist rs m \<le> ndist r1 m" "rs \<noteq> r1" by auto
    from side_free [OF mm z] \<open>cm = c0\<close> 1 pq show ?thesis
      by (auto simp: seg_rel_def mid_flag_def ndist_def)
  next
    case 2
    with cm have "cm = c0" by simp
    with 2 pq show ?thesis by (simp add: seg_rel_def ndist_def)
  next
    case 3
    with cm have "cm = c1" by simp
    with pq zq nq have z: "ndist rs m \<le> ndist r1 m" "rs \<noteq> r1" by auto
    from side_free [OF mm z] \<open>cm = c1\<close> 3 pq show ?thesis
      by (auto simp: seg_rel_def mid_flag_def ndist_def)
  next
    case 4
    with cm have "ndist c0 cm < ndist c0 c1" unfolding ndist_def by auto
    with pq show ?thesis by (simp add: seg_rel_def)
  qed
qed

lemma mid_decrease:
  fixes p q mid :: pix
  assumes mc: "snd mid = (snd p + snd q) div 2" and m: "m = (fst p + fst q) div 2"
    and zp: "snd p = snd mid \<Longrightarrow> ndist (fst mid) m \<le> ndist (fst p) m"
    and zq: "snd q = snd mid \<Longrightarrow> ndist (fst mid) m \<le> ndist (fst q) m"
    and np: "mid \<noteq> p" and nq: "mid \<noteq> q"
  shows "((p, mid), (p, q)) \<in> seg_rel \<and> ((q, mid), (p, q)) \<in> seg_rel"
proof -
  obtain r0 c0 r1 c1 rs cm where pq: "p = (r0, c0)" "q = (r1, c1)" "mid = (rs, cm)"
    by (cases p, cases q, cases mid) auto
  have cm: "2 * cm \<le> c0 + c1" "c0 + c1 \<le> 2 * cm + 1" using mc pq by simp_all
  have mm: "2 * m \<le> r0 + r1" "r0 + r1 \<le> 2 * m + 1" using m pq by simp_all
  consider "c0 = c1" | "c1 = Suc c0" | "c0 = Suc c1" | "c0 + 2 \<le> c1 \<or> c1 + 2 \<le> c0" by arith
  then show ?thesis
  proof cases
    case 1
    with cm have "cm = c0" by simp
    with 1 pq zp zq np nq have "ndist rs m \<le> ndist r0 m" "ndist rs m \<le> ndist r1 m" "rs \<noteq> r0" "rs \<noteq> r1"
      by auto
    from between_free [OF mm this] \<open>cm = c0\<close> 1 pq show ?thesis
      by (auto intro: seg_rel_row simp: ndist_commute)
  next
    case 2
    with cm have "cm = c0" by simp
    with pq zp np have "ndist rs m \<le> ndist r0 m" "rs \<noteq> r0" by auto
    from side_free [OF mm this] \<open>cm = c0\<close> 2 pq show ?thesis
      by (auto simp: seg_rel_def mid_flag_def ndist_def)
  next
    case 3
    with cm have "cm = c1" by simp
    with pq zq nq have z: "ndist rs m \<le> ndist r1 m" "rs \<noteq> r1" by auto
    have mm': "2 * m \<le> r1 + r0" "r1 + r0 \<le> 2 * m + 1" using mm by simp_all
    from side_free [OF mm' z] \<open>cm = c1\<close> 3 pq show ?thesis
      by (auto simp: seg_rel_def mid_flag_def ndist_def)
  next
    case 4
    with cm have "ndist c0 cm < ndist c0 c1" "ndist c1 cm < ndist c0 c1"
      unfolding ndist_def by auto
    with pq show ?thesis by (simp add: seg_rel_def ndist_commute)
  qed
qed

lemma nearest_acc_mem: "nearest_acc rs m b \<in> insert b (set rs)"
  by (induction rs arbitrary: b) auto

lemma nearest_acc_best: "ndist (nearest_acc rs m b) m \<le> ndist b m"
proof (induction rs arbitrary: b)
  case (Cons r rs)
  have "ndist (nearest_acc rs m (if ndist r m < ndist b m then r else b)) m \<le>
        ndist (if ndist r m < ndist b m then r else b) m" by (rule Cons.IH)
  then show ?case by (simp split: if_splits)
qed simp

lemma nearest_acc_le: "x \<in> insert b (set rs) \<Longrightarrow> ndist (nearest_acc rs m b) m \<le> ndist x m"
proof (induction rs arbitrary: b)
  case (Cons r rs)
  let ?b = "if ndist r m < ndist b m then r else b"
  have "ndist (nearest_acc rs m ?b) m \<le> ndist ?b m" by (rule nearest_acc_best)
  moreover have "ndist ?b m \<le> ndist b m" "ndist ?b m \<le> ndist r m" by auto
  moreover have "x \<in> set rs \<Longrightarrow> ndist (nearest_acc rs m ?b) m \<le> ndist x m" using Cons.IH by simp
  ultimately show ?case using Cons.prems by auto
qed simp

lemma nearest_row_Inr:
  "nearest_row rows m = Inr r \<Longrightarrow> r \<in> set rows \<and> (\<forall>x \<in> set rows. ndist r m \<le> ndist x m)"
  using nearest_acc_mem nearest_acc_le
  by (fastforce simp: nearest_row_def split: list.splits)

lemma free_mid_Inr:
  assumes "free_mid g p q = Inr mid"
  shows "snd mid = (snd p + snd q) div 2 \<and> fst mid < nrows g \<and> snd mid < ncols g \<and>
         px g (fst mid) (snd mid) = 0 \<and>
         (\<forall>x. x < nrows g \<longrightarrow> px g x (snd mid) = 0 \<longrightarrow>
              ndist (fst mid) ((fst p + fst q) div 2) \<le> ndist x ((fst p + fst q) div 2))"
proof -
  let ?mc = "(snd p + snd q) div 2" and ?m = "(fst p + fst q) div 2"
  have c: "?mc < ncols g" using assms by (auto simp: free_mid_def Let_def split: if_splits)
  then obtain r where r: "nearest_row (col_zero_rows g ?mc) ?m = Inr r" and mid: "mid = (r, ?mc)"
    using assms by (auto simp: free_mid_def Let_def split: sum.splits)
  from nearest_row_Inr [OF r] have "r \<in> set (col_zero_rows g ?mc)"
    "\<forall>x \<in> set (col_zero_rows g ?mc). ndist r ?m \<le> ndist x ?m" by blast+
  with c mid show ?thesis by (simp add: col_zero_rows_def)
qed

lemma wf_mid_rel: "wf (mid_rel g)"
  by (simp add: mid_rel_def)

lemma mid_rel_seg:
  "(free_cell g p' \<longleftrightarrow> free_cell g p) \<Longrightarrow> ((p', q'), (p, q)) \<in> seg_rel \<Longrightarrow> ((p', q'), (p, q)) \<in> mid_rel g"
  by (simp add: mid_rel_def seg_rel_def)

lemma mid_rel_free: "free_cell g p' \<Longrightarrow> \<not> free_cell g p \<Longrightarrow> ((p', q'), (p, q)) \<in> mid_rel g"
  by (simp add: mid_rel_def)

text \<open>One unfolding of the recursion: it returns as soon as both recursive calls on the
  relocated midpoint do.\<close>

lemma midpoint_step:
  assumes "\<And>mid. free_mid g p q = Inr mid \<Longrightarrow> mid \<noteq> p \<Longrightarrow> mid \<noteq> q \<Longrightarrow>
             run_midpoint_recursion g p mid \<noteq> None \<and> run_midpoint_recursion g q mid \<noteq> None"
  shows "run_midpoint_recursion g p q \<noteq> None"
proof (cases "line_hits g (seg_line p q)")
  case (Inl e)
  then show ?thesis by (simp add: run_midpoint_recursion.simps [of g p q])
next
  case (Inr hit)
  show ?thesis
  proof (cases "hit \<and> (\<exists>mid. free_mid g p q = Inr mid \<and> mid \<noteq> p \<and> mid \<noteq> q)")
    case False
    with Inr show ?thesis by (auto simp: run_midpoint_recursion.simps [of g p q] split: sum.splits)
  next
    case True
    then obtain mid where hit: hit and fm: "free_mid g p q = Inr mid" and n: "mid \<noteq> p" "mid \<noteq> q"
      by blast
    from assms [OF fm n] obtain s1 s2 where "run_midpoint_recursion g p mid = Some s1" "run_midpoint_recursion g q mid = Some s2"
      by blast
    with Inr hit fm n show ?thesis by (simp add: run_midpoint_recursion.simps [of g p q] split: sum.splits)
  qed
qed

lemma free_mid_cell:
  assumes "free_mid g p q = Inr mid"
  shows "free_cell g mid"
    and "free_cell g p \<Longrightarrow> snd p = snd mid \<Longrightarrow> ndist (fst mid) ((fst p + fst q) div 2) \<le> ndist (fst p) ((fst p + fst q) div 2)"
    and "free_cell g q \<Longrightarrow> snd q = snd mid \<Longrightarrow> ndist (fst mid) ((fst p + fst q) div 2) \<le> ndist (fst q) ((fst p + fst q) div 2)"
  using free_mid_Inr [OF assms] unfolding free_cell_def by metis+

lemma midpoint_returns_right: "free_cell g q \<Longrightarrow> run_midpoint_recursion g p q \<noteq> None"
proof (induction "(p, q)" arbitrary: p q rule: wf_induct_rule [OF wf_mid_rel [of g]])
  case (1 p q)
  show ?case
  proof (rule midpoint_step)
    fix mid assume fm: "free_mid g p q = Inr mid" and n: "mid \<noteq> p" "mid \<noteq> q"
    note sp = free_mid_Inr [OF fm]
    have fmid: "free_cell g mid" by (rule free_mid_cell(1) [OF fm])
    have zq: "snd q = snd mid \<Longrightarrow> ndist (fst mid) ((fst p + fst q) div 2) \<le> ndist (fst q) ((fst p + fst q) div 2)"
      by (rule free_mid_cell(3) [OF fm "1.prems"])
    have d1: "((p, mid), (p, q)) \<in> mid_rel g"
      by (rule mid_rel_seg [OF refl mid_decrease_left [OF conjunct1 [OF sp] refl zq n]])
    have d2: "((q, mid), (p, q)) \<in> mid_rel g"
    proof (cases "free_cell g p")
      case True
      have zp: "snd p = snd mid \<Longrightarrow> ndist (fst mid) ((fst p + fst q) div 2) \<le> ndist (fst p) ((fst p + fst q) div 2)"
        by (rule free_mid_cell(2) [OF fm True])
      from mid_decrease [OF conjunct1 [OF sp] refl zp zq n] True "1.prems" show ?thesis
        by (blast intro: mid_rel_seg)
    next
      case False
      with "1.prems" show ?thesis by (rule mid_rel_free)
    qed
    show "run_midpoint_recursion g p mid \<noteq> None \<and> run_midpoint_recursion g q mid \<noteq> None"
      using "1.hyps" [OF d1 fmid] "1.hyps" [OF d2 fmid] by blast
  qed
qed

lemma midpoint_returns: "run_midpoint_recursion g p q \<noteq> None"
proof (rule midpoint_step)
  fix mid assume "free_mid g p q = Inr mid"
  then have "free_cell g mid" by (rule free_mid_cell(1))
  then show "run_midpoint_recursion g p mid \<noteq> None \<and> run_midpoint_recursion g q mid \<noteq> None"
    by (simp add: midpoint_returns_right)
qed

lemma midpoint_leaves:
  assumes "run_midpoint_recursion g p q = Some r"
  shows "leaves_ok g r"
proof (rule run_midpoint_recursion.raw_induct [where P = "\<lambda>g p q r. leaves_ok g r", OF _ assms], goal_cases)
  case (1 rec g p q r)
  note IH = "1"(1) and body = "1"(2)
  show ?case
  proof (cases "line_hits g (seg_line p q)")
    case (Inl e)
    with body show ?thesis by (auto simp: leaves_ok_def)
  next
    case (Inr hit)
    show ?thesis
    proof (cases "hit \<and> (\<exists>mid. free_mid g p q = Inr mid \<and> mid \<noteq> p \<and> mid \<noteq> q)")
      case False
      with Inr body show ?thesis
        by (auto simp: leaves_ok_def leaf_ok_def split: sum.splits if_splits)
    next
      case True
      then obtain mid where hit: hit and fm: "free_mid g p q = Inr mid" and n: "mid \<noteq> p" "mid \<noteq> q"
        by blast
      with Inr body obtain s1 where s1: "rec g p mid = Some s1"
        by (cases "rec g p mid") auto
      show ?thesis
      proof (cases s1)
        case (Inl e)
        with s1 Inr hit fm n body show ?thesis by (auto simp: leaves_ok_def)
      next
        case (Inr l1)
        with s1 \<open>line_hits g (seg_line p q) = Inr hit\<close> hit fm n body obtain s2 where
          s2: "rec g q mid = Some s2" and r: "r = (case s2 of Inl e \<Rightarrow> Inl e | Inr l2 \<Rightarrow> Inr (l1 @ l2))"
          by (cases "rec g q mid") auto
        from IH [OF s1] Inr have l1: "l1 \<noteq> [] \<and> list_all (leaf_ok g) l1" by (simp add: leaves_ok_def)
        from IH [OF s2] r l1 show ?thesis by (auto simp: leaves_ok_def split: sum.splits)
      qed
    qed
  qed
qed

lemma line_steps_hd: "line_steps (Suc k) st r c d sr sc dr dc \<noteq> [] \<and>
  hd (line_steps (Suc k) st r c d sr sc dr dc) = (if st then (c, r) else (r, c))"
  by simp

lemma draw_line_ends:
  "(r0, c0) \<in> set (draw_line r0 c0 r1 c1) \<and> (r1, c1) \<in> set (draw_line r0 c0 r1 c1)"
proof -
  consider "\<bar>c1 - c0\<bar> < \<bar>r1 - r0\<bar>" | "\<not> \<bar>c1 - c0\<bar> < \<bar>r1 - r0\<bar>" "c1 \<noteq> c0" | "c1 = c0" "r1 = r0"
    by fastforce
  then show ?thesis
  proof cases
    case 1
    then obtain k where "nat \<bar>r1 - r0\<bar> = Suc k" by (cases "nat \<bar>r1 - r0\<bar>") auto
    with 1 show ?thesis by (simp add: draw_line_def Let_def)
  next
    case 2
    then obtain k where "nat \<bar>c1 - c0\<bar> = Suc k" by (cases "nat \<bar>c1 - c0\<bar>") auto
    with 2 show ?thesis by (simp add: draw_line_def Let_def)
  next
    case 3
    then show ?thesis by (simp add: draw_line_def)
  qed
qed

lemma set_pixels_Inr:
  assumes "set_pixels g pts v = Inr d"
  shows "nrows d = nrows g" "ncols d = ncols g"
    "(int i, int j) \<in> set pts \<Longrightarrow> i < nrows g \<Longrightarrow> j < ncols g \<Longrightarrow> px d i j = v"
proof -
  have d: "d = g\<lparr>px := (\<lambda>i j. if list_ex (\<lambda>(r, c). py_idx r (nrows g) = Some i \<and> py_idx c (ncols g) = Some j) pts
                               then v else px g i j)\<rparr>"
    using assms by (simp add: set_pixels_def split: if_splits)
  then show "nrows d = nrows g" "ncols d = ncols g" by simp_all
  assume "(int i, int j) \<in> set pts" "i < nrows g" "j < ncols g"
  then have "list_ex (\<lambda>(r, c). py_idx r (nrows g) = Some i \<and> py_idx c (ncols g) = Some j) pts"
    by (force simp: list_ex_iff)
  with d show "px d i j = v" by simp
qed

lemma bbox_full:
  assumes "0 < nrows m" "0 < ncols m"
    and "\<exists>j. (0, j) \<in> set (nz_pixels m)" "\<exists>j. (nrows m - 1, j) \<in> set (nz_pixels m)"
    and "\<exists>i. (i, 0) \<in> set (nz_pixels m)" "\<exists>i. (i, ncols m - 1) \<in> set (nz_pixels m)"
  shows "bbox m = Some (0, nrows m - 1, 0, ncols m - 1)"
proof -
  have b: "x \<in> set (nz_pixels m) \<Longrightarrow> fst x \<le> nrows m - 1 \<and> snd x \<le> ncols m - 1" for x
    by (auto simp: set_nz_pixels)
  have ne: "nz_pixels m \<noteq> []" using assms(3) by auto
  have "Min (set (map fst (nz_pixels m))) = 0" using assms(3) by (intro Min_eqI) force+
  moreover have "Max (set (map fst (nz_pixels m))) = nrows m - 1" using assms(4) b by (intro Max_eqI) force+
  moreover have "Min (set (map snd (nz_pixels m))) = 0" using assms(5) by (intro Min_eqI) force+
  moreover have "Max (set (map snd (nz_pixels m))) = ncols m - 1" using assms(6) b by (intro Max_eqI) force+
  ultimately show ?thesis using ne by (simp add: bbox_def Let_def)
qed

lemma seg_ends_map:
  "concat (map (\<lambda>(a, b). [f a, f b]) segs) = map f (concat (map (\<lambda>(a, b). [a, b]) segs))"
  by (induction segs) auto

lemma seg_end_drawn:
  assumes "x \<in> set (concat (map (\<lambda>(a, b). [a, b]) segs))" "r0 \<le> fst x" "c0 \<le> snd x"
  shows "(int (fst x - r0), int (snd x - c0)) \<in>
           set (concat (map (\<lambda>(a, b). draw_line (int (fst a) - int r0) (int (snd a) - int c0)
                                                (int (fst b) - int r0) (int (snd b) - int c0)) segs))"
proof -
  from assms(1) obtain a b where ab: "(a, b) \<in> set segs" "x = a \<or> x = b" by auto
  have "(int (fst x) - int r0, int (snd x) - int c0) \<in>
          set (draw_line (int (fst a) - int r0) (int (snd a) - int c0) (int (fst b) - int r0) (int (snd b) - int c0))"
    using ab(2) draw_line_ends by blast
  with ab(1) assms(2,3) show ?thesis by (force simp: of_nat_diff)
qed

lemma Min_Max_attained:
  assumes "finite A" "A \<noteq> {}"
  shows "(\<exists>x\<in>A. f x = Min (f ` A)) \<and> (\<exists>x\<in>A. f x = Max (f ` A))"
proof -
  have "Min (f ` A) \<in> f ` A" "Max (f ` A) \<in> f ` A" using assms by simp_all
  then show ?thesis by (metis imageE)
qed

lemma draw_segments_tight:
  assumes "draw_segments ob segs = Inr ob'"
  shows "bbox (data ob') = Some (0, nrows (data ob') - 1, 0, ncols (data ob') - 1)"
proof -
  define E where "E = concat (map (\<lambda>(a, b). [a, b]) segs)"
  define r0 where "r0 = Min (set (concat (map (\<lambda>(a, b). [fst a, fst b]) segs)))"
  define r1 where "r1 = Max (set (concat (map (\<lambda>(a, b). [fst a, fst b]) segs)))"
  define c0 where "c0 = Min (set (concat (map (\<lambda>(a, b). [snd a, snd b]) segs)))"
  define c1 where "c1 = Max (set (concat (map (\<lambda>(a, b). [snd a, snd b]) segs)))"
  have sets: "set (concat (map (\<lambda>(a, b). [fst a, fst b]) segs)) = fst ` set E"
    "set (concat (map (\<lambda>(a, b). [snd a, snd b]) segs)) = snd ` set E"
    unfolding E_def seg_ends_map [of fst segs] seg_ends_map [of snd segs] by simp_all
  have eqs: "r0 = Min (fst ` set E)" "r1 = Max (fst ` set E)" "c0 = Min (snd ` set E)" "c1 = Max (snd ` set E)"
    by (simp_all only: r0_def r1_def c0_def c1_def sets)
  let ?pts = "concat (map (\<lambda>(a, b). draw_line (int (fst a) - int r0) (int (snd a) - int c0)
                                            (int (fst b) - int r0) (int (snd b) - int c0)) segs)"
  have ne: "segs \<noteq> []"
  proof
    assume "segs = []"
    then have "draw_segments ob segs = Inl ValueError" by (simp add: draw_segments_def)
    with assms show False by simp
  qed
  then have Ene: "E \<noteq> []" by (cases segs) (auto simp: E_def)
  have fin: "finite (fst ` set E)" "finite (snd ` set E)" by simp_all
  have sp: "set_pixels (zeros (r1 - r0 + 1) (c1 - c0 + 1)) ?pts 1 = Inr (data ob')"
  proof -
    have "draw_segments ob segs = (case set_pixels (zeros (r1 - r0 + 1) (c1 - c0 + 1)) ?pts 1 of
            Inl e \<Rightarrow> Inl e | Inr d \<Rightarrow> Inr (ob\<lparr>pose := (int r0, int c0), data := d\<rparr>))"
      using ne unfolding draw_segments_def r0_def r1_def c0_def c1_def Let_def by simp
    with assms show ?thesis by (auto split: sum.splits)
  qed
  note d = set_pixels_Inr [OF sp]
  have rng: "x \<in> set E \<Longrightarrow> r0 \<le> fst x \<and> fst x \<le> r1 \<and> c0 \<le> snd x \<and> snd x \<le> c1" for x
    using fin by (auto simp: eqs intro!: Min_le Max_ge)
  have on: "x \<in> set E \<Longrightarrow> (fst x - r0, snd x - c0) \<in> set (nz_pixels (data ob'))" for x
  proof -
    assume x: "x \<in> set E"
    note r = rng [OF x]
    have p: "(int (fst x - r0), int (snd x - c0)) \<in> set ?pts"
      using seg_end_drawn [of x segs r0 c0] x r by (simp add: E_def)
    have b: "fst x - r0 < nrows (zeros (r1 - r0 + 1) (c1 - c0 + 1))" "snd x - c0 < ncols (zeros (r1 - r0 + 1) (c1 - c0 + 1))"
      using r by (simp_all add: zeros_def less_Suc_eq_le diff_le_mono)
    have "px (data ob') (fst x - r0) (snd x - c0) = 1" by (rule d(3) [OF p b])
    with b d(1,2) show ?thesis by (simp add: set_nz_pixels)
  qed
  have at: "(\<exists>x\<in>set E. fst x = r0) \<and> (\<exists>x\<in>set E. fst x = r1)"
    "(\<exists>x\<in>set E. snd x = c0) \<and> (\<exists>x\<in>set E. snd x = c1)"
    unfolding eqs using Ene by (simp_all add: Min_Max_attained)
  obtain xa xb xc xd where xa: "xa \<in> set E" "fst xa = r0" and xb: "xb \<in> set E" "fst xb = r1"
    and xc: "xc \<in> set E" "snd xc = c0" and xd: "xd \<in> set E" "snd xd = c1"
    using at by blast
  have dims: "nrows (data ob') = r1 - r0 + 1" "ncols (data ob') = c1 - c0 + 1" using d by (simp_all add: zeros_def)
  show ?thesis
  proof (rule bbox_full)
    show "0 < nrows (data ob')" "0 < ncols (data ob')" using dims by simp_all
    show "\<exists>j. (0, j) \<in> set (nz_pixels (data ob'))" using on [OF xa(1)] xa(2) by auto
    show "\<exists>j. (nrows (data ob') - 1, j) \<in> set (nz_pixels (data ob'))" using on [OF xb(1)] xb(2) dims by auto
    show "\<exists>i. (i, 0) \<in> set (nz_pixels (data ob'))" using on [OF xc(1)] xc(2) by auto
    show "\<exists>i. (i, ncols (data ob') - 1) \<in> set (nz_pixels (data ob'))" using on [OF xd(1)] xd(2) dims by auto
  qed
qed

lemma generate_sheet_curve_draws:
  "generate_sheet_curve cfg cv ob = Inr ob' \<Longrightarrow> \<exists>segs. draw_segments ob segs = Inr ob'"
  by (auto simp: generate_sheet_curve_def Let_def split: sum.splits)

text \<open>The dilation keeps the raster's shape, so a sheet is thickened only inside the
  tight raster drawn by \<^verbatim>\<open>generate_sheet_curve\<close>: a curve drawn in one row stays one
  row high whatever the thickness.\<close>

theorem inflate_sheet_shape:
  "nrows (data (inflate_sheet cv ob)) = nrows (data ob) \<and> ncols (data (inflate_sheet cv ob)) = ncols (data ob)"
  by (simp add: inflate_sheet_def Let_def gmap_shape set_where_shape dilate_disk_def)

text \<open>The new pose is the minimum of the leaf end points; a midpoint lies between
  the two ends.\<close>

lemma draw_segments_pose:
  "draw_segments ob segs = Inr ob' \<Longrightarrow>
   pose ob' = (int (Min (set (concat (map (\<lambda>(a, b). [fst a, fst b]) segs)))),
               int (Min (set (concat (map (\<lambda>(a, b). [snd a, snd b]) segs)))))"
  by (auto simp: draw_segments_def Let_def split: if_splits sum.splits)

lemma Min_mid: "Min {a, (a + b) div 2, b, (a + b) div 2} = min a (b :: nat)"
  by (auto simp: min_def intro!: Min_eqI)

subsection \<open>Properties of the sheet fitter\<close>

text \<open>C12: \<^verbatim>\<open>run_midpoint_recursion\<close> returns on every canvas and every pair of points, with
  a list of leaf segments or an exception, and every leaf either avoids occupied cells or
  is the documented base case whose relocated midpoint equals one of its end points.\<close>

theorem run_midpoint_recursion_total:
  "case run_midpoint_recursion g p q of None \<Rightarrow> False | Some r \<Rightarrow> leaves_ok g r"
  using midpoint_returns [of g p q] midpoint_leaves [of g p q]
  by (cases "run_midpoint_recursion g p q") auto

text \<open>A segment whose raster line meets no occupied cell comes back unchanged, as the
  only leaf.\<close>

theorem run_midpoint_recursion_unobstructed:
  "line_hits g (seg_line p q) = Inr False \<Longrightarrow> run_midpoint_recursion g p q = Some (Inr [(p, q)])"
  by (simp add: run_midpoint_recursion.simps [of g p q])

theorem run_midpoint_recursion_unobstructed_witness:
  "line_hits (zeros 6 6) (seg_line (1, 1) (4, 3)) = Inr False \<and>
   run_midpoint_recursion (zeros 6 6) (1, 1) (4, 3) = Some (Inr [((1, 1), (4, 3))])"
proof -
  have h: "line_hits (zeros 6 6) (seg_line (1, 1) (4, 3)) = Inr False" by code_simp
  show ?thesis using run_midpoint_recursion_unobstructed [OF h] h by simp
qed

text \<open>C23: when \<^verbatim>\<open>generate_sheet_curve\<close> succeeds, the new raster is tight: its foreground
  reaches the first and last row and the first and last column.\<close>

theorem generate_sheet_curve_tight:
  "generate_sheet_curve cfg cv ob = Inr ob' \<Longrightarrow>
   bbox (data ob') = Some (0, nrows (data ob') - 1, 0, ncols (data ob') - 1)"
  using generate_sheet_curve_draws draw_segments_tight by blast

theorem generate_sheet_curve_tight_witness:
  "case generate_sheet_curve \<lparr>size = 16, bb_h = 6, extents = None\<rparr> \<lparr>bag = \<lparr>nrows = 16, ncols = 16, px = (\<lambda>i j. if i = 4 \<and> 4 \<le> j \<and> j \<le> 6 then 5 else 0)\<rparr>, boundary = zeros 16 16\<rparr> \<lparr>shape = Sheet, label = 7, data = zeros 1 9, dim = (1, 9), pose = (4, 1),
      curve_pts = ((0, 0), (0, 8)), thick = 1, lqd = None\<rparr> of Inl e \<Rightarrow> False | Inr ob' \<Rightarrow> bbox (data ob') = Some (0, 1, 0, 8)"
proof -
  have "\<not> isl (generate_sheet_curve \<lparr>size = 16, bb_h = 6, extents = None\<rparr> \<lparr>bag = \<lparr>nrows = 16, ncols = 16, px = (\<lambda>i j. if i = 4 \<and> 4 \<le> j \<and> j \<le> 6 then 5 else 0)\<rparr>, boundary = zeros 16 16\<rparr> \<lparr>shape = Sheet, label = 7, data = zeros 1 9, dim = (1, 9), pose = (4, 1),
      curve_pts = ((0, 0), (0, 8)), thick = 1, lqd = None\<rparr>)" by code_simp
  then obtain ob' where g: "generate_sheet_curve \<lparr>size = 16, bb_h = 6, extents = None\<rparr> \<lparr>bag = \<lparr>nrows = 16, ncols = 16, px = (\<lambda>i j. if i = 4 \<and> 4 \<le> j \<and> j \<le> 6 then 5 else 0)\<rparr>, boundary = zeros 16 16\<rparr> \<lparr>shape = Sheet, label = 7, data = zeros 1 9, dim = (1, 9), pose = (4, 1),
      curve_pts = ((0, 0), (0, 8)), thick = 1, lqd = None\<rparr> = Inr ob'"
    by (cases "generate_sheet_curve \<lparr>size = 16, bb_h = 6, extents = None\<rparr> \<lparr>bag = \<lparr>nrows = 16, ncols = 16, px = (\<lambda>i j. if i = 4 \<and> 4 \<le> j \<and> j \<le> 6 then 5 else 0)\<rparr>, boundary = zeros 16 16\<rparr> \<lparr>shape = Sheet, label = 7, data = zeros 1 9, dim = (1, 9), pose = (4, 1),
      curve_pts = ((0, 0), (0, 8)), thick = 1, lqd = None\<rparr>") auto
  have "case generate_sheet_curve \<lparr>size = 16, bb_h = 6, extents = None\<rparr> \<lparr>bag = \<lparr>nrows = 16, ncols = 16, px = (\<lambda>i j. if i = 4 \<and> 4 \<le> j \<and> j \<le> 6 then 5 else 0)\<rparr>, boundary = zeros 16 16\<rparr> \<lparr>shape = Sheet, label = 7, data = zeros 1 9, dim = (1, 9), pose = (4, 1),
      curve_pts = ((0, 0), (0, 8)), thick = 1, lqd = None\<rparr> of Inl e \<Rightarrow> False | Inr ob' \<Rightarrow> nrows (data ob') = 2 \<and> ncols (data ob') = 9"
    by code_simp
  with g generate_sheet_curve_tight [OF g] show ?thesis by simp
qed

text \<open>C36: the clip of \<^verbatim>\<open>generate_sheet_curve\<close> to \<^verbatim>\<open>[0, 2*bb_h-1]\<close> works in
  canvas coordinates, where the container interior spans \<^verbatim>\<open>[size//2-bb_h, size//2+bb_h)\<close>:
  whenever the clipped end points are free and the two half segments unobstructed, the
  redrawn sheet's pose is the minimum of the clipped end points, so its row is at most
  \<^verbatim>\<open>2*bb_h-1\<close> wherever the sheet came to rest.\<close>

theorem generate_sheet_curve_clip:
  assumes "generate_sheet_curve cfg cv ob = Inr ob'" and "1 \<le> bb_h cfg"
    and "e0 = (np_clip (2 * bb_h cfg - 1) (fst (fst (curve_pts ob)) + fst (pose ob)),
               np_clip (2 * bb_h cfg - 1) (snd (fst (curve_pts ob)) + snd (pose ob)))"
    and "e1 = (np_clip (2 * bb_h cfg - 1) (fst (snd (curve_pts ob)) + fst (pose ob)),
               np_clip (2 * bb_h cfg - 1) (snd (snd (curve_pts ob)) + snd (pose ob)))"
    and "m = ((fst e0 + fst e1) div 2, (snd e0 + snd e1) div 2)"
    and "\<forall>e\<in>{e0, e1}. fst e < nrows (bag cv) \<and> snd e < ncols (bag cv) \<and> px (bag cv) (fst e) (snd e) \<le> 0"
    and "line_hits (bag cv) (seg_line e0 m) = Inr False" "line_hits (bag cv) (seg_line e1 m) = Inr False"
  shows "pose ob' = (int (min (fst e0) (fst e1)), int (min (snd e0) (snd e1))) \<and>
         fst (pose ob') \<le> 2 * bb_h cfg - 1"
proof -
  have r: "relocate_endpoint (bag cv) e0 = Inr e0" "relocate_endpoint (bag cv) e1 = Inr e1"
    using assms(6) by (auto simp: relocate_endpoint_def not_less)
  have s: "midpoint_segments (bag cv) e0 m = Inr [(e0, m)]" "midpoint_segments (bag cv) e1 m = Inr [(e1, m)]"
    using run_midpoint_recursion_unobstructed [OF assms(7)] run_midpoint_recursion_unobstructed [OF assms(8)]
    by (simp_all add: midpoint_segments_def)
  have "draw_segments ob [(e0, m), (e1, m)] = Inr ob'"
    using assms(1) r s unfolding generate_sheet_curve_def Let_def assms(3-5)
    by (simp add: Let_def)
  from draw_segments_pose [OF this] have p: "pose ob' = (int (min (fst e0) (fst e1)), int (min (snd e0) (snd e1)))"
    using Min_mid [of "fst e0" "fst e1"] Min_mid [of "snd e0" "snd e1"] by (simp add: assms(5) insert_commute)
  have "fst e0 \<le> nat (2 * bb_h cfg - 1)" using assms(3) by (simp add: np_clip_def)
  then show ?thesis using p assms(2) by simp
qed

theorem generate_sheet_curve_clip_witness:
  "case generate_sheet_curve \<lparr>size = 12, bb_h = 4, extents = None\<rparr> \<lparr>bag = zeros 12 12, boundary = zeros 12 12\<rparr>
     \<lparr>shape = Sheet, label = 6, data = grid_of_list [[1, 1, 1, 1]], dim = (1, 4), pose = (9, 2),
      curve_pts = ((0, 0), (0, 3)), thick = 0, lqd = None\<rparr> of
     Inl e \<Rightarrow> False | Inr ob' \<Rightarrow> pose ob' = (7, 2) \<and> fst (pose ob') \<le> 7"
proof -
  have "\<not> isl (generate_sheet_curve \<lparr>size = 12, bb_h = 4, extents = None\<rparr> \<lparr>bag = zeros 12 12, boundary = zeros 12 12\<rparr>
     \<lparr>shape = Sheet, label = 6, data = grid_of_list [[1, 1, 1, 1]], dim = (1, 4), pose = (9, 2),
      curve_pts = ((0, 0), (0, 3)), thick = 0, lqd = None\<rparr>)" by code_simp
  then obtain ob' where g: "generate_sheet_curve \<lparr>size = 12, bb_h = 4, extents = None\<rparr> \<lparr>bag = zeros 12 12, boundary = zeros 12 12\<rparr>
     \<lparr>shape = Sheet, label = 6, data = grid_of_list [[1, 1, 1, 1]], dim = (1, 4), pose = (9, 2),
      curve_pts = ((0, 0), (0, 3)), thick = 0, lqd = None\<rparr> = Inr ob'"
    by (cases "generate_sheet_curve \<lparr>size = 12, bb_h = 4, extents = None\<rparr> \<lparr>bag = zeros 12 12, boundary = zeros 12 12\<rparr>
     \<lparr>shape = Sheet, label = 6, data = grid_of_list [[1, 1, 1, 1]], dim = (1, 4), pose = (9, 2),
      curve_pts = ((0, 0), (0, 3)), thick = 0, lqd = None\<rparr>") auto
  have l: "line_hits (zeros 12 12) (seg_line (7, 2) (7, 3)) = Inr False"
    "line_hits (zeros 12 12) (seg_line (7, 5) (7, 3)) = Inr False" by code_simp+
  have "pose ob' = (int (min 7 7), int (min 2 5)) \<and> fst (pose ob') \<le> 2 * 4 - 1"
    using generate_sheet_curve_clip [OF g, of "(7, 2)" "(7, 5)" "(7, 3)"] l
    by (simp add: np_clip_def zeros_def)
  with g show ?thesis by simp
qed

text \<open>C17: \<^verbatim>\<open>inflate_sheet\<close> never leaves the sheet overlapping placed material: after the
  dilation and the subtraction, the collision test reports no overlap.\<close>

theorem inflate_sheet_no_overlap: "\<not> fst (get_overlap cv (inflate_sheet cv ob))"
proof
  let ?ob1 = "ob\<lparr>data := dilate_disk (thick ob) (data ob)\<rparr>"
  let ?ov = "snd (get_overlap cv ?ob1)"
  let ?d = "set_where (data ?ob1) ?ov 0"
  let ?B = "set_where (bag cv) (boundary cv) 0"
  have ob2: "inflate_sheet cv ob = ?ob1\<lparr>data := gmap (\<lambda>v. if v = 0 then 0 else label ob) ?d\<rparr>"
    by (simp add: inflate_sheet_def Let_def)
  have w: "obj_window (bag cv) (inflate_sheet cv ob) = obj_window (bag cv) ?ob1 \<and>
           row_origin (bag cv) (inflate_sheet cv ob) = row_origin (bag cv) ?ob1 \<and>
           col_origin (bag cv) (inflate_sheet cv ob) = col_origin (bag cv) ?ob1"
    by (rule obj_window_data_shape) (simp_all add: ob2 gmap_shape set_where_shape)
  then have w1: "obj_window (bag cv) (inflate_sheet cv ob) = obj_window (bag cv) ?ob1"
    and w2: "row_origin (bag cv) (inflate_sheet cv ob) = row_origin (bag cv) ?ob1"
    and w3: "col_origin (bag cv) (inflate_sheet cv ob) = col_origin (bag cv) ?ob1" by simp_all
  assume "fst (get_overlap cv (inflate_sheet cv ob))"
  then obtain i j where ij: "i < nrows (obj_window (bag cv) ?ob1)" "j < ncols (obj_window (bag cv) ?ob1)"
    and nz: "px (data (inflate_sheet cv ob)) i j \<noteq> 0"
    and hit: "px ?B (row_origin (bag cv) ?ob1 + i) (col_origin (bag cv) ?ob1 + j) \<noteq> 0"
    unfolding get_overlap_iff w1 w2 w3 by blast
  from nz have d1: "px (data ?ob1) i j \<noteq> 0" and keep: "\<not> (in_shape ?ov i j \<and> px ?ov i j \<noteq> 0)"
    by (simp_all add: ob2 gmap_shape set_where_px split: if_splits)
  have "in_shape ?ov i j" using ij by (simp add: in_shape_def get_overlap_mask)
  moreover have "px ?ov i j \<noteq> 0" using d1 hit by (simp add: get_overlap_mask)
  ultimately show False using keep by blast
qed

subsection \<open>The plane of a simplex\<close>

lemma plane_coeffs_through:
  assumes "plane_coeffs (a, b, c) = (a0, a1, a2, a3)" and "p \<in> {a, b, c}"
  shows "a0 * fst p + a1 * fst (snd p) + a2 * snd (snd p) + a3 = 0"
proof -
  obtain x0 y0 w0 x1 y1 w1 x2 y2 w2 where abc: "a = (x0, y0, w0)" "b = (x1, y1, w1)" "c = (x2, y2, w2)"
    by (metis prod.exhaust)
  have co: "a0 = (y1 - y0) * (w2 - w0) - (w1 - w0) * (y2 - y0)"
    "a1 = (w1 - w0) * (x2 - x0) - (x1 - x0) * (w2 - w0)"
    "a2 = (x1 - x0) * (y2 - y0) - (y1 - y0) * (x2 - x0)"
    "a3 = - (a0 * x0 + a1 * y0 + a2 * w0)"
    using assms(1) by (auto simp: abc plane_coeffs_def cross3_def sub3_def)
  show ?thesis
    using assms(2) unfolding co(4) by (auto simp: abc) (simp_all add: co(1-3) algebra_simps)
qed

text \<open>The height of a returned point is the plane's height at its pixel, truncated.\<close>

lemma plane_coeffs_a0:
  assumes "plane_coeffs (a, b, c) = (a0, a1, a2, a3)"
  shows "a0 = (fst (snd b) - fst (snd a)) * (snd (snd c) - snd (snd a))
            - (snd (snd b) - snd (snd a)) * (fst (snd c) - fst (snd a))"
  using assms by (auto simp: plane_coeffs_def cross3_def sub3_def split: prod.splits)

lemma get_2d_plane_near:
  assumes "get_2d_plane poly t = Some ps" and "plane_coeffs t = (a0, a1, a2, a3)"
    and "(z, r, c) \<in> set ps"
  shows "\<bar>a0 * of_int z + a1 * of_int r + a2 * of_int c + a3\<bar> < \<bar>a0\<bar>"
proof -
  obtain a b d where t: "t = (a, b, d)" by (cases t) auto
  define pg where "pg = poly [fst (snd a), fst (snd b), fst (snd d)] [snd (snd a), snd (snd b), snd (snd d)]"
  define h where "h = - (1 / a0) * (a1 * of_int r + a2 * of_int c + a3)"
  have ps: "ps = map (\<lambda>(r, cc). (py_int (- (1 / a0) * (a1 * of_int r + a2 * of_int cc + a3)), r, cc)) pg"
    and nz: "\<not> (a0 = 0 \<and> pg \<noteq> [])"
    using assms(1,2) by (auto simp: get_2d_plane_def t pg_def Let_def split: if_splits)
  have "(r, c) \<in> set pg" and z: "z = py_int h"
    using assms(3) by (auto simp: ps h_def)
  then have "a0 \<noteq> 0" using nz by auto
  have "a0 * of_int z + a1 * of_int r + a2 * of_int c + a3 = a0 * (of_int (py_int h) - h)"
    using \<open>a0 \<noteq> 0\<close> by (simp add: z h_def field_simps)
  also have "\<bar>\<dots>\<bar> < \<bar>a0\<bar>"
    using py_int_err [of h] \<open>a0 \<noteq> 0\<close> by (simp add: abs_mult)
  finally show ?thesis .
qed

text \<open>C29: \<^verbatim>\<open>get_2d_plane\<close> computes the plane through the three points of the
  simplex: its equation holds at each of them, its coefficient \<open>a0\<close> of the first axis
  vanishes exactly when the triangle projected to the last two axes is degenerate, and
  every point \<open>(z, r, c)\<close> it returns lies within one unit of the plane along the first
  axis (\<open>z\<close> is the plane's height over the pixel \<open>(r, c)\<close>, truncated).\<close>

theorem get_2d_plane_plane:
  assumes "plane_coeffs (a, b, c) = (a0, a1, a2, a3)"
  shows "(\<forall>p\<in>{a, b, c}. a0 * fst p + a1 * fst (snd p) + a2 * snd (snd p) + a3 = 0) \<and>
         (a0 = 0 \<longleftrightarrow> (fst (snd b) - fst (snd a)) * (snd (snd c) - snd (snd a))
                      = (snd (snd b) - snd (snd a)) * (fst (snd c) - fst (snd a))) \<and>
         (\<forall>ps z r cc. get_2d_plane poly (a, b, c) = Some ps \<longrightarrow> (z, r, cc) \<in> set ps \<longrightarrow>
            \<bar>a0 * of_int z + a1 * of_int r + a2 * of_int cc + a3\<bar> < \<bar>a0\<bar>)"
  using plane_coeffs_through [OF assms] plane_coeffs_a0 [OF assms] get_2d_plane_near [OF _ assms]
  by auto

theorem get_2d_plane_plane_witness:
  "plane_coeffs ((0, 0, 0), (0, 1, 0), (1, 0, 1)) = (1, 0, -1, 0) \<and>
   get_2d_plane (\<lambda>_ _. [(1, 1)]) ((0, 0, 0), (0, 1, 0), (1, 0, 1)) = Some [(1, 1, 1)] \<and>
   \<bar>1 * of_int 1 + 0 * of_int 1 + (-1) * of_int 1 + 0\<bar> < \<bar>1 :: rat\<bar>"
proof -
  have p: "plane_coeffs ((0, 0, 0), (0, 1, 0), (1, 0, 1)) = (1, 0, -1, 0)"
    by (simp add: plane_coeffs_def cross3_def sub3_def)
  have g: "get_2d_plane (\<lambda>_ _. [(1, 1)]) ((0, 0, 0), (0, 1, 0), (1, 0, 1)) = Some [(1, 1, 1)]"
    by (simp add: get_2d_plane_def plane_coeffs_def cross3_def sub3_def py_int_def)
  have "\<bar>1 * of_int 1 + 0 * of_int 1 + (-1) * of_int 1 + 0\<bar> < \<bar>1 :: rat\<bar>"
    using get_2d_plane_plane [OF p, of "\<lambda>_ _. [(1, 1)]"] g by auto
  with p g show ?thesis by simp
qed

end
