(* ===== verification/Gravity.thy ===== *)
theory Gravity
  imports Overlap Sheet
begin

text \<open>
  The gravity rule \<^verbatim>\<open>BaggageImage2D.run_shape_grammar_overlap_and_gravity\<close>: the
  object falls by \<^verbatim>\<open>z_inc\<close> rows per step, at most 50 steps (\<^verbatim>\<open>while drop_ctr < 50\<close>,
  the fuel of \<open>grav_loop\<close>). A solid object that reaches the floor is snapped onto it,
  run once through the collision resolver with row shifts off and committed; one that
  overlaps is handed to the resolver in an inner loop (\<open>grav_inner\<close>, ended by the shared
  counter \<^verbatim>\<open>ol_ctr > 10\<close>, so a \<open>function\<close> with a measure), and the descent stops when the
  pose is back where the step started or the oscillation flag is up. A sheet takes its
  own branch: the floor test on its end points, the collision test \<^verbatim>\<open>COLL_FLAG\<close> inside a
  bare \<^verbatim>\<open>try/except\<close> (a Python local that may still be unbound, so \<open>bool option\<close>),
  then the curve fitter of theory \<open>Sheet\<close>, the dilation and the commit. After the loop the
  object is clamped (\<open>adjust_for_boundaries\<close>) and committed again.
\<close>

subsection \<open>Definitions\<close>


text \<open>\<^verbatim>\<open>ground_y\<close> of the gravity rule: \<^verbatim>\<open>size//2 + bb_h\<close> without a bag mask,
  \<^verbatim>\<open>size//2 + extents[0]//2\<close> with one.\<close>

definition grav_ground :: "bag_cfg \<Rightarrow> int" where
  "grav_ground cfg = (case extents cfg of None \<Rightarrow> size cfg div 2 + bb_h cfg | Some (e0, e1) \<Rightarrow> size cfg div 2 + e0 div 2)"

text \<open>The inner \<^verbatim>\<open>while OVERLAP_FLAG\<close> loop: one resolver call with both shifts, a fresh
  collision test, and the counter; past 10 the counter is reset and the loop left. The
  flag \<^verbatim>\<open>self.LATERAL_OSC_FLAG\<close> is threaded through the resolver calls.\<close>

function grav_inner :: "bag_cfg \<Rightarrow> canvas \<Rightarrow> obj2d \<Rightarrow> nat \<Rightarrow> bool \<Rightarrow> obj2d \<times> nat \<times> bool" where
  "grav_inner cfg cv ob ctr lat =
     (case resolve_overlap cfg cv ob True True lat of (ob', lat') \<Rightarrow>
        if 10 < Suc ctr then (ob', 0, lat')
        else if fst (get_overlap cv ob') then grav_inner cfg cv ob' (Suc ctr) lat'
        else (ob', Suc ctr, lat'))"
  by pat_completeness auto
termination
  by (relation "measure (\<lambda>(cfg, cv, ob, ctr, lat). 11 - ctr)") auto

text \<open>\<^verbatim>\<open>ws_bag[tuple(pt)] > 0\<close>, or \<open>None\<close> when numpy raises \<open>IndexError\<close>.\<close>

definition cell_pos :: "grid \<Rightarrow> pose \<Rightarrow> bool option" where
  "cell_pos g c = (case (py_idx (fst c) (nrows g), py_idx (snd c) (ncols g)) of
                     (Some i, Some j) \<Rightarrow> Some (0 < px g i j) | _ \<Rightarrow> None)"

text \<open>\<^verbatim>\<open>COLL_FLAG = ws[pt0] > 0 or ws[pt1] > 0\<close> inside \<^verbatim>\<open>try: ... except: pass\<close>: an
  exception leaves the previous value, \<open>None\<close> while the name is unbound. The points are
  \<^verbatim>\<open>bag_obj.curve_pts\<close> as stored, in the raster's own frame.\<close>

definition sheet_coll :: "grid \<Rightarrow> pose \<times> pose \<Rightarrow> bool option \<Rightarrow> bool option" where
  "sheet_coll g cp prev =
     (case cell_pos g (fst cp) of
        None \<Rightarrow> prev
      | Some True \<Rightarrow> Some True
      | Some False \<Rightarrow> (case cell_pos g (snd cp) of None \<Rightarrow> prev | Some c \<Rightarrow> Some c))"

text \<open>\<^verbatim>\<open>ground_diff = max(x_dist - ground_y)\<close>, at least 0, subtracted from each end point
  that lies below the floor.\<close>

definition sheet_lift :: "int \<Rightarrow> obj2d \<Rightarrow> obj2d" where
  "sheet_lift gy ob =
     (let a = fst (curve_pts ob); b = snd (curve_pts ob);
          x0 = fst (pose ob) + fst a; x1 = fst (pose ob) + fst b;
          gd = max 0 (max (x0 - gy) (x1 - gy));
          a' = (if gy < x0 then (fst a - gd, snd a) else a);
          b' = (if gy < x1 then (fst b - gd, snd b) else b)
      in ob\<lparr>curve_pts := (a', b')\<rparr>)"

text \<open>The end of the sheet branch: lift, \<^verbatim>\<open>generate_sheet_curve\<close>, \<^verbatim>\<open>inflate_sheet\<close>, commit.\<close>

definition sheet_settle :: "bag_cfg \<Rightarrow> canvas \<Rightarrow> obj2d \<Rightarrow> py_exc + canvas \<times> obj2d" where
  "sheet_settle cfg cv ob =
     (case generate_sheet_curve cfg cv (sheet_lift (grav_ground cfg) ob) of
        Inl e \<Rightarrow> Inl e
      | Inr ob1 \<Rightarrow> (let ob2 = inflate_sheet cv ob1 in Inr (place_object_in_bag cv ob2, ob2)))"

text \<open>One step of \<^verbatim>\<open>while drop_ctr < 50\<close> per unit of fuel. The flags \<^verbatim>\<open>osc_cond\<close> and
  \<^verbatim>\<open>LATERAL_OSC_FLAG\<close> are reset at the top of each step; the result is the canvas (the floor
  branch commits), the object and the final flag.\<close>

fun grav_loop :: "nat \<Rightarrow> bag_cfg \<Rightarrow> int \<Rightarrow> canvas \<Rightarrow> obj2d \<Rightarrow> nat \<Rightarrow> bool \<Rightarrow> bool option \<Rightarrow>
                  py_exc + canvas \<times> obj2d \<times> bool" where
  "grav_loop 0 cfg z cv ob ctr lat coll = Inr (cv, ob, lat)"
| "grav_loop (Suc n) cfg z cv ob ctr lat coll =
     (let prev = pose ob; ob1 = ob\<lparr>pose := (fst prev + z, snd prev)\<rparr>; gy = grav_ground cfg in
      if shape ob = Sheet then
        (let sg = (gy \<le> fst (pose ob1) + fst (fst (curve_pts ob1)) \<or> gy \<le> fst (pose ob1) + fst (snd (curve_pts ob1)));
             coll' = sheet_coll (bag cv) (curve_pts ob1) coll in
         if sg then (case sheet_settle cfg cv ob1 of Inl e \<Rightarrow> Inl e | Inr (cv', ob') \<Rightarrow> Inr (cv', ob', False))
         else (case coll' of
                 None \<Rightarrow> Inl NameError
               | Some True \<Rightarrow> (case sheet_settle cfg cv ob1 of Inl e \<Rightarrow> Inl e | Inr (cv', ob') \<Rightarrow> Inr (cv', ob', False))
               | Some False \<Rightarrow> grav_loop n cfg z cv ob1 ctr False coll'))
      else if gy \<le> fst (pose ob1) + fst (dim ob1) then
        (let ob2 = ob1\<lparr>pose := (gy - fst (dim ob1), snd (pose ob1))\<rparr> in
         if fst (get_overlap cv ob2) then
           (case resolve_overlap cfg cv ob2 False True False of
              (ob3, lat3) \<Rightarrow> Inr (place_object_in_bag cv ob3, ob3, lat3))
         else Inr (cv, ob2, False))
      else if fst (get_overlap cv ob1) then
        (case grav_inner cfg cv ob1 ctr False of
           (ob3, ctr3, lat3) \<Rightarrow>
             if pose ob3 = prev \<or> lat3 then Inr (cv, ob3, lat3)
             else grav_loop n cfg z cv ob3 ctr3 lat3 coll)
      else grav_loop n cfg z cv ob1 ctr False coll)"

text \<open>The whole rule: the loop from \<^verbatim>\<open>ol_ctr = 0\<close> and an unbound \<^verbatim>\<open>COLL_FLAG\<close>, then the
  clamp and the commit that follow the loop in every case.\<close>

definition run_shape_grammar_overlap_and_gravity ::
  "bag_cfg \<Rightarrow> int \<Rightarrow> canvas \<Rightarrow> obj2d \<Rightarrow> bool \<Rightarrow> py_exc + canvas \<times> obj2d \<times> bool" where
  "run_shape_grammar_overlap_and_gravity cfg z cv ob lat =
     (case grav_loop 50 cfg z cv ob 0 lat None of
        Inl e \<Rightarrow> Inl e
      | Inr (cv', ob', lat') \<Rightarrow> (let ob'' = adjust_for_boundaries cfg ob' in
                                 Inr (place_object_in_bag cv' ob'', ob'', lat')))"

subsection \<open>Lemmas\<close>

lemma grav_inner_ctr: "fst (snd (grav_inner cfg cv ob ctr lat)) \<le> 10"
proof (induction cfg cv ob ctr lat rule: grav_inner.induct)
  case (1 cfg cv ob ctr lat)
  show ?case
  proof (cases "resolve_overlap cfg cv ob True True lat")
    case (Pair ob' lat')
    with "1.IH" [OF Pair [symmetric]] show ?thesis
      by (subst grav_inner.simps) (auto simp del: grav_inner.simps)
  qed
qed

lemma pose_update_twice [simp]: "ob\<lparr>pose := a\<rparr>\<lparr>pose := b\<rparr> = ob\<lparr>pose := b\<rparr>"
  by simp

lemma zeros_no_overlap: "\<not> fst (get_overlap \<lparr>bag = zeros m n, boundary = b\<rparr> ob)"
  by (simp add: get_overlap_iff set_where_px zeros_def)

text \<open>A solid object over a column free of material falls until a step takes it to the
  floor, where it is snapped exactly onto it.\<close>

lemma grav_loop_free_fall:
  assumes "shape ob \<noteq> Sheet"
    and "\<forall>r. \<not> fst (get_overlap cv (ob\<lparr>pose := (r, snd (pose ob))\<rparr>))"
    and "fst (pose ob) + fst (dim ob) < grav_ground cfg"
    and "grav_ground cfg \<le> fst (pose ob) + int n * z + fst (dim ob)"
  shows "grav_loop n cfg z cv ob ctr lat coll =
           Inr (cv, ob\<lparr>pose := (grav_ground cfg - fst (dim ob), snd (pose ob))\<rparr>, False)"
  using assms
proof (induction n arbitrary: ob ctr lat coll)
  case 0
  then show ?case by simp
next
  case (Suc n)
  let ?ob1 = "ob\<lparr>pose := (fst (pose ob) + z, snd (pose ob))\<rparr>"
  have free1: "\<not> fst (get_overlap cv ?ob1)" using Suc.prems(2) by simp
  show ?case
  proof (cases "grav_ground cfg \<le> fst (pose ?ob1) + fst (dim ?ob1)")
    case True
    have "\<not> fst (get_overlap cv (ob\<lparr>pose := (grav_ground cfg - fst (dim ob), snd (pose ob))\<rparr>))"
      using Suc.prems(2) by simp
    with True Suc.prems(1) show ?thesis by (simp add: Let_def)
  next
    case False
    have "grav_loop n cfg z cv ?ob1 ctr False coll =
            Inr (cv, ?ob1\<lparr>pose := (grav_ground cfg - fst (dim ?ob1), snd (pose ?ob1))\<rparr>, False)"
      by (rule Suc.IH) (use Suc.prems False in \<open>simp_all add: algebra_simps\<close>)
    with False free1 Suc.prems(1) show ?thesis by (simp add: Let_def)
  qed
qed

text \<open>The clamp's lower row bound is the gravity floor, and an object resting on it keeps
  its bottom row through the four trims.\<close>

lemma grav_ground_bound: "adj_bounds cfg = ((l0, l1), (u0, u1)) \<Longrightarrow> u0 = grav_ground cfg"
  by (auto simp: adj_bounds_def grav_ground_def split: option.splits)

lemma adjust_keeps_floor:
  assumes "adj_bounds cfg = ((l0, l1), (u0, u1))" "fst (pose ob) + fst (dim ob) = u0"
  shows "fst (pose (adjust_for_boundaries cfg ob)) + fst (dim (adjust_for_boundaries cfg ob)) = u0"
proof -
  let ?a = "adj_row_low l0 ob"
  have a: "fst (pose ?a) + fst (dim ?a) = u0"
    using assms(2) by (auto simp: adj_row_low_def Let_def)
  then have "fst (pose (adj_row_high u0 ?a)) + fst (dim (adj_row_high u0 ?a)) = u0"
    by (auto simp: adj_row_high_def Let_def)
  then show ?thesis using assms(1) by (simp add: adjust_for_boundaries_def adj_steps_pose_dim)
qed

text \<open>With a bag mask the two rules disagree on the floor: the resolver stops at
  \<^verbatim>\<open>size//2 + bb_h\<close>, gravity at \<^verbatim>\<open>size//2 + extents[0]//2\<close>.\<close>

lemma ground_mismatch:
  "extents cfg = Some (e0, e1) \<Longrightarrow> grav_ground cfg = res_ground cfg + (e0 div 2 - bb_h cfg)"
  by (simp add: grav_ground_def res_ground_def)

subsection \<open>Properties of the gravity rule\<close>

text \<open>C6: a solid object dropped over a column where it overlaps nothing at any height, and
  that can reach the floor within the 50 steps, comes to rest with its bottom row exactly
  on the floor row (pose plus height equals the floor), also after the clamp, and without
  the oscillation flag.\<close>

theorem gravity_rests_on_floor:
  assumes "shape ob \<noteq> Sheet"
    and "\<forall>r. \<not> fst (get_overlap cv (ob\<lparr>pose := (r, snd (pose ob))\<rparr>))"
    and "fst (pose ob) + fst (dim ob) < grav_ground cfg"
    and "grav_ground cfg \<le> fst (pose ob) + 50 * z + fst (dim ob)"
  shows "case run_shape_grammar_overlap_and_gravity cfg z cv ob lat of
           Inl e \<Rightarrow> False
         | Inr (cv', ob', lat') \<Rightarrow> fst (pose ob') + fst (dim ob') = grav_ground cfg \<and> \<not> lat'"
proof -
  obtain l0 l1 u0 u1 where b: "adj_bounds cfg = ((l0, l1), (u0, u1))" by (metis prod.collapse)
  let ?ob = "ob\<lparr>pose := (grav_ground cfg - fst (dim ob), snd (pose ob))\<rparr>"
  have "grav_loop 50 cfg z cv ob 0 lat None = Inr (cv, ?ob, False)"
    by (rule grav_loop_free_fall) (use assms in simp_all)
  moreover have "fst (pose (adjust_for_boundaries cfg ?ob)) + fst (dim (adjust_for_boundaries cfg ?ob)) = u0"
    by (rule adjust_keeps_floor [OF b]) (simp add: grav_ground_bound [OF b])
  ultimately show ?thesis using grav_ground_bound [OF b]
    by (simp add: run_shape_grammar_overlap_and_gravity_def Let_def)
qed

theorem gravity_rests_on_floor_witness:
  "case run_shape_grammar_overlap_and_gravity \<lparr>size = 20, bb_h = 8, extents = None\<rparr> 3
          \<lparr>bag = zeros 20 20, boundary = zeros 20 20\<rparr>
          \<lparr>shape = Box, label = 4, data = grid_of_list [[4, 4], [4, 4]], dim = (2, 2), pose = (2, 6),
           curve_pts = ((0, 0), (0, 0)), thick = 0, lqd = None\<rparr> False of
     Inl e \<Rightarrow> False | Inr (cv', ob', lat') \<Rightarrow> fst (pose ob') + fst (dim ob') = 18 \<and> \<not> lat'"
proof -
  have g: "grav_ground \<lparr>size = 20, bb_h = 8, extents = None\<rparr> = 18" by (simp add: grav_ground_def)
  have "case run_shape_grammar_overlap_and_gravity \<lparr>size = 20, bb_h = 8, extents = None\<rparr> 3
          \<lparr>bag = zeros 20 20, boundary = zeros 20 20\<rparr>
          \<lparr>shape = Box, label = 4, data = grid_of_list [[4, 4], [4, 4]], dim = (2, 2), pose = (2, 6),
           curve_pts = ((0, 0), (0, 0)), thick = 0, lqd = None\<rparr> False of
     Inl e \<Rightarrow> False
   | Inr (cv', ob', lat') \<Rightarrow> fst (pose ob') + fst (dim ob') = grav_ground \<lparr>size = 20, bb_h = 8, extents = None\<rparr> \<and> \<not> lat'"
    by (rule gravity_rests_on_floor) (simp_all add: zeros_no_overlap g)
  then show ?thesis unfolding g .
qed

text \<open>C13: when the first step takes a solid object to the floor and the snapped object
  overlaps, the object is committed twice: once as the resolver left it, unclamped, and
  again after the clamp.\<close>

theorem gravity_ground_overlap_commits_twice:
  assumes "shape ob \<noteq> Sheet"
    and "grav_ground cfg \<le> fst (pose ob) + z + fst (dim ob)"
    and "fst (get_overlap cv (ob\<lparr>pose := (grav_ground cfg - fst (dim ob), snd (pose ob))\<rparr>))"
  shows "run_shape_grammar_overlap_and_gravity cfg z cv ob lat =
           (case resolve_overlap cfg cv (ob\<lparr>pose := (grav_ground cfg - fst (dim ob), snd (pose ob))\<rparr>) False True False of
              (ob3, lat3) \<Rightarrow> Inr (place_object_in_bag (place_object_in_bag cv ob3) (adjust_for_boundaries cfg ob3),
                                  adjust_for_boundaries cfg ob3, lat3))"
proof -
  have "grav_loop 50 cfg z cv ob 0 lat None =
          (case resolve_overlap cfg cv (ob\<lparr>pose := (grav_ground cfg - fst (dim ob), snd (pose ob))\<rparr>) False True False of
             (ob3, lat3) \<Rightarrow> Inr (place_object_in_bag cv ob3, ob3, lat3))"
    using assms by (simp add: numeral_eq_Suc Let_def)
  then show ?thesis by (simp add: run_shape_grammar_overlap_and_gravity_def Let_def split: prod.splits)
qed

theorem gravity_ground_overlap_commits_twice_witness:
  "fst (get_overlap \<lparr>bag = grid_of_list (replicate 17 (replicate 8 0) @ [[0, 0, 0, 0, 0, 9, 0, 0]] @ replicate 2 (replicate 8 0)),
                     boundary = zeros 20 8\<rparr>
     \<lparr>shape = Box, label = 4, data = grid_of_list [[4], [4]], dim = (2, 1), pose = (16, 5),
      curve_pts = ((0, 0), (0, 0)), thick = 0, lqd = None\<rparr>) \<and>
   run_shape_grammar_overlap_and_gravity \<lparr>size = 20, bb_h = 8, extents = None\<rparr> 3
     \<lparr>bag = grid_of_list (replicate 17 (replicate 8 0) @ [[0, 0, 0, 0, 0, 9, 0, 0]] @ replicate 2 (replicate 8 0)),
      boundary = zeros 20 8\<rparr>
     \<lparr>shape = Box, label = 4, data = grid_of_list [[4], [4]], dim = (2, 1), pose = (15, 5),
      curve_pts = ((0, 0), (0, 0)), thick = 0, lqd = None\<rparr> False =
   (case resolve_overlap \<lparr>size = 20, bb_h = 8, extents = None\<rparr>
     \<lparr>bag = grid_of_list (replicate 17 (replicate 8 0) @ [[0, 0, 0, 0, 0, 9, 0, 0]] @ replicate 2 (replicate 8 0)),
      boundary = zeros 20 8\<rparr>
     \<lparr>shape = Box, label = 4, data = grid_of_list [[4], [4]], dim = (2, 1), pose = (16, 5),
      curve_pts = ((0, 0), (0, 0)), thick = 0, lqd = None\<rparr> False True False of
    (ob3, lat3) \<Rightarrow> Inr (place_object_in_bag (place_object_in_bag
      \<lparr>bag = grid_of_list (replicate 17 (replicate 8 0) @ [[0, 0, 0, 0, 0, 9, 0, 0]] @ replicate 2 (replicate 8 0)),
       boundary = zeros 20 8\<rparr> ob3) (adjust_for_boundaries \<lparr>size = 20, bb_h = 8, extents = None\<rparr> ob3),
      adjust_for_boundaries \<lparr>size = 20, bb_h = 8, extents = None\<rparr> ob3, lat3))"
  (is "?h \<and> ?c")
proof -
  have h: ?h by code_simp
  have g: "grav_ground \<lparr>size = 20, bb_h = 8, extents = None\<rparr> = 18" by (simp add: grav_ground_def)
  from gravity_ground_overlap_commits_twice [of "\<lparr>shape = Box, label = 4, data = grid_of_list [[4], [4]], dim = (2, 1),
      pose = (15, 5), curve_pts = ((0, 0), (0, 0)), thick = 0, lqd = None\<rparr>"
      "\<lparr>size = 20, bb_h = 8, extents = None\<rparr>" 3] h g
  show ?thesis by simp
qed

text \<open>C18: the sheet collision test reads the canvas at the sheet's raster-relative end points,
  without the pose: whenever the canvas cell at those coordinates is occupied, a sheet still
  above the floor is fitted and committed on its very next step, wherever it is.\<close>

theorem gravity_sheet_collision_frame:
  assumes "shape ob = Sheet"
    and "fst (pose ob) + z + fst (fst (curve_pts ob)) < grav_ground cfg"
    and "fst (pose ob) + z + fst (snd (curve_pts ob)) < grav_ground cfg"
    and "cell_pos (bag cv) (fst (curve_pts ob)) = Some True"
  shows "grav_loop (Suc n) cfg z cv ob ctr lat coll =
           (case sheet_settle cfg cv (ob\<lparr>pose := (fst (pose ob) + z, snd (pose ob))\<rparr>) of
              Inl e \<Rightarrow> Inl e | Inr (cv', ob') \<Rightarrow> Inr (cv', ob', False))"
  using assms by (simp add: Let_def sheet_coll_def)

theorem gravity_sheet_collision_frame_witness:
  "cell_pos (bag \<lparr>bag = \<lparr>nrows = 12, ncols = 12, px = (\<lambda>i j. if i = 0 \<and> j = 0 then 3 else 0)\<rparr>, boundary = zeros 12 12\<rparr>)
     (0, 0) = Some True \<and>
   grav_loop 50 \<lparr>size = 12, bb_h = 4, extents = None\<rparr> 3
     \<lparr>bag = \<lparr>nrows = 12, ncols = 12, px = (\<lambda>i j. if i = 0 \<and> j = 0 then 3 else 0)\<rparr>, boundary = zeros 12 12\<rparr>
     \<lparr>shape = Sheet, label = 6, data = grid_of_list [[1, 1, 1, 1]], dim = (1, 4), pose = (1, 2),
      curve_pts = ((0, 0), (0, 3)), thick = 0, lqd = None\<rparr> 0 False None =
   (case sheet_settle \<lparr>size = 12, bb_h = 4, extents = None\<rparr>
     \<lparr>bag = \<lparr>nrows = 12, ncols = 12, px = (\<lambda>i j. if i = 0 \<and> j = 0 then 3 else 0)\<rparr>, boundary = zeros 12 12\<rparr>
     \<lparr>shape = Sheet, label = 6, data = grid_of_list [[1, 1, 1, 1]], dim = (1, 4), pose = (4, 2),
      curve_pts = ((0, 0), (0, 3)), thick = 0, lqd = None\<rparr> of
    Inl e \<Rightarrow> Inl e | Inr (cv', ob') \<Rightarrow> Inr (cv', ob', False))"
proof -
  have c: "cell_pos (bag \<lparr>bag = \<lparr>nrows = 12, ncols = 12, px = (\<lambda>i j. if i = 0 \<and> j = 0 then 3 else 0)\<rparr>,
      boundary = zeros 12 12\<rparr>) (0, 0) = Some True"
    by (simp add: cell_pos_def py_idx_def)
  have "grav_loop (Suc 49) \<lparr>size = 12, bb_h = 4, extents = None\<rparr> 3
     \<lparr>bag = \<lparr>nrows = 12, ncols = 12, px = (\<lambda>i j. if i = 0 \<and> j = 0 then 3 else 0)\<rparr>, boundary = zeros 12 12\<rparr>
     \<lparr>shape = Sheet, label = 6, data = grid_of_list [[1, 1, 1, 1]], dim = (1, 4), pose = (1, 2),
      curve_pts = ((0, 0), (0, 3)), thick = 0, lqd = None\<rparr> 0 False None =
   (case sheet_settle \<lparr>size = 12, bb_h = 4, extents = None\<rparr>
     \<lparr>bag = \<lparr>nrows = 12, ncols = 12, px = (\<lambda>i j. if i = 0 \<and> j = 0 then 3 else 0)\<rparr>, boundary = zeros 12 12\<rparr>
     \<lparr>shape = Sheet, label = 6, data = grid_of_list [[1, 1, 1, 1]], dim = (1, 4), pose = (4, 2),
      curve_pts = ((0, 0), (0, 3)), thick = 0, lqd = None\<rparr> of
    Inl e \<Rightarrow> Inl e | Inr (cv', ob') \<Rightarrow> Inr (cv', ob', False))"
    by (rule trans [OF gravity_sheet_collision_frame]) (use c in \<open>simp_all add: grav_ground_def\<close>)
  with c show ?thesis by (simp add: numeral_eq_Suc)
qed

text \<open>C19: a sheet above the floor whose first collision read raises \<open>IndexError\<close> on the
  first step, while \<^verbatim>\<open>COLL_FLAG\<close> has never been assigned, makes the rule fail with
  \<open>NameError\<close>: the bare \<^verbatim>\<open>except: pass\<close> leaves the name unbound.\<close>

theorem gravity_sheet_unbound_flag:
  assumes "shape ob = Sheet"
    and "fst (pose ob) + z + fst (fst (curve_pts ob)) < grav_ground cfg"
    and "fst (pose ob) + z + fst (snd (curve_pts ob)) < grav_ground cfg"
    and "cell_pos (bag cv) (fst (curve_pts ob)) = None"
  shows "grav_loop (Suc n) cfg z cv ob ctr lat None = Inl NameError"
  using assms by (simp add: Let_def sheet_coll_def)

theorem gravity_sheet_unbound_flag_witness:
  "cell_pos (zeros 4 4) (0, 9) = None \<and>
   run_shape_grammar_overlap_and_gravity \<lparr>size = 12, bb_h = 4, extents = None\<rparr> 3
     \<lparr>bag = zeros 4 4, boundary = zeros 4 4\<rparr>
     \<lparr>shape = Sheet, label = 6, data = zeros 1 10, dim = (1, 10), pose = (1, 2),
      curve_pts = ((0, 9), (0, 0)), thick = 0, lqd = None\<rparr> False = Inl NameError"
proof -
  have c: "cell_pos (zeros 4 4) (0, 9) = None" by (simp add: cell_pos_def py_idx_def zeros_def)
  have "grav_loop (Suc 49) \<lparr>size = 12, bb_h = 4, extents = None\<rparr> 3 \<lparr>bag = zeros 4 4, boundary = zeros 4 4\<rparr>
     \<lparr>shape = Sheet, label = 6, data = zeros 1 10, dim = (1, 10), pose = (1, 2),
      curve_pts = ((0, 9), (0, 0)), thick = 0, lqd = None\<rparr> 0 False None = Inl NameError"
    by (rule gravity_sheet_unbound_flag) (use c in \<open>simp_all add: grav_ground_def\<close>)
  with c show ?thesis by (simp add: run_shape_grammar_overlap_and_gravity_def numeral_eq_Suc)
qed

end
