(* ===== verification/Liquid.thy ===== *)
theory Liquid
  imports Sheet
begin

text \<open>
  The liquid container rule \<^verbatim>\<open>Object2D.apply_liquid_container_rule\<close>. The binary
  footprint \<^verbatim>\<open>data // label\<close> is eroded by \<^verbatim>\<open>disk(cntr_thickness)\<close>
  (\<^verbatim>\<open>skimage.morphology.binary_erosion\<close>, which calls scipy with
  \<^verbatim>\<open>border_value=True\<close>: a disk point outside the raster does not erode); the
  eroded cavity is marked \<open>-1\<close>, and its cells from row \<^verbatim>\<open>e_fill\<close> down get the
  liquid label. Every failure inside the \<^verbatim>\<open>try\<close> (the reduction \<^verbatim>\<open>max()\<close> of an
  empty cavity, the missing attributes of an object without liquid parameters) is
  caught by \<^verbatim>\<open>except: pass\<close> before any write, so the fallible body
  \<open>liquid_fill\<close> returns an error value and the rule keeps the object unchanged.
  \<^verbatim>\<open>disk\<close> is read as \<^verbatim>\<open>skimage.morphology.disk\<close>, the structuring element; the
  star import of \<^verbatim>\<open>skimage.draw\<close> on the next line of the source rebinds the name
  to the rasteriser \<^verbatim>\<open>skimage.draw.disk(center, radius)\<close> in versions that export it,
  and that reading of the source is not modelled.
\<close>

subsection \<open>The rule\<close>

text \<open>\<^verbatim>\<open>binary_erosion(img, disk(r))\<close>: a cell stays when every disk point around it
  is outside the raster or foreground.\<close>

definition erode_disk :: "nat \<Rightarrow> grid \<Rightarrow> grid" where
  "erode_disk r g =
     g\<lparr>px := (\<lambda>i j. if list_all (\<lambda>(di, dj). \<not> (0 \<le> int i + di \<and> int i + di < int (nrows g) \<and>
                                            0 \<le> int j + dj \<and> int j + dj < int (ncols g)) \<or>
                                       px g (nat (int i + di)) (nat (int j + dj)) \<noteq> 0) (disk_offsets r)
                    then 1 else 0)\<rparr>"

text \<open>\<^verbatim>\<open>bin_data = self.data.copy()//self.label\<close> and its erosion.\<close>

definition lqd_cavity :: "lqd_param \<Rightarrow> obj2d \<Rightarrow> grid" where
  "lqd_cavity lp ob = erode_disk (cntr_thickness lp) (gmap (\<lambda>v. v div label ob) (data ob))"

text \<open>\<^verbatim>\<open>e_fill = int((1 - self.lqd_level) * (e_row.max() - e_row.min()))\<close> on the
  cavity's rows.\<close>

definition fill_line :: "lqd_param \<Rightarrow> nat list \<Rightarrow> int" where
  "fill_line lp rows = py_int ((1 - lqd_level lp) * of_int (int (Max (set rows)) - int (Min (set rows))))"

text \<open>The body of the \<^verbatim>\<open>try\<close>: \<^verbatim>\<open>e_fill_img[:e_fill, :] = 0\<close>, then the cavity
  is set to \<open>-1\<close> and the part of it below the fill line to \<^verbatim>\<open>lqd_label\<close>.\<close>

definition liquid_fill :: "lqd_param \<Rightarrow> obj2d \<Rightarrow> py_exc + obj2d" where
  "liquid_fill lp ob =
     (let er = lqd_cavity lp ob; rows = map fst (nz_pixels er) in
      if rows = [] then Inl ValueError
      else
        (let e_fill = fill_line lp rows;
             ef = er\<lparr>px := (\<lambda>i j. if i < py_bound e_fill (nrows er) then 0 else px er i j)\<rparr>;
             d1 = set_where (data ob) er (- 1)
         in Inr (ob\<lparr>data := set_where d1 ef (lqd_label lp)\<rparr>)))"

text \<open>The method: the attributes exist only when \<^verbatim>\<open>lqd_flag\<close> is set; any exception
  leaves the object as it was.\<close>

definition apply_liquid_container_rule :: "obj2d \<Rightarrow> obj2d" where
  "apply_liquid_container_rule ob =
     (case lqd ob of
        None \<Rightarrow> ob
      | Some lp \<Rightarrow> (case liquid_fill lp ob of Inl e \<Rightarrow> ob | Inr ob' \<Rightarrow> ob'))"

subsection \<open>Erosion and the fill\<close>

lemma zero_in_disk: "(0, 0) \<in> set (disk_offsets r)"
  by (auto simp: disk_offsets_def)

lemma erode_disk_shape [grid_simps]:
  "nrows (erode_disk r g) = nrows g" "ncols (erode_disk r g) = ncols g"
  by (simp_all add: erode_disk_def)

text \<open>The cavity lies inside the footprint.\<close>

lemma erode_disk_sub:
  assumes "px (erode_disk r g) i j \<noteq> 0" "i < nrows g" "j < ncols g"
  shows "px g i j \<noteq> 0"
proof -
  from assms(1) have "list_all (\<lambda>(di, dj). \<not> (0 \<le> int i + di \<and> int i + di < int (nrows g) \<and>
      0 \<le> int j + dj \<and> int j + dj < int (ncols g)) \<or> px g (nat (int i + di)) (nat (int j + dj)) \<noteq> 0)
      (disk_offsets r)"
    by (simp add: erode_disk_def split: if_splits)
  with zero_in_disk [of r] assms(2,3) show ?thesis by (fastforce simp: list_all_iff)
qed

lemma liquid_fill_Inr:
  "liquid_fill lp ob = Inr ob' \<longleftrightarrow>
     nz_pixels (lqd_cavity lp ob) \<noteq> [] \<and>
     ob' = ob\<lparr>data := set_where (set_where (data ob) (lqd_cavity lp ob) (- 1))
                 ((lqd_cavity lp ob)\<lparr>px := (\<lambda>i j. if i < py_bound (fill_line lp (map fst (nz_pixels (lqd_cavity lp ob))))
                                                  (nrows (lqd_cavity lp ob)) then 0
                                              else px (lqd_cavity lp ob) i j)\<rparr>) (lqd_label lp)\<rparr>"
  by (auto simp: liquid_fill_def Let_def)

lemma liquid_fill_Inl: "liquid_fill lp ob = Inl e \<longleftrightarrow> nz_pixels (lqd_cavity lp ob) = [] \<and> e = ValueError"
  by (auto simp: liquid_fill_def Let_def)

lemma lqd_cavity_shape [grid_simps]:
  "nrows (lqd_cavity lp ob) = nrows (data ob)" "ncols (lqd_cavity lp ob) = ncols (data ob)"
  by (simp_all add: lqd_cavity_def erode_disk_shape gmap_shape)

lemma liquid_fill_px:
  assumes "liquid_fill lp ob = Inr ob'" "i < nrows (data ob)" "j < ncols (data ob)"
  shows "px (data ob') i j =
           (if px (lqd_cavity lp ob) i j \<noteq> 0
            then (if i < py_bound (fill_line lp (map fst (nz_pixels (lqd_cavity lp ob)))) (nrows (data ob))
                  then - 1 else lqd_label lp)
            else px (data ob) i j)"
  using assms by (auto simp: liquid_fill_Inr set_where_px in_shape_def lqd_cavity_shape)

lemma fill_line_bounds:
  assumes "0 \<le> lqd_level lp" "lqd_level lp \<le> 1" "rows \<noteq> []"
  shows "0 \<le> fill_line lp rows \<and> fill_line lp rows \<le> int (Max (set rows)) - int (Min (set rows))"
proof -
  let ?d = "int (Max (set rows)) - int (Min (set rows))"
  from assms(3) have "0 \<le> ?d" by simp
  then have "0 \<le> (1 - lqd_level lp) * of_int ?d" using assms(2) by simp
  moreover have "(1 - lqd_level lp) * of_int ?d \<le> 1 * of_int ?d"
    using assms(1) \<open>0 \<le> ?d\<close> by (intro mult_right_mono) simp_all
  ultimately show ?thesis
    by (simp add: fill_line_def py_int_def floor_le_iff)
qed

lemma liquid_rule_Some:
  "lqd ob = Some lp \<Longrightarrow> nz_pixels (lqd_cavity lp ob) \<noteq> [] \<Longrightarrow>
   liquid_fill lp ob = Inr (apply_liquid_container_rule ob)"
  by (cases "liquid_fill lp ob") (auto simp: apply_liquid_container_rule_def liquid_fill_Inl)

lemma cavity_nz:
  "px (lqd_cavity lp ob) i j \<noteq> 0 \<Longrightarrow> i < nrows (data ob) \<Longrightarrow> j < ncols (data ob) \<Longrightarrow>
   (i, j) \<in> set (nz_pixels (lqd_cavity lp ob))"
  by (simp add: set_nz_pixels lqd_cavity_shape)

text \<open>Every disk point lies within \<open>r\<close> of the centre on both axes, so a cell
  whose disk stays inside a foreground block is kept by the erosion.\<close>

lemma disk_offsets_range: "(di, dj) \<in> set (disk_offsets r) \<Longrightarrow> di \<le> int r \<and> dj \<le> int r"
  by (auto simp: disk_offsets_def)

lemma erode_disk_block:
  assumes "\<forall>i<h. \<forall>j<w. px g i j \<noteq> 0" "h \<le> nrows g" "w \<le> ncols g" "i + r < h" "j + r < w"
  shows "px (erode_disk r g) i j \<noteq> 0"
proof -
  have "\<not> (0 \<le> int i + di \<and> int i + di < int (nrows g) \<and> 0 \<le> int j + dj \<and> int j + dj < int (ncols g)) \<or>
        px g (nat (int i + di)) (nat (int j + dj)) \<noteq> 0" if "(di, dj) \<in> set (disk_offsets r)" for di dj
  proof (cases "0 \<le> int i + di \<and> 0 \<le> int j + dj")
    case True
    from disk_offsets_range [OF that] assms(4,5) have "nat (int i + di) < h" "nat (int j + dj) < w" by linarith+
    with assms(1) show ?thesis by blast
  qed auto
  then show ?thesis by (auto simp: erode_disk_def list_all_iff)
qed

subsection \<open>Properties of the liquid rule\<close>

text \<open>C25: For any fill level in [0, 1], every cavity cell in the cavity's bottom row gets the liquid label:
  the fill line \<^verbatim>\<open>int((1 - lqd_level) * (e_row.max() - e_row.min()))\<close> is a row index from
  the top of the raster, at most the cavity's span, so even a container at level 0 holds liquid.\<close>

theorem liquid_bottom_row:
  assumes "lqd ob = Some lp" "0 \<le> lqd_level lp" "lqd_level lp \<le> 1"
    and "px (lqd_cavity lp ob) i j \<noteq> 0" "i < nrows (data ob)" "j < ncols (data ob)"
    and "i = Max (set (map fst (nz_pixels (lqd_cavity lp ob))))"
  shows "px (data (apply_liquid_container_rule ob)) i j = lqd_label lp"
proof -
  let ?rows = "map fst (nz_pixels (lqd_cavity lp ob))"
  from cavity_nz [OF assms(4-6)] have ne: "?rows \<noteq> []" "nz_pixels (lqd_cavity lp ob) \<noteq> []" by auto
  from fill_line_bounds [OF assms(2,3) ne(1)] assms(7)
  have "0 \<le> fill_line lp ?rows" "fill_line lp ?rows \<le> int i" by linarith+
  then have "nat (fill_line lp ?rows) \<le> i" by (simp add: nat_le_iff)
  with \<open>0 \<le> fill_line lp ?rows\<close> have "\<not> i < py_bound (fill_line lp ?rows) (nrows (data ob))"
    by (simp add: py_bound_nonneg)
  with liquid_fill_px [OF liquid_rule_Some [OF assms(1) ne(2)] assms(5,6)] assms(4) show ?thesis by simp
qed

text \<open>At level 1 the fill line is row 0 and every cavity cell gets the liquid label.\<close>

theorem liquid_full_level:
  assumes "lqd ob = Some lp" "lqd_level lp = 1"
    and "px (lqd_cavity lp ob) i j \<noteq> 0" "i < nrows (data ob)" "j < ncols (data ob)"
  shows "px (data (apply_liquid_container_rule ob)) i j = lqd_label lp"
proof -
  from cavity_nz [OF assms(3-5)] have ne: "nz_pixels (lqd_cavity lp ob) \<noteq> []" by auto
  from liquid_fill_px [OF liquid_rule_Some [OF assms(1) ne] assms(4,5)] assms(2,3) show ?thesis
    by (simp add: fill_line_def py_int_def)
qed



text \<open>Level 0 on a 5 x 5 box with wall thickness 1: the bottom cavity row 3 is liquid.\<close>

theorem liquid_bottom_row_witness:
  "px (data (apply_liquid_container_rule
     \<lparr>shape = Box, label = 3, data = grid_of_list [[3, 3, 3, 3, 3, 0], [3, 3, 3, 3, 3, 0], [3, 3, 3, 3, 3, 0],
                                           [3, 3, 3, 3, 3, 0], [3, 3, 3, 3, 3, 0], [0, 0, 0, 0, 0, 0]],
      dim = (6, 6), pose = (0, 0), curve_pts = ((0, 0), (0, 0)), thick = 0,
      lqd = Some \<lparr>cntr_thickness = 1, lqd_level = 0, lqd_label = 7\<rparr>\<rparr>)) 3 0 = 7"
proof -
  let ?lp = "\<lparr>cntr_thickness = 1, lqd_level = 0 :: rat, lqd_label = 7\<rparr>"
  let ?ob = "\<lparr>shape = Box, label = 3, data = grid_of_list [[3, 3, 3, 3, 3, 0], [3, 3, 3, 3, 3, 0], [3, 3, 3, 3, 3, 0],
                                           [3, 3, 3, 3, 3, 0], [3, 3, 3, 3, 3, 0], [0, 0, 0, 0, 0, 0]],
      dim = (6, 6), pose = (0, 0), curve_pts = ((0, 0), (0, 0)), thick = 0,
      lqd = Some \<lparr>cntr_thickness = 1, lqd_level = 0, lqd_label = 7\<rparr>\<rparr>"
  have c: "px (lqd_cavity ?lp ?ob) 3 0 \<noteq> 0" by code_simp
  have m: "3 = Max (set (map fst (nz_pixels (lqd_cavity ?lp ?ob))))" by code_simp
  show ?thesis using liquid_bottom_row [OF _ _ _ c _ _ m] by (simp add: grid_of_list_def)
qed

theorem liquid_full_level_witness:
  "px (data (apply_liquid_container_rule
     \<lparr>shape = Box, label = 3, data = grid_of_list [[3, 3, 3, 3, 3, 0], [3, 3, 3, 3, 3, 0], [3, 3, 3, 3, 3, 0],
                                           [3, 3, 3, 3, 3, 0], [3, 3, 3, 3, 3, 0], [0, 0, 0, 0, 0, 0]],
      dim = (6, 6), pose = (0, 0), curve_pts = ((0, 0), (0, 0)), thick = 0,
      lqd = Some \<lparr>cntr_thickness = 1, lqd_level = 1, lqd_label = 7\<rparr>\<rparr>)) 0 0 = 7"
proof -
  let ?lp = "\<lparr>cntr_thickness = 1, lqd_level = 1 :: rat, lqd_label = 7\<rparr>"
  let ?ob = "\<lparr>shape = Box, label = 3, data = grid_of_list [[3, 3, 3, 3, 3, 0], [3, 3, 3, 3, 3, 0], [3, 3, 3, 3, 3, 0],
                                           [3, 3, 3, 3, 3, 0], [3, 3, 3, 3, 3, 0], [0, 0, 0, 0, 0, 0]],
      dim = (6, 6), pose = (0, 0), curve_pts = ((0, 0), (0, 0)), thick = 0,
      lqd = Some \<lparr>cntr_thickness = 1, lqd_level = 1, lqd_label = 7\<rparr>\<rparr>"
  have c: "px (lqd_cavity ?lp ?ob) 0 0 \<noteq> 0" by code_simp
  show ?thesis using liquid_full_level [OF _ _ c] by (simp add: grid_of_list_def)
qed

text \<open>C28: \<^verbatim>\<open>binary_erosion\<close> does not erode from outside the raster, and a rasterised
  container's foreground block starts at row 0 and column 0: for every wall thickness
  \<open>r\<close> and level, each cell \<open>(i, j)\<close> of the block with \<open>i + r\<close> and \<open>j + r\<close> inside it
  is cavity, so the top and left walls (\<open>i = 0\<close>, \<open>j = 0\<close>) become void (\<open>-1\<close>) or liquid.\<close>

theorem liquid_walls_open:
  assumes "lqd ob = Some lp" "label ob \<noteq> 0"
    and "h \<le> nrows (data ob)" "w \<le> ncols (data ob)" "\<forall>i<h. \<forall>j<w. px (data ob) i j = label ob"
    and "i + cntr_thickness lp < h" "j + cntr_thickness lp < w"
  shows "px (data (apply_liquid_container_rule ob)) i j \<in> {- 1, lqd_label lp}"
proof -
  let ?f = "gmap (\<lambda>v. v div label ob) (data ob)"
  have "\<forall>i<h. \<forall>j<w. px ?f i j \<noteq> 0" using assms(2,5) by (simp add: gmap_def)
  moreover have "h \<le> nrows ?f" "w \<le> ncols ?f" using assms(3,4) by (simp_all add: gmap_def)
  ultimately have c: "px (lqd_cavity lp ob) i j \<noteq> 0"
    unfolding lqd_cavity_def using erode_disk_block assms(6,7) by blast
  have ij: "i < nrows (data ob)" "j < ncols (data ob)" using assms(3,4,6,7) by linarith+
  from cavity_nz [OF c ij] have "nz_pixels (lqd_cavity lp ob) \<noteq> []" by auto
  from liquid_fill_px [OF liquid_rule_Some [OF assms(1) this] ij] c show ?thesis by simp
qed

theorem liquid_walls_open_witness:
  "px (data (apply_liquid_container_rule
     \<lparr>shape = Box, label = 3, data = grid_of_list [[3, 3, 3, 3, 3, 0], [3, 3, 3, 3, 3, 0], [3, 3, 3, 3, 3, 0],
                                           [3, 3, 3, 3, 3, 0], [3, 3, 3, 3, 3, 0], [0, 0, 0, 0, 0, 0]],
      dim = (6, 6), pose = (0, 0), curve_pts = ((0, 0), (0, 0)), thick = 0,
      lqd = Some \<lparr>cntr_thickness = 1, lqd_level = 0, lqd_label = 7\<rparr>\<rparr>)) 0 2 \<in> {- 1, 7}"
proof -
  let ?ob = "\<lparr>shape = Box, label = 3, data = grid_of_list [[3, 3, 3, 3, 3, 0], [3, 3, 3, 3, 3, 0], [3, 3, 3, 3, 3, 0],
                                           [3, 3, 3, 3, 3, 0], [3, 3, 3, 3, 3, 0], [0, 0, 0, 0, 0, 0]],
      dim = (6, 6), pose = (0, 0), curve_pts = ((0, 0), (0, 0)), thick = 0,
      lqd = Some \<lparr>cntr_thickness = 1, lqd_level = 0 :: rat, lqd_label = 7\<rparr>\<rparr>"
  have b: "\<forall>i<5. \<forall>j<5. px (data ?ob) i j = label ?ob"
    by (simp add: grid_of_list_def nth_Cons' less_Suc_eq)
  show ?thesis using liquid_walls_open [of ?ob _ 5 5 0 2] b by (simp add: grid_of_list_def)
qed

text \<open>C26: the liquid rule keeps the raster's shape and writes only inside the container's
  footprint \<^verbatim>\<open>data // label\<close>: every cell either keeps its value or is a footprint cell
  that became void (\<open>-1\<close>) or liquid; the background around the container is never
  filled.\<close>

theorem liquid_rule_in_footprint:
  assumes "lqd ob = Some lp"
  shows "nrows (data (apply_liquid_container_rule ob)) = nrows (data ob) \<and>
         ncols (data (apply_liquid_container_rule ob)) = ncols (data ob) \<and>
         (\<forall>i<nrows (data ob). \<forall>j<ncols (data ob).
            px (data (apply_liquid_container_rule ob)) i j = px (data ob) i j \<or>
            (px (data ob) i j div label ob \<noteq> 0 \<and>
             px (data (apply_liquid_container_rule ob)) i j \<in> {- 1, lqd_label lp}))"
proof (cases "liquid_fill lp ob")
  case (Inl e)
  then show ?thesis using assms by (simp add: apply_liquid_container_rule_def)
next
  case (Inr ob')
  have r: "apply_liquid_container_rule ob = ob'" using assms Inr by (simp add: apply_liquid_container_rule_def)
  have sh: "nrows (data ob') = nrows (data ob)" "ncols (data ob') = ncols (data ob)"
    using Inr by (auto simp: liquid_fill_Inr set_where_shape)
  have "px (data ob') i j = px (data ob) i j \<or>
        (px (data ob) i j div label ob \<noteq> 0 \<and> px (data ob') i j \<in> {- 1, lqd_label lp})"
    if ij: "i < nrows (data ob)" "j < ncols (data ob)" for i j
  proof (cases "px (lqd_cavity lp ob) i j \<noteq> 0")
    case True
    then have "px (gmap (\<lambda>v. v div label ob) (data ob)) i j \<noteq> 0"
      using erode_disk_sub [of "cntr_thickness lp" "gmap (\<lambda>v. v div label ob) (data ob)" i j] ij
      by (simp add: lqd_cavity_def gmap_shape)
    with liquid_fill_px [OF Inr ij] True show ?thesis by (simp add: gmap_def)
  next
    case False
    with liquid_fill_px [OF Inr ij] show ?thesis by simp
  qed
  with r sh show ?thesis by simp
qed

theorem liquid_rule_in_footprint_witness:
  "lqd \<lparr>shape = Box, label = 3, data = grid_of_list [[3, 3, 3, 3, 3, 0], [3, 3, 3, 3, 3, 0], [3, 3, 3, 3, 3, 0],
                                           [3, 3, 3, 3, 3, 0], [3, 3, 3, 3, 3, 0], [0, 0, 0, 0, 0, 0]],
      dim = (6, 6), pose = (0, 0), curve_pts = ((0, 0), (0, 0)), thick = 0,
      lqd = Some \<lparr>cntr_thickness = 1, lqd_level = 0, lqd_label = 7\<rparr>\<rparr> = Some \<lparr>cntr_thickness = 1, lqd_level = 0, lqd_label = 7\<rparr> \<and>
   nrows (data (apply_liquid_container_rule
     \<lparr>shape = Box, label = 3, data = grid_of_list [[3, 3, 3, 3, 3, 0], [3, 3, 3, 3, 3, 0], [3, 3, 3, 3, 3, 0],
                                           [3, 3, 3, 3, 3, 0], [3, 3, 3, 3, 3, 0], [0, 0, 0, 0, 0, 0]],
      dim = (6, 6), pose = (0, 0), curve_pts = ((0, 0), (0, 0)), thick = 0,
      lqd = Some \<lparr>cntr_thickness = 1, lqd_level = 0, lqd_label = 7\<rparr>\<rparr>)) = 6"
  using liquid_rule_in_footprint [of "\<lparr>shape = Box, label = 3, data = grid_of_list [[3, 3, 3, 3, 3, 0], [3, 3, 3, 3, 3, 0], [3, 3, 3, 3, 3, 0],
                                           [3, 3, 3, 3, 3, 0], [3, 3, 3, 3, 3, 0], [0, 0, 0, 0, 0, 0]],
      dim = (6, 6), pose = (0, 0), curve_pts = ((0, 0), (0, 0)), thick = 0,
      lqd = Some \<lparr>cntr_thickness = 1, lqd_level = 0, lqd_label = 7\<rparr>\<rparr>"]
  by (simp add: grid_of_list_def)

end
