(* ===== verification/Session.thy ===== *)
theory Session
  imports Gravity Liquid "HOL-Library.Multiset"
begin

text \<open>
  The slice session \<^verbatim>\<open>BaggageImage2D.create_baggage_image\<close> and the dispatch
  \<^verbatim>\<open>add_object\<close> it calls, with the container set-up of the constructor that
  prepares each plane. One plane of \<^verbatim>\<open>ws_bag\<close> and \<^verbatim>\<open>boundary\<close> is a
  \<open>canvas\<close>; the session runs one \<open>bag_slice\<close> per plane. The random choices
  of the code are inputs of the model: the draws \<^verbatim>\<open>np.random.rand()\<close> of the
  spawn columns as rationals in \<open>[0, 1)\<close>, and the order chosen by
  \<^verbatim>\<open>rdm.shuffle\<close> as a list of indices. \<^verbatim>\<open>ccfunc\<close> is \<^verbatim>\<open>copy.deepcopy\<close>: the
  model's objects are values, so the clone of each slice is the input list itself,
  and the in-place mutations of the placement rules are the updated objects each
  rule returns. The attribute \<^verbatim>\<open>self.LATERAL_OSC_FLAG\<close> survives from one
  object to the next and from one slice to the next; it is threaded through.
\<close>

subsection \<open>Container set-up\<close>

text \<open>\<^verbatim>\<open>a[p.nonzero()] = v\<close>: numpy raises \<open>IndexError\<close> for an index of \<open>p\<close>
  outside \<open>a\<close>.\<close>

definition mark_nz :: "grid \<Rightarrow> grid \<Rightarrow> int \<Rightarrow> py_exc + grid" where
  "mark_nz g p v =
     (if list_all (\<lambda>(i, j). i < nrows g \<and> j < ncols g) (nz_pixels p) then Inr (set_where g p v)
      else Inl IndexError)"

text \<open>Plane \<open>k\<close> of \<^verbatim>\<open>bag_bound\<close> when no bag template is given: the cube of half side
  \<^verbatim>\<open>bb_h + bb_t\<close> around the centre is set to 1, then the cube of half side
  \<^verbatim>\<open>bb_h\<close> is cleared; a plane meets each cube only when \<open>k\<close> lies in its slice range.
  The cells of a prior image are marked as well.\<close>

definition bound_plane :: "int \<Rightarrow> int \<Rightarrow> int \<Rightarrow> nat \<Rightarrow> grid option \<Rightarrow> py_exc + grid" where
  "bound_plane s h t k prior =
     (let lo1 = s div 2 - h - t; hi1 = s div 2 + h + t; lo0 = s div 2 - h; hi0 = s div 2 + h;
          n = nat s; z = zeros n n;
          g1 = (if py_bound lo1 n \<le> k \<and> k < py_bound hi1 n then fill_window z lo1 hi1 lo1 hi1 1 else z);
          g2 = (if py_bound lo0 n \<le> k \<and> k < py_bound hi0 n then fill_window g1 lo0 hi0 lo0 hi0 0 else g1)
      in case prior of None \<Rightarrow> Inr g2 | Some p \<Rightarrow> mark_nz g2 p 1)"

text \<open>The geometry fields and plane \<open>k\<close> of the two arrays: \<^verbatim>\<open>self.size\<close>,
  \<^verbatim>\<open>self.bb_h\<close>, \<^verbatim>\<open>ws_bag = bb_label * bag_bound\<close> with \<^verbatim>\<open>bb_label = 3\<close>,
  \<^verbatim>\<open>boundary = bag_bound\<close>.\<close>

definition container_setup :: "int \<times> int \<Rightarrow> int \<Rightarrow> nat \<Rightarrow> grid option \<Rightarrow> py_exc + bag_cfg \<times> canvas" where
  "container_setup bnd img2 k prior =
     (let h = fst bnd; t = snd bnd; s = max (2 * h + 2 * t) img2 in
      case bound_plane s h t k prior of
        Inl e \<Rightarrow> Inl e
      | Inr bb \<Rightarrow> Inr (\<lparr>size = s, bb_h = h, extents = None\<rparr>, \<lparr>bag = gmap (\<lambda>v. 3 * v) bb, boundary = bb\<rparr>))"

subsection \<open>\<^verbatim>\<open>add_object\<close>\<close>

text \<open>The three branches: gravity with \<^verbatim>\<open>z_inc = 50\<close>, the overlap rule with its
  defaults \<^verbatim>\<open>fix_obj = row_shift = col_shift = True\<close>, or the plain stamp.\<close>

definition add_object :: "bag_cfg \<Rightarrow> canvas \<Rightarrow> obj2d \<Rightarrow> bool \<Rightarrow> bool \<Rightarrow> bool \<Rightarrow> py_exc + canvas \<times> obj2d \<times> bool" where
  "add_object cfg cv ob with_overlap with_gravity lat =
     (if with_gravity then run_shape_grammar_overlap_and_gravity cfg 50 cv ob lat
      else if with_overlap then Inr (run_shape_grammar_overlap cfg cv ob True True True lat)
      else (case stamp_object cv ob of Inl e \<Rightarrow> Inl e | Inr cv' \<Rightarrow> Inr (cv', ob, lat)))"

subsection \<open>One slice\<close>

text \<open>The spawn pose \<^verbatim>\<open>[int(pose_range[0] + max_dim), int(rand * pose_diff + pose_range[0])]\<close>
  for a draw \<open>r\<close>, with \<^verbatim>\<open>pose_range\<close> the pair \<open>pr\<close> and \<^verbatim>\<open>max_dim\<close> the value \<open>mx\<close>
  that \<^verbatim>\<open>create_random_object_list\<close> stored.\<close>

definition spawn_pose :: "int \<times> int \<Rightarrow> int \<Rightarrow> rat \<Rightarrow> obj2d \<Rightarrow> obj2d" where
  "spawn_pose pr mx r ob =
     ob\<lparr>pose := (fst pr + mx, py_int (r * of_int (snd pr - fst pr) + of_int (fst pr)))\<rparr>"

text \<open>\<^verbatim>\<open>rdm.shuffle(current_obj_list)\<close> as the order \<open>perm\<close> it produced.\<close>

definition shuffle_by :: "nat list \<Rightarrow> 'a list \<Rightarrow> 'a list" where
  "shuffle_by perm xs = map (\<lambda>k. xs ! k) perm"

text \<open>The placement loop \<^verbatim>\<open>for k, bag_obj in enumerate(current_obj_list)\<close>: every
  object through \<^verbatim>\<open>add_object\<close> without the overlap rule, with gravity when
  \<^verbatim>\<open>with_shape_grammar\<close>; an exception ends the session.\<close>

fun place_all :: "bag_cfg \<Rightarrow> bool \<Rightarrow> canvas \<Rightarrow> bool \<Rightarrow> obj2d list \<Rightarrow> py_exc + canvas \<times> bool \<times> obj2d list" where
  "place_all cfg sg cv lat [] = Inr (cv, lat, [])"
| "place_all cfg sg cv lat (ob # obs) =
     (case add_object cfg cv ob False sg lat of
        Inl e \<Rightarrow> Inl e
      | Inr (cv1, ob1, lat1) \<Rightarrow>
          (case place_all cfg sg cv1 lat1 obs of
             Inl e \<Rightarrow> Inl e
           | Inr (cv2, lat2, obs2) \<Rightarrow> Inr (cv2, lat2, ob1 # obs2)))"

text \<open>The second loop: every object with \<^verbatim>\<open>lqd_flag\<close> gets the liquid rule and is
  committed again.\<close>

fun liquid_pass :: "canvas \<Rightarrow> obj2d list \<Rightarrow> canvas \<times> obj2d list" where
  "liquid_pass cv [] = (cv, [])"
| "liquid_pass cv (ob # obs) =
     (if lqd ob \<noteq> None
      then (let ob' = apply_liquid_container_rule ob in
            case liquid_pass (place_object_in_bag cv ob') obs of (cv', obs') \<Rightarrow> (cv', ob' # obs'))
      else (case liquid_pass cv obs of (cv', obs') \<Rightarrow> (cv', ob # obs')))"

text \<open>The body of \<^verbatim>\<open>for slice_no in slice_iter\<close>: clone, spawn, shuffle, place, fill.\<close>

definition bag_slice :: "bag_cfg \<Rightarrow> int \<times> int \<Rightarrow> int \<Rightarrow> bool \<Rightarrow> obj2d list \<Rightarrow> bool \<Rightarrow>
                         canvas \<times> rat list \<times> nat list \<Rightarrow> py_exc + canvas \<times> obj2d list \<times> bool" where
  "bag_slice cfg pr mx sg objs lat sl =
     (case sl of (cv, rs, perm) \<Rightarrow>
       (let objs1 = map2 (spawn_pose pr mx) rs objs; objs2 = shuffle_by perm objs1 in
        case place_all cfg sg cv lat objs2 of
          Inl e \<Rightarrow> Inl e
        | Inr (cv1, lat1, objs3) \<Rightarrow> (case liquid_pass cv1 objs3 of (cv2, objs4) \<Rightarrow> Inr (cv2, objs4, lat1))))"

subsection \<open>The session\<close>

text \<open>All slices in order; \<^verbatim>\<open>self.LATERAL_OSC_FLAG\<close> carries over from one slice to the
  next.\<close>

fun run_slices :: "bag_cfg \<Rightarrow> int \<times> int \<Rightarrow> int \<Rightarrow> bool \<Rightarrow> obj2d list \<Rightarrow> bool \<Rightarrow>
                   (canvas \<times> rat list \<times> nat list) list \<Rightarrow> py_exc + canvas list \<times> bool" where
  "run_slices cfg pr mx sg objs lat [] = Inr ([], lat)"
| "run_slices cfg pr mx sg objs lat (sl # sls) =
     (case bag_slice cfg pr mx sg objs lat sl of
        Inl e \<Rightarrow> Inl e
      | Inr (cv, objs', lat1) \<Rightarrow>
          (case run_slices cfg pr mx sg objs lat1 sls of
             Inl e \<Rightarrow> Inl e
           | Inr (cvs, lat2) \<Rightarrow> Inr (cv # cvs, lat2)))"

text \<open>\<^verbatim>\<open>ws_bag[nz] = prior_image[nz]\<close> with \<^verbatim>\<open>nz = prior_image.nonzero()\<close>, with the
  same bounds check as \<open>mark_nz\<close>.\<close>

definition put_nz :: "grid \<Rightarrow> grid \<Rightarrow> py_exc + grid" where
  "put_nz g p =
     (if list_all (\<lambda>(i, j). i < nrows g \<and> j < ncols g) (nz_pixels p) then Inr (paste_nz g 0 0 p)
      else Inl IndexError)"

text \<open>The prior image, then \<^verbatim>\<open>self.ws_bag[self.ws_bag<0] = 0\<close>: the void marker of the
  liquid rule becomes background.\<close>

definition finish_plane :: "grid option \<Rightarrow> grid \<Rightarrow> py_exc + grid" where
  "finish_plane prior g =
     (case (case prior of None \<Rightarrow> Inr g | Some p \<Rightarrow> put_nz g p) of
        Inl e \<Rightarrow> Inl e
      | Inr g' \<Rightarrow> Inr (gmap (\<lambda>v. if v < 0 then 0 else v) g'))"

fun finish_planes :: "grid option \<Rightarrow> canvas list \<Rightarrow> py_exc + grid list" where
  "finish_planes prior [] = Inr []"
| "finish_planes prior (cv # cvs) =
     (case finish_plane prior (bag cv) of
        Inl e \<Rightarrow> Inl e
      | Inr g \<Rightarrow> (case finish_planes prior cvs of Inl e \<Rightarrow> Inl e | Inr gs \<Rightarrow> Inr (g # gs)))"

text \<open>The metadata record of one object of \<^verbatim>\<open>obj_list\<close>, in container-absolute
  coordinates: the centre for \<^verbatim>\<open>'E'\<close>, \<^verbatim>\<open>'B'\<close>, \<^verbatim>\<open>'S'\<close>, \<^verbatim>\<open>'M'\<close>, base and
  apex for \<^verbatim>\<open>'Y'\<close> and \<^verbatim>\<open>'C'\<close> (from the descriptor's \<open>geom\<close>), and
  \<^verbatim>\<open>AttributeError\<close> for any other shape code.\<close>

datatype obj_meta = Center "int \<times> int" | BaseApex "int \<times> int" "int \<times> int"

definition obj_metadata :: "bag_cfg \<Rightarrow> int \<times> int \<Rightarrow> (obj2d \<Rightarrow> pose \<times> pose) \<Rightarrow> obj2d \<Rightarrow> py_exc + obj_meta" where
  "obj_metadata cfg ic geom ob =
     (let o0 = fst ic - size cfg div 2; o1 = snd ic - size cfg div 2;
          ctr = Inr (Center (o0 + fst (pose ob) + fst (dim ob) div 2, o1 + snd (pose ob) + snd (dim ob) div 2));
          ba = (case geom ob of (b, a) \<Rightarrow>
                  Inr (BaseApex (o0 + fst (pose ob) + fst b, o1 + snd (pose ob) + snd b)
                                (o0 + fst (pose ob) + fst a, o1 + snd (pose ob) + snd a)))
      in case shape ob of
           Ellipse \<Rightarrow> ctr | Box \<Rightarrow> ctr | Sheet \<Rightarrow> ctr | Custom \<Rightarrow> ctr
         | Cylinder \<Rightarrow> ba | Cone \<Rightarrow> ba
         | Other c \<Rightarrow> Inl AttributeError)"

fun metadata :: "bag_cfg \<Rightarrow> int \<times> int \<Rightarrow> (obj2d \<Rightarrow> pose \<times> pose) \<Rightarrow> obj2d list \<Rightarrow> py_exc + obj_meta list" where
  "metadata cfg ic geom [] = Inr []"
| "metadata cfg ic geom (ob # obs) =
     (case obj_metadata cfg ic geom ob of
        Inl e \<Rightarrow> Inl e
      | Inr m \<Rightarrow> (case metadata cfg ic geom obs of Inl e \<Rightarrow> Inl e | Inr ms \<Rightarrow> Inr (m # ms)))"

text \<open>\<^verbatim>\<open>create_baggage_image(obj_list, with_shape_grammar)\<close>: the slices, the finishing
  of every plane, and the metadata loop \<^verbatim>\<open>for bag_obj in obj_list\<close>, which walks the
  list passed in, not the clones that were placed. The metadata list is
  \<^verbatim>\<open>param_file = self.bg_sf_list\<close>, the background's entries \<open>bg\<close> from
  \<^verbatim>\<open>get_bag_background\<close>, extended in place by the objects' records.\<close>

definition create_baggage_image ::
  "bag_cfg \<Rightarrow> int \<times> int \<Rightarrow> int \<Rightarrow> int \<times> int \<Rightarrow> (obj2d \<Rightarrow> pose \<times> pose) \<Rightarrow> grid option \<Rightarrow>
   obj_meta list \<Rightarrow> obj2d list \<Rightarrow> bool \<Rightarrow> bool \<Rightarrow> (canvas \<times> rat list \<times> nat list) list \<Rightarrow>
   py_exc + grid list \<times> obj_meta list" where
  "create_baggage_image cfg pr mx ic geom prior bg objs sg lat sls =
     (case run_slices cfg pr mx sg objs lat sls of
        Inl e \<Rightarrow> Inl e
      | Inr (cvs, lat') \<Rightarrow>
          (case finish_planes prior cvs of
             Inl e \<Rightarrow> Inl e
           | Inr gs \<Rightarrow> (case metadata cfg ic geom objs of Inl e \<Rightarrow> Inl e | Inr ms \<Rightarrow> Inr (gs, bg @ ms))))"

subsection \<open>The contract of the session\<close>

text \<open>The specification of the slice loop: every slice is placed on its own, from the
  objects passed in and with the flag cleared, and the planes are collected in order.\<close>

fun slices_spec :: "bag_cfg \<Rightarrow> int \<times> int \<Rightarrow> int \<Rightarrow> bool \<Rightarrow> obj2d list \<Rightarrow>
                    (canvas \<times> rat list \<times> nat list) list \<Rightarrow> py_exc + canvas list" where
  "slices_spec cfg pr mx sg objs [] = Inr []"
| "slices_spec cfg pr mx sg objs (sl # sls) =
     (case bag_slice cfg pr mx sg objs False sl of
        Inl e \<Rightarrow> Inl e
      | Inr (cv, objs', l) \<Rightarrow> (case slices_spec cfg pr mx sg objs sls of Inl e \<Rightarrow> Inl e | Inr cvs \<Rightarrow> Inr (cv # cvs)))"

subsection \<open>Flag independence and the error paths\<close>

text \<open>The gravity loop clears the flag before reading it.\<close>

lemma grav_loop_lat: "grav_loop (Suc n) cfg z cv ob ctr lat coll = grav_loop (Suc n) cfg z cv ob ctr False coll"
  by (simp only: grav_loop.simps)

lemma add_object_lat:
  "add_object cfg cv ob False sg lat =
     map_sum id (\<lambda>(cv', ob', l). (cv', ob', if sg then l else lat)) (add_object cfg cv ob False sg False)"
proof (cases sg)
  case True
  have "grav_loop 50 cfg 50 cv ob 0 lat None = grav_loop 50 cfg 50 cv ob 0 False None"
    using grav_loop_lat [of 49] by (simp add: numeral_eq_Suc)
  with True show ?thesis
    by (simp add: add_object_def run_shape_grammar_overlap_and_gravity_def Let_def split: sum.split prod.split)
next
  case False
  then show ?thesis by (simp add: add_object_def split: sum.split)
qed

lemma place_all_Cons_drop:
  "map_sum id (\<lambda>(cv, l, obs). (cv, obs)) (place_all cfg sg cv lat (ob # obs)) =
     (case add_object cfg cv ob False sg lat of
        Inl e \<Rightarrow> Inl e
      | Inr (cv1, ob1, l1) \<Rightarrow>
          map_sum id (\<lambda>(c, os). (c, ob1 # os)) (map_sum id (\<lambda>(cv, l, obs). (cv, obs)) (place_all cfg sg cv1 l1 obs)))"
  by (simp split: sum.split prod.split)

lemma place_all_lat:
  "map_sum id (\<lambda>(cv, l, obs). (cv, obs)) (place_all cfg sg cv lat obs) =
   map_sum id (\<lambda>(cv, l, obs). (cv, obs)) (place_all cfg sg cv False obs)"
proof (induction obs arbitrary: cv lat)
  case Nil
  then show ?case by simp
next
  case (Cons ob obs)
  note a = add_object_lat [of cfg cv ob sg lat]
  show ?case
  proof (cases "add_object cfg cv ob False sg False")
    case (Inl e)
    then show ?thesis by (simp only: place_all_Cons_drop a) simp
  next
    case (Inr r)
    obtain cv1 ob1 l1 where r: "r = (cv1, ob1, l1)" by (cases r) auto
    from Inr r show ?thesis
      by (simp only: place_all_Cons_drop a) (simp add: Cons.IH [of cv1 "if sg then l1 else lat"] Cons.IH [of cv1 l1])
  qed
qed

lemma bag_slice_lat:
  "map_sum id (\<lambda>(cv, obs, l). (cv, obs)) (bag_slice cfg pr mx sg objs lat sl) =
   map_sum id (\<lambda>(cv, obs, l). (cv, obs)) (bag_slice cfg pr mx sg objs False sl)"
proof -
  obtain cv rs perm where sl: "sl = (cv, rs, perm)" by (cases sl) auto
  let ?o = "shuffle_by perm (map2 (spawn_pose pr mx) rs objs)"
  from place_all_lat [of cfg sg cv lat ?o] sl show ?thesis
    by (cases "place_all cfg sg cv lat ?o"; cases "place_all cfg sg cv False ?o")
       (auto simp: bag_slice_def Let_def split: prod.splits)
qed

lemma shuffle_spawn_Cons:
  "k < length objs \<Longrightarrow> length rs = length objs \<Longrightarrow>
   shuffle_by (k # ks) (map2 (spawn_pose pr mx) rs objs) =
   spawn_pose pr mx (rs ! k) (objs ! k) # shuffle_by ks (map2 (spawn_pose pr mx) rs objs)"
  by (simp add: shuffle_by_def)

lemma map_sum_Inr_id: "map_sum id f x = Inr y \<Longrightarrow> \<exists>z. x = Inr z \<and> f z = y"
  by (cases x) auto

lemma map_sum_Inl_id: "map_sum id f x = Inl e \<Longrightarrow> x = Inl e"
  by (cases x) auto

lemma finish_planes_total: "\<not> isl (finish_planes None cvs)"
  by (induction cvs) (auto simp: finish_plane_def split: sum.split)

lemma finish_planes_Inr:
  "finish_planes prior cvs = Inr gs \<Longrightarrow> g \<in> set gs \<Longrightarrow> \<exists>g'. g = gmap (\<lambda>v. if v < 0 then 0 else v) g'"
proof (induction cvs arbitrary: gs)
  case Nil
  then show ?case by simp
next
  case (Cons cv cvs)
  then show ?case
    by (auto simp: finish_plane_def split: sum.splits option.splits)
qed

text \<open>C7: The slice loop threads \<^verbatim>\<open>self.LATERAL_OSC_FLAG\<close> from slice to slice, yet it implements
  the contract of independent slices: the planes it returns are those of placing every slice on
  its own from the objects passed in.\<close>

theorem run_slices_refines:
  "map_sum id fst (run_slices cfg pr mx sg objs lat sls) = slices_spec cfg pr mx sg objs sls"
proof (induction sls arbitrary: lat)
  case Nil
  then show ?case by simp
next
  case (Cons sl sls)
  note b = bag_slice_lat [of cfg pr mx sg objs lat sl]
  show ?case
  proof (cases "bag_slice cfg pr mx sg objs lat sl")
    case (Inl e)
    with b show ?thesis by (cases "bag_slice cfg pr mx sg objs False sl") auto
  next
    case (Inr r)
    obtain cv os l1 where r: "r = (cv, os, l1)" by (cases r) auto
    from b Inr r obtain l' where f: "bag_slice cfg pr mx sg objs False sl = Inr (cv, os, l')"
      by (cases "bag_slice cfg pr mx sg objs False sl") auto
    from Cons.IH [of l1] Inr r f show ?thesis
      by (cases "run_slices cfg pr mx sg objs l1 sls") (auto split: sum.split)
  qed
qed

text \<open>For a draw in [0, 1) and a pose range \<open>[p0, p1)\<close> with \<open>0 \<le> p0 < p1\<close>, the spawn pose is at row
  \<^verbatim>\<open>pose_range[0] + max_dim\<close> and at a column inside the range.\<close>

theorem spawn_pose_bounds:
  assumes "0 \<le> r" "r < 1" "0 \<le> fst pr" "fst pr < snd pr"
  shows "fst (pose (spawn_pose pr mx r ob)) = fst pr + mx \<and>
         fst pr \<le> snd (pose (spawn_pose pr mx r ob)) \<and> snd (pose (spawn_pose pr mx r ob)) < snd pr"
proof -
  let ?d = "of_int (snd pr - fst pr) :: rat"
  let ?x = "r * ?d + of_int (fst pr)"
  from assms(4) have d: "0 < ?d" by simp
  with assms(1) have "0 \<le> r * ?d" by simp
  then have lo: "of_int (fst pr) \<le> ?x" by simp
  from assms(2) d have "r * ?d < 1 * ?d" by (intro mult_strict_right_mono) simp_all
  then have hi: "?x < of_int (snd pr)" by simp
  from lo assms(3) have "0 \<le> ?x" by linarith
  then have "py_int ?x = \<lfloor>?x\<rfloor>" by (simp add: py_int_def)
  moreover from lo have "fst pr \<le> \<lfloor>?x\<rfloor>" using le_floor_iff by blast
  moreover from hi have "\<lfloor>?x\<rfloor> < snd pr" using floor_less_iff by blast
  ultimately show ?thesis by (simp add: spawn_pose_def)
qed

theorem spawn_pose_bounds_witness:
  "fst (pose (spawn_pose (2, 6) 1 (1 / 2) \<lparr>shape = Box, label = 5, data = grid_of_list [[5]], dim = (1, 1), pose = (0, 0), curve_pts = ((0, 0), (0, 0)), thick = 0, lqd = None\<rparr>)) = 3 \<and>
   2 \<le> snd (pose (spawn_pose (2, 6) 1 (1 / 2) \<lparr>shape = Box, label = 5, data = grid_of_list [[5]], dim = (1, 1), pose = (0, 0), curve_pts = ((0, 0), (0, 0)), thick = 0, lqd = None\<rparr>)) \<and> snd (pose (spawn_pose (2, 6) 1 (1 / 2) \<lparr>shape = Box, label = 5, data = grid_of_list [[5]], dim = (1, 1), pose = (0, 0), curve_pts = ((0, 0), (0, 0)), thick = 0, lqd = None\<rparr>)) < 6"
  using spawn_pose_bounds [of "1 / 2" "(2, 6)" 1 "\<lparr>shape = Box, label = 5, data = grid_of_list [[5]], dim = (1, 1), pose = (0, 0), curve_pts = ((0, 0), (0, 0)), thick = 0, lqd = None\<rparr>"] by simp

text \<open>Without the shape grammar, a slice whose first object in the shuffled order cannot be
  stamped raises the stamp's error, and the whole session with it.\<close>

theorem bag_slice_stamp_raises:
  assumes "\<not> sg" "k < length objs" "length rs = length objs"
    and "stamp_object cv (spawn_pose pr mx (rs ! k) (objs ! k)) = Inl e"
  shows "bag_slice cfg pr mx sg objs lat (cv, rs, k # ks) = Inl e"
  using assms by (simp add: bag_slice_def shuffle_spawn_Cons add_object_def)

theorem bag_slice_stamp_raises_witness:
  "bag_slice \<lparr>size = 10, bb_h = 4, extents = None\<rparr> (2, 6) 1 False [\<lparr>shape = Box, label = 5, data = grid_of_list [[5, 5], [5, 5], [5, 5], [5, 5]], dim = (4, 2), pose = (0, 0), curve_pts = ((0, 0), (0, 0)), thick = 0, lqd = None\<rparr>] False (\<lparr>bag = zeros 10 10, boundary = zeros 10 10\<rparr>, [0], [0]) = Inl BroadcastError"
proof -
  have "map_sum id (\<lambda>cv. ()) (stamp_object \<lparr>bag = zeros 10 10, boundary = zeros 10 10\<rparr> (spawn_pose (2, 6) 1 ([0] ! 0) ([\<lparr>shape = Box, label = 5, data = grid_of_list [[5, 5], [5, 5], [5, 5], [5, 5]], dim = (4, 2), pose = (0, 0), curve_pts = ((0, 0), (0, 0)), thick = 0, lqd = None\<rparr>] ! 0))) = Inl BroadcastError"
    by code_simp
  then show ?thesis by (rule bag_slice_stamp_raises [rotated 3, OF map_sum_Inl_id]) simp_all
qed

text \<open>Every plane the session returns is free of negative values: the void marker \<open>-1\<close> of
  the liquid rule never reaches the output.\<close>

theorem create_baggage_image_nonneg:
  assumes "create_baggage_image cfg pr mx ic geom prior bg objs sg lat sls = Inr (gs, ms)" "g \<in> set gs"
  shows "0 \<le> px g i j"
proof -
  from assms(1) obtain cvs where "finish_planes prior cvs = Inr gs"
    by (auto simp: create_baggage_image_def split: sum.splits prod.splits)
  from finish_planes_Inr [OF this assms(2)] show ?thesis by (auto simp: gmap_def)
qed

theorem create_baggage_image_nonneg_witness:
  "case create_baggage_image \<lparr>size = 10, bb_h = 4, extents = None\<rparr> (2, 6) 1 (20, 20) (\<lambda>ob. ((0, 0), (0, 0))) None [] [\<lparr>shape = Box, label = 5, data = grid_of_list [[5]], dim = (1, 1), pose = (0, 0), curve_pts = ((0, 0), (0, 0)), thick = 0, lqd = None\<rparr>] False False [(\<lparr>bag = zeros 10 10, boundary = zeros 10 10\<rparr>, [0], [0])] of Inl e \<Rightarrow> False | Inr (gs, ms) \<Rightarrow> gs \<noteq> [] \<and> (\<forall>g \<in> set gs. 0 \<le> px g 3 2)"
proof -
  have "map_sum id (\<lambda>(gs, ms). length gs) (create_baggage_image \<lparr>size = 10, bb_h = 4, extents = None\<rparr> (2, 6) 1 (20, 20) (\<lambda>ob. ((0, 0), (0, 0))) None [] [\<lparr>shape = Box, label = 5, data = grid_of_list [[5]], dim = (1, 1), pose = (0, 0), curve_pts = ((0, 0), (0, 0)), thick = 0, lqd = None\<rparr>] False False [(\<lparr>bag = zeros 10 10, boundary = zeros 10 10\<rparr>, [0], [0])]) = Inr 1" by code_simp
  from map_sum_Inr_id [OF this] obtain gs ms where r: "create_baggage_image \<lparr>size = 10, bb_h = 4, extents = None\<rparr> (2, 6) 1 (20, 20) (\<lambda>ob. ((0, 0), (0, 0))) None [] [\<lparr>shape = Box, label = 5, data = grid_of_list [[5]], dim = (1, 1), pose = (0, 0), curve_pts = ((0, 0), (0, 0)), thick = 0, lqd = None\<rparr>] False False [(\<lparr>bag = zeros 10 10, boundary = zeros 10 10\<rparr>, [0], [0])] = Inr (gs, ms)" and "gs \<noteq> []"
    by fastforce
  with create_baggage_image_nonneg [OF r] show ?thesis by simp
qed

end
