(* ===== verification/Sampler.thy ===== *)
theory Sampler
  imports Session
begin

text \<open>
  The random object list sampler \<^verbatim>\<open>BaggageImage2D.create_random_object_list\<close>.
  Every random call of the source is an input: the outcome of a numpy choice is an
  index \<open>k\<close> into the entries the call can return, the outcome of
  \<^verbatim>\<open>np.random.rand()\<close> a rational, so the sampler becomes a deterministic function
  of its configuration and of the draws, and every exception a numpy call raises
  on an invalid argument (an empty list, a probability vector that is negative or
  does not sum to one) is an \<open>Inl\<close> value. The shape-list dictionary
  (\<^verbatim>\<open>ShapeListHandle.create_sim_object\<close>, outside this file) is the record
  \<open>sim_dict\<close>; the rasterisation of a dictionary by \<^verbatim>\<open>Object2D\<close> and
  \<^verbatim>\<open>skimage.transform.rescale\<close> are parameters. The state the loop threads is
  \<open>smp_state\<close>: the target counter, \<^verbatim>\<open>self.lqd_count\<close>, the metal budget, the
  object list, the current dimension range, and the loop variable \<^verbatim>\<open>i\<close> and the
  last pose \<^verbatim>\<open>c_pose\<close>, which the nested \<^verbatim>\<open>change_object_material\<close> reads
  after the loop.
\<close>

subsection \<open>Configuration and draws\<close>

text \<open>The arguments of \<^verbatim>\<open>create_random_object_list\<close>, the material sets of
  \<^verbatim>\<open>self.mu_handler\<close> (\<^verbatim>\<open>metals\<close>, \<^verbatim>\<open>curr_targets_list\<close>), \<^verbatim>\<open>self.bb_label\<close>,
  and the container geometry the pose range is computed from.
  \<open>metal_amt\<close>, \<open>metal_size\<close>, \<open>num_range\<close> and \<open>is_liquid\<close> are the entries of
  \<^verbatim>\<open>metal_dict\<close> and \<^verbatim>\<open>target_dict\<close>; \<open>None\<close> is Python's \<^verbatim>\<open>None\<close>.\<close>

record 'm smp_cfg =
  material_list :: "'m list"
  liquid_list :: "'m list"
  material_pdf :: "rat list"
  liquid_pdf :: "rat list"
  lqd_prob :: rat
  sheet_prob :: rat
  dim_range :: "int \<times> int"
  spawn_sheets :: bool
  spawn_liquids :: bool
  sheet_dim_list :: "nat list"
  custom_objects :: "string list option"
  custom_obj_prob :: rat
  metal_amt :: "int option"
  metal_size :: "(int \<times> int) option"
  num_range :: "(nat \<times> nat) option"
  is_liquid :: bool
  metals :: "'m list"
  targets :: "'m list"
  bb_label :: int
  bag_geom :: bag_cfg

text \<open>\<^verbatim>\<open>number_of_objects\<close>: an integer, or a list drawn from by
  \<^verbatim>\<open>random.choice\<close>.\<close>

datatype num_objs = NFixed nat | NOneOf "nat list"

text \<open>The outcomes of the random calls of one iteration. \<open>g_v1\<close>, \<open>g_v2\<close> are the
  two \<^verbatim>\<open>np.random.rand(3)\<close> vectors of the geometry, \<open>g_s1\<close>, \<open>g_s2\<close> its scalar
  draws, \<open>g_k\<close> the choice from \<^verbatim>\<open>sheet_dim_list\<close> or \<^verbatim>\<open>custom_objects\<close>.\<close>

record geo_draw =
  g_v1 :: "rat list"
  g_v2 :: "rat list"
  g_s1 :: rat
  g_s2 :: rat
  g_k :: nat

text \<open>The draws of one call of \<^verbatim>\<open>change_object_material\<close>: the material, the liquid
  material, the liquid level, the wall thickness and the replacement material.\<close>

record chg_draw =
  c_mat_k :: nat
  c_lmat_k :: nat
  c_level :: rat
  c_cntr_k :: nat
  c_swap_k :: nat

record obj_draw =
  d_mat :: nat
  d_shape :: nat
  d_geo :: geo_draw
  d_lqd :: nat
  d_pose :: "rat \<times> rat"
  d_level :: rat
  d_lmat :: nat
  d_cntr :: nat
  d_lswap :: nat
  d_swap :: nat
  d_chg :: chg_draw

text \<open>One iteration of the top-up loop draws a shape, its geometry and the
  replacement material.\<close>

record top_draw =
  t_shape :: nat
  t_geo :: geo_draw
  t_chg :: chg_draw

subsection \<open>numpy's choice\<close>

text \<open>\<^verbatim>\<open>np.random.choice(xs)\<close>: \<^verbatim>\<open>ValueError\<close> on an empty list, otherwise the
  entry the draw selects.\<close>

definition np_choice :: "'a list \<Rightarrow> nat \<Rightarrow> py_exc + 'a" where
  "np_choice xs k = (if xs = [] then Inl ValueError else Inr (xs ! (k mod length xs)))"

text \<open>\<^verbatim>\<open>np.random.choice(xs, p=ps)\<close>: numpy raises \<^verbatim>\<open>ValueError\<close> when the list
  is empty, when \<open>ps\<close> has another size, a negative entry, or does not sum to one;
  otherwise the draw selects among the entries of positive probability.\<close>

definition np_choice_p :: "'a list \<Rightarrow> rat list \<Rightarrow> nat \<Rightarrow> py_exc + 'a" where
  "np_choice_p xs ps k =
     (if xs = [] \<or> length ps \<noteq> length xs \<or> \<not> list_all (\<lambda>p. 0 \<le> p) ps \<or> sum_list ps \<noteq> 1
      then Inl ValueError
      else np_choice (map fst (filter (\<lambda>(x, p). 0 < p) (zip xs ps))) k)"

subsection \<open>The material lists\<close>

definition non_metal_list :: "'m smp_cfg \<Rightarrow> 'm list" where
  "non_metal_list cfg = [x \<leftarrow> material_list cfg. x \<notin> set (metals cfg)]"

definition target_list :: "'m smp_cfg \<Rightarrow> 'm list" where
  "target_list cfg = [x \<leftarrow> non_metal_list cfg. x \<in> set (targets cfg)]"

definition lqd_target_list :: "'m smp_cfg \<Rightarrow> 'm list" where
  "lqd_target_list cfg = [x \<leftarrow> liquid_list cfg. x \<in> set (targets cfg)]"

definition lqd_non_target_list :: "'m smp_cfg \<Rightarrow> 'm list" where
  "lqd_non_target_list cfg = [x \<leftarrow> liquid_list cfg. x \<notin> set (targets cfg)]"

definition non_target_list :: "'m smp_cfg \<Rightarrow> 'm list" where
  "non_target_list cfg = [x \<leftarrow> non_metal_list cfg. x \<notin> set (targets cfg)]"

definition non_target_list_m :: "'m smp_cfg \<Rightarrow> 'm list" where
  "non_target_list_m cfg = [x \<leftarrow> material_list cfg. x \<notin> set (targets cfg)]"

subsection \<open>Shape, geometry and pose\<close>

text \<open>The shape codes \<^verbatim>\<open>['E', 'B', 'Y', 'C', 'S', 'M']\<close> (without \<^verbatim>\<open>'S'\<close> when no
  sheets are spawned) and their probabilities in the main loop and in the top-up
  loop; \<^verbatim>\<open>custom_obj_prob\<close> is zero when there are no custom objects.\<close>

definition shape_codes :: "bool \<Rightarrow> shape_kind list" where
  "shape_codes ss =
     (if ss then [Ellipse, Box, Cylinder, Cone, Sheet, Custom] else [Ellipse, Box, Cylinder, Cone, Custom])"

definition eff_custom_prob :: "'m smp_cfg \<Rightarrow> rat" where
  "eff_custom_prob cfg = (if custom_objects cfg = None then 0 else custom_obj_prob cfg)"

definition shape_pdf :: "'m smp_cfg \<Rightarrow> rat list" where
  "shape_pdf cfg =
     (let sp = sheet_prob cfg; cp = eff_custom_prob cfg in
      if spawn_sheets cfg
      then [35/100 * (1 - sp - cp), 25/100 * (1 - sp - cp), 20/100 * (1 - sp - cp),
            20/100 * (1 - sp - cp), sp, cp]
      else [1/4 * (1 - cp), 1/4 * (1 - cp), 1/4 * (1 - cp), 1/4 * (1 - cp), cp])"

definition topup_shape_pdf :: "'m smp_cfg \<Rightarrow> rat list" where
  "topup_shape_pdf cfg =
     (let sp = sheet_prob cfg; cp = eff_custom_prob cfg in
      if spawn_sheets cfg
      then [1/4 * (1 - sp - cp), 1/4 * (1 - sp - cp), 1/4 * (1 - sp - cp),
            1/4 * (1 - sp - cp), sp, cp]
      else [1/4 * (1 - cp), 1/4 * (1 - cp), 1/4 * (1 - cp), 1/4 * (1 - cp), cp])"

text \<open>The geometry dictionary \<^verbatim>\<open>c_geom\<close> of each shape code (the constant
  \<^verbatim>\<open>center\<close> entries omitted, the FITS mask of a custom object read by
  \<^verbatim>\<open>read_fits_data\<close> not modelled); \<open>GEmpty\<close> is the empty dictionary no branch
  fills.\<close>

datatype geom =
    GEllipse "rat list" "rat list"
  | GBox "rat list" "rat list"
  | GCyl "rat list" "rat list" rat
  | GCone "rat list" "rat list" rat rat
  | GSheet "rat list" "rat list"
  | GCustom "rat list" "rat list" rat string
  | GEmpty

text \<open>\<^verbatim>\<open>np.random.rand(3)*a + b\<close>.\<close>

definition rand_vec :: "rat list \<Rightarrow> rat \<Rightarrow> rat \<Rightarrow> rat list" where
  "rand_vec us a b = map (\<lambda>u. u * a + b) us"

text \<open>\<^verbatim>\<open>np.random.rand()*diff_dim//2 + min_dim\<close>: floor division of the product.\<close>

definition rand_radius :: "rat \<Rightarrow> int \<Rightarrow> int \<Rightarrow> rat" where
  "rand_radius u mn mx = of_int \<lfloor>u * of_int (mx - mn) / 2\<rfloor> + of_int mn"

definition sample_geom :: "'m smp_cfg \<Rightarrow> shape_kind \<Rightarrow> int \<Rightarrow> int \<Rightarrow> geo_draw \<Rightarrow> py_exc + geom" where
  "sample_geom cfg shp mn mx gd =
     (let d = of_int (mx - mn); lo = of_int mn; hi = of_int mx in
      case shp of
        Ellipse \<Rightarrow> Inr (GEllipse (rand_vec (g_v1 gd) d lo) (rand_vec (g_v2 gd) 90 0))
      | Box \<Rightarrow> Inr (GBox (rand_vec (g_v1 gd) d lo) (rand_vec (g_v2 gd) 90 0))
      | Cylinder \<Rightarrow> Inr (GCyl (rand_vec (g_v1 gd) d lo) (rand_vec (g_v2 gd) d (lo + hi))
                            (rand_radius (g_s1 gd) mn mx))
      | Cone \<Rightarrow> Inr (GCone (rand_vec (g_v1 gd) d lo) (rand_vec (g_v2 gd) d (lo + lo))
                         (rand_radius (g_s1 gd) mn mx) (rand_radius (g_s2 gd) mn mx))
      | Sheet \<Rightarrow> (case np_choice (sheet_dim_list cfg) (g_k gd) of
                   Inl e \<Rightarrow> Inl e
                 | Inr t \<Rightarrow> Inr (GSheet ((rand_vec (g_v1 gd) (hi * (1/2)) hi)[0 := of_nat t])
                                        (rand_vec (g_v2 gd) 90 0)))
      | Custom \<Rightarrow> (case np_choice (case custom_objects cfg of None \<Rightarrow> [] | Some xs \<Rightarrow> xs) (g_k gd) of
                    Inl e \<Rightarrow> Inl e
                  | Inr src \<Rightarrow> Inr (GCustom (rand_vec (g_v1 gd) d lo) (rand_vec (g_v2 gd) 90 0)
                                           (g_s1 gd * 1 + 1/2) src))
      | Other _ \<Rightarrow> Inr GEmpty)"

text \<open>\<^verbatim>\<open>pose_range\<close>, computed once from the lower bound of \<^verbatim>\<open>dim_range\<close>, and
  the spawn pose \<^verbatim>\<open>c_pose\<close> of an object whose current upper bound is \<open>mx\<close>.\<close>

definition smp_pose_range :: "'m smp_cfg \<Rightarrow> int \<times> int" where
  "smp_pose_range cfg =
     (size (bag_geom cfg) div 2 - bb_h (bag_geom cfg),
      size (bag_geom cfg) div 2 + bb_h (bag_geom cfg) - fst (dim_range cfg) * 2)"

type_synonym pose3 = "int \<times> int \<times> int"

definition sample_pose :: "int \<times> int \<Rightarrow> int \<Rightarrow> rat \<times> rat \<Rightarrow> pose3" where
  "sample_pose pr mx u =
     (let pd = snd pr - fst pr in
      (fst pr + mx, py_int (fst u * of_int pd + of_int (fst pr)),
       py_int (snd u * of_int pd + of_int (fst pr))))"

subsection \<open>Dictionaries, objects and the loop state\<close>

text \<open>The dictionary \<^verbatim>\<open>create_sim_object\<close> returns: shape, geometry, material
  (\<^verbatim>\<open>obj_dict['material']\<close>), label, and the liquid parameters with the liquid
  material when \<^verbatim>\<open>lqd_flag\<close> is set.\<close>

record 'm sim_dict =
  sd_shape :: shape_kind
  sd_geom :: geom
  sd_mat :: 'm
  sd_label :: int
  sd_lqd :: "(lqd_param \<times> 'm) option"

text \<open>An \<^verbatim>\<open>Object2D\<close> as the sampler sees it: its dictionary, its pose, its
  \<^verbatim>\<open>label\<close> attribute and its raster \<^verbatim>\<open>data\<close>.\<close>

record 'm sim_obj =
  so_dict :: "'m sim_dict"
  so_pose :: pose3
  so_label :: int
  so_data :: grid

text \<open>\<^verbatim>\<open>Object2D(obj_dict=..., obj_pose=...)\<close>: the label is the dictionary's, the
  raster is what the rasteriser \<open>rast\<close> makes of the dictionary.\<close>

definition mk_obj :: "('m sim_dict \<Rightarrow> grid) \<Rightarrow> 'm sim_dict \<Rightarrow> pose3 \<Rightarrow> 'm sim_obj" where
  "mk_obj rast dct p = \<lparr>so_dict = dct, so_pose = p, so_label = sd_label dct, so_data = rast dct\<rparr>"

text \<open>The locals the loop threads: \<^verbatim>\<open>target_counter\<close>, \<^verbatim>\<open>self.lqd_count\<close>,
  \<^verbatim>\<open>orig_metal_amt\<close>, \<^verbatim>\<open>obj_list\<close>, the current \<^verbatim>\<open>(min_dim, max_dim)\<close>, and the
  last values of \<^verbatim>\<open>i\<close> and \<^verbatim>\<open>c_pose\<close> (\<open>None\<close> while unbound).\<close>

record 'm smp_state =
  target_counter :: nat
  lqd_count :: int
  metal_left :: "int option"
  obj_list :: "'m sim_obj list"
  cur_dims :: "int \<times> int"
  last_i :: "int option"
  last_pose :: "pose3 option"

subsection \<open>\<^verbatim>\<open>change_object_material\<close>\<close>

text \<open>The nested function (defined twice in the source with the same body, once in
  the loop and once after it): a fresh non-target material (a target one when
  \<^verbatim>\<open>material_type == 'target'\<close> and no liquid is asked for), with liquid
  parameters when \<open>cl\<close> (\<^verbatim>\<open>contains_liquid\<close>) is set, and a new \<^verbatim>\<open>Object2D\<close>
  with the closure's \<^verbatim>\<open>cshape\<close>, \<^verbatim>\<open>c_geom\<close>, \<^verbatim>\<open>i\<close> and \<^verbatim>\<open>c_pose\<close>. Reading
  \<^verbatim>\<open>i\<close> or \<^verbatim>\<open>c_pose\<close> before the main loop bound them raises \<^verbatim>\<open>NameError\<close>.
  The result carries the new \<^verbatim>\<open>self.lqd_count\<close>.\<close>

definition change_object_material ::
  "'m smp_cfg \<Rightarrow> ('m sim_dict \<Rightarrow> grid) \<Rightarrow> chg_draw \<Rightarrow> bool \<Rightarrow> bool \<Rightarrow> shape_kind \<Rightarrow> geom \<Rightarrow>
   int option \<Rightarrow> pose3 option \<Rightarrow> int \<Rightarrow> py_exc + 'm sim_obj \<times> int" where
  "change_object_material cfg rast cd tgt cl shp g oi op lc =
     sbind (if tgt \<and> \<not> cl then np_choice (target_list cfg) (c_mat_k cd)
            else np_choice (non_target_list cfg) (c_mat_k cd)) (\<lambda>m.
     sbind (if cl then
              sbind (np_choice (if is_liquid cfg then lqd_target_list cfg else lqd_non_target_list cfg)
                               (c_lmat_k cd)) (\<lambda>lm.
              sbind (np_choice (sheet_dim_list cfg) (c_cntr_k cd)) (\<lambda>t.
              sbind (if m \<in> set (target_list cfg) then np_choice (non_target_list_m cfg) (c_swap_k cd)
                     else Inr m) (\<lambda>m'.
              Inr (m', Some (\<lparr>cntr_thickness = t, lqd_level = c_level cd * (1/2) + 2/5, lqd_label = lc\<rparr>, lm),
                   lc + 1))))
            else Inr (m, None, lc)) (\<lambda>(m', lq, lc').
     case (oi, op) of
       (Some i, Some p) \<Rightarrow>
         Inr (mk_obj rast \<lparr>sd_shape = shp, sd_geom = g, sd_mat = m', sd_label = i, sd_lqd = lq\<rparr> p, lc')
     | _ \<Rightarrow> Inl NameError))"

subsection \<open>The liquid parameters\<close>

text \<open>The branch \<^verbatim>\<open>if liquid_option:\<close> of the main loop: \<^verbatim>\<open>lqd_param\<close> with the
  label \<^verbatim>\<open>self.lqd_count\<close>, which is then incremented; a target liquid is
  replaced by a non-target one once \<^verbatim>\<open>target_counter\<close> reached the maximum and
  counted otherwise; a target container material is replaced. The result is the
  liquid parameters, the container material and the state.\<close>

definition liquid_params ::
  "'m smp_cfg \<Rightarrow> obj_draw \<Rightarrow> 'm \<Rightarrow> 'm smp_state \<Rightarrow> py_exc + (lqd_param \<times> 'm) \<times> 'm \<times> 'm smp_state" where
  "liquid_params cfg d c_mat st =
     sbind (np_choice_p (liquid_list cfg) (liquid_pdf cfg) (d_lmat d)) (\<lambda>lm.
     sbind (np_choice (sheet_dim_list cfg) (d_cntr d)) (\<lambda>t.
     (let lp = \<lparr>cntr_thickness = t, lqd_level = d_level d * (1/2) + 2/5, lqd_label = lqd_count st\<rparr>;
          st1 = st\<lparr>lqd_count := lqd_count st + 1\<rparr> in
      sbind (if lm \<in> set (lqd_target_list cfg) then
               (if num_range cfg \<noteq> None \<and> target_counter st = snd (the (num_range cfg))
                then sbind (np_choice (lqd_non_target_list cfg) (d_lswap d)) (\<lambda>lm'. Inr (lm', st1))
                else Inr (lm, st1\<lparr>target_counter := Suc (target_counter st)\<rparr>))
             else Inr (lm, st1)) (\<lambda>(lm', st2).
      sbind (if c_mat \<in> set (target_list cfg) then np_choice (non_target_list_m cfg) (d_swap d)
             else Inr c_mat) (\<lambda>c'.
      Inr ((lp, lm'), c', st2))))))"

subsection \<open>The metal budget\<close>

text \<open>\<^verbatim>\<open>count_nonzero\<close> and \<^verbatim>\<open>data > 0\<close> as a 0/1 raster.\<close>

definition cnt_nz :: "grid \<Rightarrow> nat" where
  "cnt_nz g = length (nz_pixels g)"

definition gbin :: "grid \<Rightarrow> grid" where
  "gbin g = gmap (\<lambda>v. if 0 < v then 1 else 0) g"

text \<open>\<^verbatim>\<open>while orig_metal_amt < obj_amt and cnt < 5\<close>: rescale the binary raster by
  \<^verbatim>\<open>adj_scale\<close> (the parameter \<open>rs\<close>) and recount, at most five times.\<close>

function resc_loop :: "(grid \<Rightarrow> grid) \<Rightarrow> int \<Rightarrow> grid \<Rightarrow> nat \<Rightarrow> nat \<Rightarrow> grid \<times> nat" where
  "resc_loop rs m b a cnt =
     (if m < int a \<and> cnt < 5 then (let b' = rs (gbin b) in resc_loop rs m b' (cnt_nz b') (Suc cnt))
      else (b, a))"
  by pat_completeness auto
termination by (relation "measure (\<lambda>(rs, m, b, a, cnt). 5 - cnt)") auto

text \<open>The metal branch: with a budget and a metal material, an exhausted budget
  (\<^verbatim>\<open>orig_metal_amt <= 2.25e2\<close>) or a liquid container or a rescaled object still
  below \<^verbatim>\<open>2.25e2\<close> pixels changes the material; an object that fits is paid for;
  otherwise the rescaled count is paid for and \<^verbatim>\<open>curr_obj.label\<close> becomes
  \<^verbatim>\<open>label * bin_data[h, w]\<close>, the entry at the two bounding-box extents.\<close>

definition metal_adjust ::
  "'m smp_cfg \<Rightarrow> ('m sim_dict \<Rightarrow> grid) \<Rightarrow> (grid \<Rightarrow> grid) \<Rightarrow> chg_draw \<Rightarrow> shape_kind \<Rightarrow> geom \<Rightarrow>
   int \<Rightarrow> pose3 \<Rightarrow> 'm \<Rightarrow> 'm sim_obj \<Rightarrow> 'm smp_state \<Rightarrow> py_exc + 'm sim_obj \<times> 'm smp_state" where
  "metal_adjust cfg rast rs cd shp g i p c_mat ob st =
     (case metal_left st of
        None \<Rightarrow> Inr (ob, st)
      | Some m \<Rightarrow>
          if c_mat \<notin> set (metals cfg) then Inr (ob, st)
          else
            (let amt = cnt_nz (so_data ob);
                 chg = map_sum id (\<lambda>(ob', lc). (ob', st\<lparr>lqd_count := lc\<rparr>))
                         (change_object_material cfg rast cd False False shp g (Some i) (Some p) (lqd_count st))
             in if m \<le> 225 then chg
                else if int amt \<le> m then Inr (ob, st\<lparr>metal_left := Some (m - int amt)\<rparr>)
                else if sd_lqd (so_dict ob) \<noteq> None then chg
                else (case resc_loop rs m (gbin (so_data ob)) amt 0 of
                        (b, a) \<Rightarrow>
                          if int a < 225 then chg
                          else (let nz = nz_pixels b;
                                    h = Max (set (map fst nz)) - Min (set (map fst nz));
                                    w = Max (set (map snd nz)) - Min (set (map snd nz))
                                in Inr (ob\<lparr>so_label := so_label ob * px b h w\<rparr>,
                                        st\<lparr>metal_left := Some (m - int a)\<rparr>)))))"

subsection \<open>One object of the main loop\<close>

text \<open>The object of the main loop before the adjustments: with
  \<^verbatim>\<open>liquid_option\<close> the liquid parameters and the (possibly replaced) container
  material, otherwise the drawn material; the result carries the material the
  later tests read as \<^verbatim>\<open>c_mat\<close>.\<close>

definition spawn_obj ::
  "'m smp_cfg \<Rightarrow> ('m sim_dict \<Rightarrow> grid) \<Rightarrow> obj_draw \<Rightarrow> 'm \<Rightarrow> shape_kind \<Rightarrow> geom \<Rightarrow> bool \<Rightarrow> int \<Rightarrow>
   pose3 \<Rightarrow> 'm smp_state \<Rightarrow> py_exc + 'm sim_obj \<times> 'm \<times> 'm smp_state" where
  "spawn_obj cfg rast d c_mat shp g lq_opt i p st =
     (if lq_opt then
        sbind (liquid_params cfg d c_mat st) (\<lambda>(lq, c', st1).
          Inr (mk_obj rast \<lparr>sd_shape = shp, sd_geom = g, sd_mat = c', sd_label = i, sd_lqd = Some lq\<rparr> p,
               c', st1))
      else Inr (mk_obj rast \<lparr>sd_shape = shp, sd_geom = g, sd_mat = c_mat, sd_label = i, sd_lqd = None\<rparr> p,
                c_mat, st))"

text \<open>Adjusting for too many targets: once \<^verbatim>\<open>target_counter\<close> reached
  \<^verbatim>\<open>num_range[1]\<close>, a target material is changed by
  \<^verbatim>\<open>change_object_material('nontarget', target_dict['is_liquid'])\<close>.\<close>

definition target_adjust ::
  "'m smp_cfg \<Rightarrow> ('m sim_dict \<Rightarrow> grid) \<Rightarrow> chg_draw \<Rightarrow> shape_kind \<Rightarrow> geom \<Rightarrow> int \<Rightarrow> pose3 \<Rightarrow> 'm \<Rightarrow>
   'm sim_obj \<Rightarrow> 'm smp_state \<Rightarrow> py_exc + 'm sim_obj \<times> 'm smp_state" where
  "target_adjust cfg rast cd shp g i p c_mat ob st =
     (if num_range cfg \<noteq> None \<and> target_counter st = snd (the (num_range cfg)) \<and> c_mat \<in> set (target_list cfg)
      then map_sum id (\<lambda>(ob', lc). (ob', st\<lparr>lqd_count := lc\<rparr>))
             (change_object_material cfg rast cd False (is_liquid cfg) shp g (Some i) (Some p) (lqd_count st))
      else Inr (ob, st))"

text \<open>\<^verbatim>\<open>obj_list.append(curr_obj)\<close> and the count of a target material.\<close>

definition append_obj :: "'m smp_cfg \<Rightarrow> 'm sim_obj \<Rightarrow> 'm smp_state \<Rightarrow> 'm smp_state" where
  "append_obj cfg ob st =
     st\<lparr>obj_list := obj_list st @ [ob],
        target_counter := (if sd_mat (so_dict ob) \<in> set (target_list cfg)
                           then Suc (target_counter st) else target_counter st)\<rparr>"

text \<open>The body of \<^verbatim>\<open>for i in range(self.start_label, self.end_label)\<close>, in the
  source's order: the material, the dimension range (the metal sizes for a metal
  when \<^verbatim>\<open>metal_size\<close> is given), the shape, the geometry, the liquid coin (drawn
  before the shape and \<^verbatim>\<open>spawn_liquids\<close> tests), the pose, the object, the
  adjustment for too many targets, the metal budget, the append.\<close>

definition smp_obj ::
  "'m smp_cfg \<Rightarrow> ('m sim_dict \<Rightarrow> grid) \<Rightarrow> (grid \<Rightarrow> grid) \<Rightarrow> int \<times> int \<Rightarrow> obj_draw \<Rightarrow> int \<Rightarrow>
   'm smp_state \<Rightarrow> py_exc + 'm smp_state" where
  "smp_obj cfg rast rs pr d i st =
     sbind (np_choice_p (material_list cfg) (material_pdf cfg) (d_mat d)) (\<lambda>c_mat.
     (let dims = (if c_mat \<in> set (metals cfg) \<and> metal_size cfg \<noteq> None then the (metal_size cfg)
                  else dim_range cfg) in
     sbind (np_choice_p (shape_codes (spawn_sheets cfg)) (shape_pdf cfg) (d_shape d)) (\<lambda>shp.
     sbind (sample_geom cfg shp (fst dims) (snd dims) (d_geo d)) (\<lambda>g.
     sbind (np_choice_p [True, False] [lqd_prob cfg, 1 - lqd_prob cfg] (d_lqd d)) (\<lambda>coin.
     (let p = sample_pose pr (snd dims) (d_pose d);
          st0 = st\<lparr>cur_dims := dims, last_i := Some i, last_pose := Some p\<rparr> in
     sbind (spawn_obj cfg rast d c_mat shp g (coin \<and> shp \<noteq> Sheet \<and> shp \<noteq> Custom \<and> spawn_liquids cfg)
              i p st0) (\<lambda>(ob, c', st1).
     sbind (target_adjust cfg rast (d_chg d) shp g i p c' ob st1) (\<lambda>(ob2, st2).
     sbind (metal_adjust cfg rast rs (d_chg d) shp g i p c' ob2 st2) (\<lambda>(ob3, st3).
     Inr (append_obj cfg ob3 st3))))))))))"

text \<open>The main loop over the labels; \<open>dr i\<close> are the draws of label \<open>i\<close>.\<close>

fun smp_loop ::
  "'m smp_cfg \<Rightarrow> ('m sim_dict \<Rightarrow> grid) \<Rightarrow> (grid \<Rightarrow> grid) \<Rightarrow> int \<times> int \<Rightarrow> (int \<Rightarrow> obj_draw) \<Rightarrow>
   int list \<Rightarrow> 'm smp_state \<Rightarrow> py_exc + 'm smp_state" where
  "smp_loop cfg rast rs pr dr [] st = Inr st"
| "smp_loop cfg rast rs pr dr (i # is) st =
     sbind (smp_obj cfg rast rs pr (dr i) i st) (smp_loop cfg rast rs pr dr is)"

subsection \<open>The top-up loop\<close>

text \<open>One iteration of \<^verbatim>\<open>while target_counter < num_range[0]\<close>: a shape (with the
  top-up loop's probabilities), its geometry in the dimension range the main loop
  left, and \<^verbatim>\<open>change_object_material('target', is_liquid)\<close>, which takes the label
  and the pose from the last main-loop iteration.\<close>

definition topup_obj ::
  "'m smp_cfg \<Rightarrow> ('m sim_dict \<Rightarrow> grid) \<Rightarrow> top_draw \<Rightarrow> 'm smp_state \<Rightarrow> py_exc + 'm smp_state" where
  "topup_obj cfg rast td st =
     sbind (np_choice_p (shape_codes (spawn_sheets cfg)) (topup_shape_pdf cfg) (t_shape td)) (\<lambda>shp.
     sbind (sample_geom cfg shp (fst (cur_dims st)) (snd (cur_dims st)) (t_geo td)) (\<lambda>g.
     sbind (change_object_material cfg rast (t_chg td) True (is_liquid cfg) shp g (last_i st) (last_pose st)
              (lqd_count st)) (\<lambda>(ob, lc).
     Inr (st\<lparr>lqd_count := lc, obj_list := obj_list st @ [ob]\<rparr>))))"

function topup_loop ::
  "'m smp_cfg \<Rightarrow> ('m sim_dict \<Rightarrow> grid) \<Rightarrow> (nat \<Rightarrow> top_draw) \<Rightarrow> nat \<Rightarrow> nat \<Rightarrow> 'm smp_state \<Rightarrow>
   py_exc + 'm smp_state" where
  "topup_loop cfg rast td lo k st =
     (if target_counter st < lo then
        sbind (topup_obj cfg rast (td k) st) (\<lambda>st'.
          topup_loop cfg rast td lo (Suc k) (st'\<lparr>target_counter := Suc (target_counter st)\<rparr>))
      else Inr st)"
  by pat_completeness auto
termination by (relation "measure (\<lambda>(cfg, rast, td, lo, k, st). lo - target_counter st)") auto

subsection \<open>The sampler\<close>

text \<open>\<^verbatim>\<open>create_random_object_list\<close>: the number of objects, the labels
  \<^verbatim>\<open>start_label = bb_label + 1\<close> to \<^verbatim>\<open>end_label - 1\<close>, liquid labels from
  \<^verbatim>\<open>end_label\<close> on, the main loop, the top-up loop when fewer targets than
  \<^verbatim>\<open>num_range[0]\<close> were spawned, and \<^verbatim>\<open>rdm.shuffle\<close> as the order \<open>perm\<close> it
  produced. The result is the list and the final state.\<close>

definition smp_init :: "'m smp_cfg \<Rightarrow> nat \<Rightarrow> 'm smp_state" where
  "smp_init cfg n =
     \<lparr>target_counter = 0, lqd_count = bb_label cfg + 1 + int n, metal_left = metal_amt cfg,
      obj_list = [], cur_dims = dim_range cfg, last_i = None, last_pose = None\<rparr>"

definition smp_labels :: "'m smp_cfg \<Rightarrow> nat \<Rightarrow> int list" where
  "smp_labels cfg n = [bb_label cfg + 1 .. bb_label cfg + int n]"

definition create_random_object_list ::
  "'m smp_cfg \<Rightarrow> ('m sim_dict \<Rightarrow> grid) \<Rightarrow> (grid \<Rightarrow> grid) \<Rightarrow> num_objs \<Rightarrow> nat \<Rightarrow> (int \<Rightarrow> obj_draw) \<Rightarrow>
   (nat \<Rightarrow> top_draw) \<Rightarrow> nat list \<Rightarrow> py_exc + 'm sim_obj list \<times> 'm smp_state" where
  "create_random_object_list cfg rast rs no nk dr td perm =
     sbind (case no of NFixed n \<Rightarrow> Inr n | NOneOf ns \<Rightarrow> np_choice ns nk) (\<lambda>n.
     sbind (smp_loop cfg rast rs (smp_pose_range cfg) dr (smp_labels cfg n) (smp_init cfg n)) (\<lambda>st1.
     sbind (case num_range cfg of
              None \<Rightarrow> Inr st1
            | Some (lo, hi) \<Rightarrow> topup_loop cfg rast td lo 0 st1) (\<lambda>st2.
     Inr (shuffle_by perm (obj_list st2), st2))))"

subsection \<open>Label sets\<close>

text \<open>The dictionary labels of a list of objects, and the liquid labels of its
  liquid containers in list order. \<open>lqd_ok a b ob\<close>: a liquid label of \<open>ob\<close> lies in
  \<open>[a, b)\<close>; \<open>lqd_seq a b objs\<close>: the liquid labels of \<open>objs\<close> increase strictly and
  lie in \<open>[a, b)\<close>.\<close>

definition solid_labels :: "'m sim_obj list \<Rightarrow> int list" where
  "solid_labels objs = map (\<lambda>ob. sd_label (so_dict ob)) objs"

definition lqd_labels :: "'m sim_obj list \<Rightarrow> int list" where
  "lqd_labels objs =
     map (\<lambda>ob. lqd_label (fst (the (sd_lqd (so_dict ob))))) (filter (\<lambda>ob. sd_lqd (so_dict ob) \<noteq> None) objs)"

definition lqd_ok :: "int \<Rightarrow> int \<Rightarrow> 'm sim_obj \<Rightarrow> bool" where
  "lqd_ok a b ob \<longleftrightarrow> (case sd_lqd (so_dict ob) of None \<Rightarrow> True | Some (lp, _) \<Rightarrow> a \<le> lqd_label lp \<and> lqd_label lp < b)"

definition lqd_seq :: "int \<Rightarrow> int \<Rightarrow> 'm sim_obj list \<Rightarrow> bool" where
  "lqd_seq a b objs \<longleftrightarrow> sorted_wrt (<) (lqd_labels objs) \<and> list_all (\<lambda>x. a \<le> x \<and> x < b) (lqd_labels objs)"

subsection \<open>Example configuration\<close>

text \<open>A configuration with three materials (the third a metal, the second a
  target), two liquids (the first a target), no custom objects, and draws that
  select by label, used to run the sampler on concrete input.\<close>

definition smp_ex_cfg :: "nat smp_cfg" where
  "smp_ex_cfg =
     \<lparr>material_list = [1, 2, 3], liquid_list = [10, 11], material_pdf = [1/2, 1/4, 1/4],
      liquid_pdf = [1/2, 1/2], lqd_prob = 1/2, sheet_prob = 1/5, dim_range = (5, 20),
      spawn_sheets = True, spawn_liquids = True, sheet_dim_list = [2, 3, 4, 5, 6],
      custom_objects = None, custom_obj_prob = 0, metal_amt = None, metal_size = None,
      num_range = None, is_liquid = False, metals = [3], targets = [2, 10], bb_label = 3,
      bag_geom = \<lparr>size = 100, bb_h = 30, extents = None\<rparr>\<rparr>"

definition smp_ex_geo :: geo_draw where
  "smp_ex_geo = \<lparr>g_v1 = [1/2, 1/2, 1/2], g_v2 = [0, 0, 0], g_s1 = 1/2, g_s2 = 1/2, g_k = 0\<rparr>"

definition smp_ex_chg :: chg_draw where
  "smp_ex_chg = \<lparr>c_mat_k = 0, c_lmat_k = 0, c_level = 1/2, c_cntr_k = 0, c_swap_k = 0\<rparr>"

definition smp_ex_draws :: "int \<Rightarrow> obj_draw" where
  "smp_ex_draws i =
     \<lparr>d_mat = nat i, d_shape = nat i, d_geo = smp_ex_geo, d_lqd = nat i, d_pose = (1/2, 1/4), d_level = 1/2,
      d_lmat = 0, d_cntr = 0, d_lswap = 0, d_swap = 0, d_chg = smp_ex_chg\<rparr>"

definition smp_ex_top :: "nat \<Rightarrow> top_draw" where
  "smp_ex_top k = \<lparr>t_shape = k, t_geo = smp_ex_geo, t_chg = smp_ex_chg\<rparr>"

definition smp_ex_metal :: "nat sim_obj" where
  "smp_ex_metal =
     \<lparr>so_dict = \<lparr>sd_shape = Box, sd_geom = GEmpty, sd_mat = 3, sd_label = 4, sd_lqd = None\<rparr>,
      so_pose = (0, 0, 0), so_label = 4, so_data = \<lparr>nrows = 1, ncols = 400, px = (\<lambda>i j. 4)\<rparr>\<rparr>"

definition smp_ex_small :: grid where
  "smp_ex_small = \<lparr>nrows = 1, ncols = 250, px = (\<lambda>i j. 1)\<rparr>"

subsection \<open>Choices\<close>

declare resc_loop.simps [simp del] topup_loop.simps [simp del]

lemma np_choice_in: "np_choice xs k = Inr x \<Longrightarrow> x \<in> set xs"
  by (auto simp: np_choice_def split: if_splits)

lemma np_choice_p_in: "np_choice_p xs ps k = Inr x \<Longrightarrow> x \<in> set xs"
  by (auto simp: np_choice_p_def split: if_splits dest!: np_choice_in set_zip_leftD)

subsection \<open>The steps of one object\<close>

text \<open>What each block of the loop body does to the labels, to \<^verbatim>\<open>self.lqd_count\<close>, to
  the object list and to the loop variable.\<close>

lemma change_object_material_Some:
  "change_object_material cfg rast cd tgt cl shp g oi op lc = Inr r \<Longrightarrow> \<exists>i p. oi = Some i \<and> op = Some p"
  by (cases oi; cases op) (auto simp: change_object_material_def sbind_Inr_iff split: prod.splits)

lemma change_object_material_Inr:
  assumes "change_object_material cfg rast cd tgt cl shp g oi op lc = Inr (ob, lc')"
  shows "oi = Some (sd_label (so_dict ob)) \<and> op = Some (so_pose ob) \<and> so_label ob = sd_label (so_dict ob) \<and>
         so_data ob = rast (so_dict ob) \<and> lc \<le> lc' \<and> lqd_ok lc lc' ob \<and>
         (\<not> cl \<longrightarrow> sd_lqd (so_dict ob) = None \<and> lc' = lc) \<and>
         (cl \<longrightarrow> (\<exists>lp lm. sd_lqd (so_dict ob) = Some (lp, lm) \<and>
                   lm \<in> set (if is_liquid cfg then lqd_target_list cfg else lqd_non_target_list cfg)))"
proof -
  obtain i p where ip: "oi = Some i" "op = Some p"
    using change_object_material_Some [OF assms] by blast
  show ?thesis
    using assms unfolding ip
    by (cases cl) (auto simp: change_object_material_def sbind_Inr_iff mk_obj_def lqd_ok_def
                        split: if_splits dest: np_choice_in)
qed

lemma lqd_ok_mono: "lqd_ok a b ob \<Longrightarrow> a' \<le> a \<Longrightarrow> b \<le> b' \<Longrightarrow> lqd_ok a' b' ob"
  by (auto simp: lqd_ok_def split: option.splits)

lemma lqd_ok_dict: "so_dict ob' = so_dict ob \<Longrightarrow> lqd_ok a b ob' = lqd_ok a b ob"
  by (simp add: lqd_ok_def)

lemma lqd_ok_None: "sd_lqd (so_dict ob) = None \<Longrightarrow> lqd_ok a b ob"
  by (simp add: lqd_ok_def)

lemma liquid_params_Inr:
  "liquid_params cfg d c st = Inr ((lp, lm), c', st') \<Longrightarrow>
   lqd_label lp = lqd_count st \<and> lqd_count st' = lqd_count st + 1 \<and> obj_list st' = obj_list st \<and>
   last_i st' = last_i st"
  by (auto simp: liquid_params_def sbind_Inr_iff Let_def split: if_splits)

lemma spawn_obj_Inr:
  "spawn_obj cfg rast d c shp g lo i p st = Inr (ob, c', st') \<Longrightarrow>
   sd_label (so_dict ob) = i \<and> lqd_count st \<le> lqd_count st' \<and> lqd_ok (lqd_count st) (lqd_count st') ob \<and>
   obj_list st' = obj_list st \<and> last_i st' = last_i st"
  by (auto simp: spawn_obj_def sbind_Inr_iff mk_obj_def lqd_ok_def split: if_splits dest!: liquid_params_Inr)

lemma target_adjust_Inr:
  "target_adjust cfg rast cd shp g i p c ob st = Inr (ob', st') \<Longrightarrow>
   (ob' = ob \<and> st' = st) \<or>
   (sd_label (so_dict ob') = i \<and> lqd_count st \<le> lqd_count st' \<and> lqd_ok (lqd_count st) (lqd_count st') ob' \<and>
    obj_list st' = obj_list st \<and> last_i st' = last_i st)"
  by (auto simp: target_adjust_def map_sum_Inr_iff split: if_splits dest!: change_object_material_Inr)

lemma metal_adjust_Inr:
  "metal_adjust cfg rast rs cd shp g i p c ob st = Inr (ob', st') \<Longrightarrow>
   (so_dict ob' = so_dict ob \<or> sd_label (so_dict ob') = i \<and> sd_lqd (so_dict ob') = None) \<and>
   lqd_count st' = lqd_count st \<and> obj_list st' = obj_list st \<and> last_i st' = last_i st"
  by (auto simp: metal_adjust_def Let_def map_sum_Inr_iff split: if_splits prod.splits option.splits
           dest!: change_object_material_Inr)

lemma smp_tail_Inr:
  assumes "sbind (spawn_obj cfg rast d c shp g lo i p st0) (\<lambda>(ob, c', st1).
             sbind (target_adjust cfg rast cd shp g i p c' ob st1) (\<lambda>(ob2, st2).
             sbind (metal_adjust cfg rast rs cd shp g i p c' ob2 st2) (\<lambda>(ob3, st3).
             Inr (append_obj cfg ob3 st3)))) = Inr st'"
  shows "\<exists>ob. obj_list st' = obj_list st0 @ [ob] \<and> sd_label (so_dict ob) = i \<and> last_i st' = last_i st0 \<and>
              lqd_count st0 \<le> lqd_count st' \<and> lqd_ok (lqd_count st0) (lqd_count st') ob"
proof -
  obtain ob c' st1 where sp: "spawn_obj cfg rast d c shp g lo i p st0 = Inr (ob, c', st1)" and
    r1: "sbind (target_adjust cfg rast cd shp g i p c' ob st1) (\<lambda>(ob2, st2).
             sbind (metal_adjust cfg rast rs cd shp g i p c' ob2 st2) (\<lambda>(ob3, st3).
             Inr (append_obj cfg ob3 st3))) = Inr st'"
    using assms by (auto simp: sbind_Inr_iff)
  obtain ob2 st2 where ta: "target_adjust cfg rast cd shp g i p c' ob st1 = Inr (ob2, st2)" and
    r2: "sbind (metal_adjust cfg rast rs cd shp g i p c' ob2 st2) (\<lambda>(ob3, st3).
             Inr (append_obj cfg ob3 st3)) = Inr st'"
    using r1 by (auto simp: sbind_Inr_iff)
  obtain ob3 st3 where ma: "metal_adjust cfg rast rs cd shp g i p c' ob2 st2 = Inr (ob3, st3)" and
    st': "st' = append_obj cfg ob3 st3"
    using r2 by (auto simp: sbind_Inr_iff)
  note s = spawn_obj_Inr [OF sp] and m = metal_adjust_Inr [OF ma]
  have t: "sd_label (so_dict ob2) = i \<and> lqd_count st0 \<le> lqd_count st2 \<and>
           lqd_ok (lqd_count st0) (lqd_count st2) ob2 \<and> obj_list st2 = obj_list st0 \<and> last_i st2 = last_i st0"
    using target_adjust_Inr [OF ta]
  proof
    assume "ob2 = ob \<and> st2 = st1"
    with s show ?thesis by simp
  next
    assume a: "sd_label (so_dict ob2) = i \<and> lqd_count st1 \<le> lqd_count st2 \<and>
               lqd_ok (lqd_count st1) (lqd_count st2) ob2 \<and> obj_list st2 = obj_list st1 \<and> last_i st2 = last_i st1"
    with s have "lqd_ok (lqd_count st0) (lqd_count st2) ob2"
      by (meson lqd_ok_mono order_refl)
    with a s show ?thesis by simp
  qed
  have "sd_label (so_dict ob3) = i \<and> lqd_ok (lqd_count st0) (lqd_count st3) ob3"
    using m t lqd_ok_dict [of ob3 ob2 "lqd_count st0" "lqd_count st3"] lqd_ok_None [of ob3] by auto
  with t m st' show ?thesis
    by (auto simp: append_obj_def)
qed

lemma smp_obj_Inr:
  assumes "smp_obj cfg rast rs pr d i st = Inr st'"
  shows "\<exists>ob. obj_list st' = obj_list st @ [ob] \<and> sd_label (so_dict ob) = i \<and> last_i st' = Some i \<and>
              lqd_count st \<le> lqd_count st' \<and> lqd_ok (lqd_count st) (lqd_count st') ob"
proof -
  obtain c shp g lo p st0 where st0: "obj_list st0 = obj_list st" "last_i st0 = Some i" "lqd_count st0 = lqd_count st"
    and tl: "sbind (spawn_obj cfg rast d c shp g lo i p st0) (\<lambda>(ob, c', st1).
             sbind (target_adjust cfg rast (d_chg d) shp g i p c' ob st1) (\<lambda>(ob2, st2).
             sbind (metal_adjust cfg rast rs (d_chg d) shp g i p c' ob2 st2) (\<lambda>(ob3, st3).
             Inr (append_obj cfg ob3 st3)))) = Inr st'"
    using assms unfolding smp_obj_def Let_def sbind_Inr_iff [of "np_choice_p _ _ _"]
      sbind_Inr_iff [of "sample_geom _ _ _ _ _"]
    by (elim exE conjE) (rule that [rotated 3], assumption, simp_all)
  from smp_tail_Inr [OF tl] st0 show ?thesis by simp
qed

lemma topup_obj_Inr:
  assumes "topup_obj cfg rast td st = Inr st'"
  shows "\<exists>ob. obj_list st' = obj_list st @ [ob] \<and> last_i st = Some (sd_label (so_dict ob)) \<and>
              last_i st' = last_i st \<and> lqd_count st \<le> lqd_count st' \<and> lqd_ok (lqd_count st) (lqd_count st') ob"
proof -
  obtain shp g ob lc where
    c: "change_object_material cfg rast (t_chg td) True (is_liquid cfg) shp g (last_i st) (last_pose st)
          (lqd_count st) = Inr (ob, lc)" and
    st': "st' = st\<lparr>lqd_count := lc, obj_list := obj_list st @ [ob]\<rparr>"
    using assms by (auto simp: topup_obj_def sbind_Inr_iff)
  from change_object_material_Inr [OF c] st' show ?thesis by auto
qed

subsection \<open>The loops\<close>

text \<open>The main loop appends one object per label, in order, with strictly
  increasing liquid labels from \<^verbatim>\<open>self.lqd_count\<close> on; the top-up loop appends
  \<^verbatim>\<open>num_range[0] - target_counter\<close> objects, all with the label the main loop left in
  \<^verbatim>\<open>i\<close>.\<close>

lemma lqd_seq_Nil [simp]: "lqd_seq a b []"
  by (simp add: lqd_seq_def lqd_labels_def)

lemma lqd_seq_Cons:
  assumes "lqd_ok a b ob" "lqd_seq b c objs" "a \<le> b" "b \<le> c"
  shows "lqd_seq a c (ob # objs)"
proof (cases "sd_lqd (so_dict ob)")
  case None
  with assms show ?thesis
    by (auto simp: lqd_seq_def lqd_labels_def list_all_iff)
next
  case (Some q)
  obtain lp lm where q: "q = (lp, lm)" by (cases q)
  have l: "lqd_labels (ob # objs) = lqd_label lp # lqd_labels objs"
    using Some q by (simp add: lqd_labels_def)
  from assms(1) Some q have "a \<le> lqd_label lp" "lqd_label lp < b"
    by (auto simp: lqd_ok_def)
  with assms(2,4) show ?thesis
    unfolding lqd_seq_def l by (fastforce simp: list_all_iff)
qed

lemma smp_loop_labels:
  "smp_loop cfg rast rs pr dr is st = Inr st' \<Longrightarrow>
   \<exists>new. obj_list st' = obj_list st @ new \<and> solid_labels new = is \<and> lqd_count st \<le> lqd_count st' \<and>
         lqd_seq (lqd_count st) (lqd_count st') new \<and>
         last_i st' = (if is = [] then last_i st else Some (last is))"
proof (induction "is" arbitrary: st)
  case Nil
  then show ?case by (simp add: solid_labels_def)
next
  case (Cons i "is")
  from Cons.prems obtain st1 where o: "smp_obj cfg rast rs pr (dr i) i st = Inr st1"
    and r: "smp_loop cfg rast rs pr dr is st1 = Inr st'"
    by (auto simp: sbind_Inr_iff)
  from smp_obj_Inr [OF o] obtain ob where ob: "obj_list st1 = obj_list st @ [ob]" "sd_label (so_dict ob) = i"
    "last_i st1 = Some i" "lqd_count st \<le> lqd_count st1" "lqd_ok (lqd_count st) (lqd_count st1) ob"
    by blast
  from Cons.IH [OF r] obtain new where n: "obj_list st' = obj_list st1 @ new" "solid_labels new = is"
    "lqd_count st1 \<le> lqd_count st'" "lqd_seq (lqd_count st1) (lqd_count st') new"
    "last_i st' = (if is = [] then last_i st1 else Some (last is))"
    by blast
  show ?case
  proof (intro exI conjI)
    show "obj_list st' = obj_list st @ ob # new" using ob n by simp
    show "solid_labels (ob # new) = i # is" using ob n by (simp add: solid_labels_def)
    show "lqd_count st \<le> lqd_count st'" using ob n by simp
    show "lqd_seq (lqd_count st) (lqd_count st') (ob # new)" using ob n by (blast intro: lqd_seq_Cons)
    show "last_i st' = (if i # is = [] then last_i st else Some (last (i # is)))" using ob n by simp
  qed
qed

lemma topup_loop_labels:
  "topup_loop cfg rast td lo k st = Inr st' \<Longrightarrow>
   \<exists>new. obj_list st' = obj_list st @ new \<and>
         solid_labels new = replicate (lo - target_counter st) (the (last_i st)) \<and>
         (new \<noteq> [] \<longrightarrow> last_i st \<noteq> None) \<and> lqd_count st \<le> lqd_count st' \<and>
         lqd_seq (lqd_count st) (lqd_count st') new \<and> last_i st' = last_i st"
proof (induction cfg rast td lo k st rule: topup_loop.induct)
  case (1 cfg rast td lo k st)
  show ?case
  proof (cases "target_counter st < lo")
    case False
    with "1.prems" show ?thesis
      by (simp add: topup_loop.simps solid_labels_def)
  next
    case True
    with "1.prems" obtain st1 where o: "topup_obj cfg rast (td k) st = Inr st1"
      and r: "topup_loop cfg rast td lo (Suc k) (st1\<lparr>target_counter := Suc (target_counter st)\<rparr>) = Inr st'"
      by (auto simp: topup_loop.simps sbind_Inr_iff)
    from topup_obj_Inr [OF o] obtain ob where ob: "obj_list st1 = obj_list st @ [ob]"
      "last_i st = Some (sd_label (so_dict ob))" "last_i st1 = last_i st" "lqd_count st \<le> lqd_count st1"
      "lqd_ok (lqd_count st) (lqd_count st1) ob"
      by blast
    from "1.IH" [OF True r] ob obtain new where n: "obj_list st' = obj_list st1 @ new"
      "solid_labels new = replicate (lo - Suc (target_counter st)) (the (last_i st))"
      "lqd_count st1 \<le> lqd_count st'" "lqd_seq (lqd_count st1) (lqd_count st') new" "last_i st' = last_i st"
      by auto
    have rep: "lo - target_counter st = Suc (lo - Suc (target_counter st))" using True by simp
    show ?thesis
    proof (intro exI conjI)
      show "obj_list st' = obj_list st @ ob # new" using ob n by simp
      show "solid_labels (ob # new) = replicate (lo - target_counter st) (the (last_i st))"
        using ob n rep by (simp add: solid_labels_def)
      show "ob # new \<noteq> [] \<longrightarrow> last_i st \<noteq> None" using ob by simp
      show "lqd_count st \<le> lqd_count st'" using ob n by simp
      show "lqd_seq (lqd_count st) (lqd_count st') (ob # new)" using ob n by (blast intro: lqd_seq_Cons)
      show "last_i st' = last_i st" using n by simp
    qed
  qed
qed

lemma smp_labels_props:
  "length (smp_labels cfg n) = n" "distinct (smp_labels cfg n)"
  "set (smp_labels cfg n) = {bb_label cfg + 1 .. bb_label cfg + int n}"
  by (auto simp: smp_labels_def)

lemma smp_labels_last:
  "0 < n \<Longrightarrow> last (smp_labels cfg n) = bb_label cfg + int n"
  by (simp add: smp_labels_def upto_rec2)

lemma smp_init_simps [simp]:
  "obj_list (smp_init cfg n) = []" "last_i (smp_init cfg n) = None" "target_counter (smp_init cfg n) = 0"
  "lqd_count (smp_init cfg n) = bb_label cfg + 1 + int n"
  by (simp_all add: smp_init_def)

lemma shuffle_by_mset:
  assumes "mset perm = mset [0..<length xs]"
  shows "mset (shuffle_by perm xs) = mset xs"
proof -
  have "mset (shuffle_by perm xs) = image_mset (nth xs) (mset perm)"
    by (simp add: shuffle_by_def)
  also have "\<dots> = mset (map (nth xs) [0..<length xs])"
    using assms by simp
  also have "map (nth xs) [0..<length xs] = xs"
    by (rule map_nth)
  finally show ?thesis .
qed

lemma labels_mset:
  "mset xs = mset ys \<Longrightarrow> mset (solid_labels xs) = mset (solid_labels ys)"
  "mset xs = mset ys \<Longrightarrow> mset (lqd_labels xs) = mset (lqd_labels ys)"
  by (simp_all add: solid_labels_def lqd_labels_def)

lemma shuffle_by_length:
  "mset perm = mset [0..<length xs] \<Longrightarrow> length (shuffle_by perm xs) = length xs"
  using shuffle_by_mset size_mset by metis

lemma create_random_object_list_Inr:
  assumes "create_random_object_list cfg rast rs no nk dr td perm = Inr (objs, st)"
  shows "\<exists>n st1. smp_loop cfg rast rs (smp_pose_range cfg) dr (smp_labels cfg n) (smp_init cfg n) = Inr st1 \<and>
           (case num_range cfg of None \<Rightarrow> st = st1 | Some (lo, hi) \<Rightarrow> topup_loop cfg rast td lo 0 st1 = Inr st) \<and>
           objs = shuffle_by perm (obj_list st) \<and> (no = NFixed n \<or> (\<exists>ns. no = NOneOf ns))"
  using assms
  by (cases no; cases "num_range cfg") (fastforce simp: create_random_object_list_def sbind_Inr_iff)+

text \<open>A spawn pose drawn with \<open>np.random.rand()\<close> values in \<open>[0, 1)\<close> lies in the pose
  range on both lateral axes.\<close>

lemma sample_pose_in_range:
  assumes "0 \<le> u1" "u1 < 1" "0 \<le> u2" "u2 < 1" "fst pr \<le> snd pr"
  shows "fst (sample_pose pr mx (u1, u2)) = fst pr + mx \<and>
         fst pr \<le> fst (snd (sample_pose pr mx (u1, u2))) \<and> fst (snd (sample_pose pr mx (u1, u2))) \<le> snd pr \<and>
         fst pr \<le> snd (snd (sample_pose pr mx (u1, u2))) \<and> snd (snd (sample_pose pr mx (u1, u2))) \<le> snd pr"
proof -
  have r: "fst pr \<le> py_int (u * of_int (snd pr - fst pr) + of_int (fst pr)) \<and>
           py_int (u * of_int (snd pr - fst pr) + of_int (fst pr)) \<le> snd pr" if "0 \<le> u" "u < 1" for u :: rat
  proof -
    let ?x = "u * of_int (snd pr - fst pr) + of_int (fst pr)"
    have "0 \<le> u * of_int (snd pr - fst pr)" using that assms(5) by simp
    moreover have "u * of_int (snd pr - fst pr) \<le> of_int (snd pr - fst pr)"
      using that assms(5) by (simp add: mult_left_le_one_le)
    ultimately have "of_int (fst pr) \<le> ?x" "?x \<le> of_int (snd pr)" by simp_all
    then show ?thesis
      by (auto simp: py_int_def le_floor_iff floor_le_iff) linarith+
  qed
  from r [OF assms(1,2)] r [OF assms(3,4)] show ?thesis
    by (simp add: sample_pose_def)
qed

subsection \<open>Properties of the sampler\<close>

text \<open>C8: The labels \<^verbatim>\<open>create_random_object_list\<close> assigns obey the label rule of
  the design: without a target range, after the shuffle the solid labels are distinct and
  above \<^verbatim>\<open>bb_label\<close>, the liquid labels are distinct, and every liquid label is above
  every solid label.\<close>

theorem sampler_labels_unique:
  assumes run: "create_random_object_list cfg rast rs no nk dr td perm = Inr (objs, st)"
    and nr: "num_range cfg = None"
    and perm: "mset perm = mset [0..<length (obj_list st)]"
  shows "distinct (solid_labels objs) \<and> list_all (\<lambda>x. bb_label cfg < x) (solid_labels objs) \<and>
         distinct (lqd_labels objs) \<and> list_all (\<lambda>y. list_all (\<lambda>x. x < y) (solid_labels objs)) (lqd_labels objs)"
proof -
  from create_random_object_list_Inr [OF run] nr obtain n where
    loop: "smp_loop cfg rast rs (smp_pose_range cfg) dr (smp_labels cfg n) (smp_init cfg n) = Inr st"
    and objs: "objs = shuffle_by perm (obj_list st)"
    by auto
  from smp_loop_labels [OF loop] have
    sl: "solid_labels (obj_list st) = smp_labels cfg n" and
    lq: "lqd_seq (bb_label cfg + 1 + int n) (lqd_count st) (obj_list st)"
    by auto
  have m: "mset objs = mset (obj_list st)"
    using shuffle_by_mset [OF perm] objs by simp
  have ms: "mset (solid_labels objs) = mset (smp_labels cfg n)"
    using labels_mset(1) [OF m] sl by simp
  have ml: "mset (lqd_labels objs) = mset (lqd_labels (obj_list st))"
    using labels_mset(2) [OF m] .
  have ss: "set (solid_labels objs) = {bb_label cfg + 1 .. bb_label cfg + int n}"
    using mset_eq_setD [OF ms] smp_labels_props(3) by simp
  have sq: "set (lqd_labels objs) \<subseteq> {bb_label cfg + 1 + int n ..}"
    using mset_eq_setD [OF ml] lq by (auto simp: lqd_seq_def list_all_iff)
  have "distinct (solid_labels objs)"
    using mset_eq_imp_distinct_iff [OF ms] smp_labels_props(2) by simp
  moreover have "distinct (lqd_labels objs)"
    using mset_eq_imp_distinct_iff [OF ml] lq by (simp add: lqd_seq_def strict_sorted_iff)
  moreover have "list_all (\<lambda>y. list_all (\<lambda>x. x < y) (solid_labels objs)) (lqd_labels objs)"
    using ss sq by (fastforce simp: list_all_iff)
  ultimately show ?thesis
    using ss by (auto simp: list_all_iff)
qed

theorem sampler_labels_unique_witness:
  "\<exists>objs st. create_random_object_list smp_ex_cfg (\<lambda>d. zeros 1 1) id (NFixed 3) 0 smp_ex_draws smp_ex_top [2, 0, 1]
              = Inr (objs, st) \<and> num_range smp_ex_cfg = None \<and> mset [2, 0, 1] = mset [0..<length (obj_list st)] \<and>
     distinct (solid_labels objs) \<and> list_all (\<lambda>x. bb_label smp_ex_cfg < x) (solid_labels objs) \<and>
     distinct (lqd_labels objs) \<and> list_all (\<lambda>y. list_all (\<lambda>x. x < y) (solid_labels objs)) (lqd_labels objs) \<and>
     solid_labels objs = [6, 4, 5] \<and> lqd_labels objs = [7]"
proof -
  let ?r = "create_random_object_list smp_ex_cfg (\<lambda>d. zeros 1 1) id (NFixed 3) 0 smp_ex_draws smp_ex_top [2, 0, 1]"
  have "map_sum id (\<lambda>(objs, st). (length (obj_list st), solid_labels objs, lqd_labels objs)) ?r = Inr (3, [6, 4, 5], [7])"
    by code_simp
  then obtain objs st where run: "?r = Inr (objs, st)" and len: "length (obj_list st) = 3"
    and lab: "solid_labels objs = [6, 4, 5]" "lqd_labels objs = [7]"
    by (auto simp: map_sum_Inr_iff)
  have nr: "num_range smp_ex_cfg = None" by (simp add: smp_ex_cfg_def)
  have pm: "mset [2, 0, 1 :: nat] = mset [0..<length (obj_list st)]"
    using len by (simp add: upt_rec)
  from sampler_labels_unique [OF run nr pm] run nr pm lab show ?thesis by blast
qed

text \<open>C9: Whenever the target top-up loop adds objects, the returned list holds a
  repeated solid label: \<^verbatim>\<open>change_object_material\<close> reads the loop variable \<^verbatim>\<open>i\<close> after
  the main loop, so every top-up object reuses the last main-loop label.\<close>

theorem sampler_topup_duplicates_label:
  assumes run: "create_random_object_list cfg rast rs (NFixed n) nk dr td perm = Inr (objs, st)"
    and perm: "mset perm = mset [0..<length (obj_list st)]"
    and more: "n < length objs"
  shows "\<not> distinct (solid_labels objs)"
proof -
  from create_random_object_list_Inr [OF run] obtain st1 where
    loop: "smp_loop cfg rast rs (smp_pose_range cfg) dr (smp_labels cfg n) (smp_init cfg n) = Inr st1"
    and top: "case num_range cfg of None \<Rightarrow> st = st1 | Some (lo, hi) \<Rightarrow> topup_loop cfg rast td lo 0 st1 = Inr st"
    and objs: "objs = shuffle_by perm (obj_list st)"
    by auto
  from smp_loop_labels [OF loop] have
    sl: "solid_labels (obj_list st1) = smp_labels cfg n" and
    li: "last_i st1 = (if smp_labels cfg n = [] then None else Some (last (smp_labels cfg n)))"
    by auto
  have len1: "length (obj_list st1) = n"
    using arg_cong [OF sl, of length] smp_labels_props(1) by (simp add: solid_labels_def)
  have len: "length objs = length (obj_list st)"
    using shuffle_by_length [OF perm] objs by simp
  obtain lo hi where nr: "num_range cfg = Some (lo, hi)"
    using top len len1 more by (cases "num_range cfg") auto
  with top have tl: "topup_loop cfg rast td lo 0 st1 = Inr st" by simp
  from topup_loop_labels [OF tl] obtain new where
    n1: "obj_list st = obj_list st1 @ new" and
    n2: "solid_labels new = replicate (lo - target_counter st1) (the (last_i st1))" and
    n3: "new \<noteq> [] \<longrightarrow> last_i st1 \<noteq> None"
    by blast
  have "new \<noteq> []" using n1 len len1 more by auto
  with n3 li have ne: "smp_labels cfg n \<noteq> []" and l: "last_i st1 = Some (last (smp_labels cfg n))"
    by (auto split: if_splits)
  have "the (last_i st1) \<in> set (solid_labels new)"
    using n2 \<open>new \<noteq> []\<close> l by (auto simp: solid_labels_def dest: arg_cong [of _ _ length])
  moreover have "the (last_i st1) \<in> set (solid_labels (obj_list st1))"
    using sl l ne by simp
  ultimately have "\<not> distinct (solid_labels (obj_list st))"
    using n1 by (auto simp: solid_labels_def)
  moreover have "mset (solid_labels objs) = mset (solid_labels (obj_list st))"
    using labels_mset(1) shuffle_by_mset [OF perm] objs by simp
  ultimately show ?thesis
    using mset_eq_imp_distinct_iff by metis
qed

theorem sampler_topup_duplicates_label_witness:
  "\<exists>objs st. create_random_object_list (smp_ex_cfg\<lparr>num_range := Some (2, 3)\<rparr>) (\<lambda>d. zeros 1 1) id (NFixed 1) 0
                smp_ex_draws smp_ex_top [0, 1] = Inr (objs, st) \<and>
     mset [0, 1] = mset [0..<length (obj_list st)] \<and> 1 < length objs \<and>
     \<not> distinct (solid_labels objs) \<and> solid_labels objs = [4, 4]"
proof -
  let ?r = "create_random_object_list (smp_ex_cfg\<lparr>num_range := Some (2, 3)\<rparr>) (\<lambda>d. zeros 1 1) id (NFixed 1) 0
                smp_ex_draws smp_ex_top [0, 1]"
  have "map_sum id (\<lambda>(objs, st). (length (obj_list st), length objs, solid_labels objs)) ?r = Inr (2, 2, [4, 4])"
    by code_simp
  then obtain objs st where run: "?r = Inr (objs, st)" and len: "length (obj_list st) = 2" "length objs = 2"
    and lab: "solid_labels objs = [4, 4]"
    by (auto simp: map_sum_Inr_iff)
  have pm: "mset [0, 1 :: nat] = mset [0..<length (obj_list st)]"
    using len by (simp add: upt_rec)
  from sampler_topup_duplicates_label [OF run pm] run pm len lab show ?thesis by auto
qed

text \<open>C30: With \<^verbatim>\<open>number_of_objects = 0\<close> and a positive minimum number of
  targets the sampler never returns a list: the top-up loop's
  \<^verbatim>\<open>change_object_material\<close> reads \<^verbatim>\<open>i\<close> and \<^verbatim>\<open>c_pose\<close>, which the empty main loop
  never bound.\<close>

theorem sampler_no_objects_topup_fails:
  assumes "num_range cfg = Some (lo, hi)" "0 < lo"
  shows "\<exists>e. create_random_object_list cfg rast rs (NFixed 0) nk dr td perm = Inl e"
proof (cases "create_random_object_list cfg rast rs (NFixed 0) nk dr td perm")
  case (Inr r)
  obtain objs st where r: "r = (objs, st)" by (cases r)
  from create_random_object_list_Inr [OF Inr [unfolded r]] assms obtain st1 where
    loop: "smp_loop cfg rast rs (smp_pose_range cfg) dr (smp_labels cfg 0) (smp_init cfg 0) = Inr st1"
    and tl: "topup_loop cfg rast td lo 0 st1 = Inr st"
    by auto
  have "st1 = smp_init cfg 0" using loop by (simp add: smp_labels_def)
  with topup_loop_labels [OF tl] assms(2) show ?thesis
    by (auto simp: solid_labels_def)
qed simp

theorem sampler_no_objects_topup_fails_witness:
  "num_range (smp_ex_cfg\<lparr>num_range := Some (1, 2)\<rparr>) = Some (1, 2) \<and> 0 < (1 :: nat) \<and>
   (\<exists>e. create_random_object_list (smp_ex_cfg\<lparr>num_range := Some (1, 2)\<rparr>) (\<lambda>d. zeros 1 1) id (NFixed 0) 0
          smp_ex_draws smp_ex_top [] = Inl e) \<and>
   map_sum id (\<lambda>_. ()) (create_random_object_list (smp_ex_cfg\<lparr>num_range := Some (1, 2)\<rparr>) (\<lambda>d. zeros 1 1) id
          (NFixed 0) 0 smp_ex_draws smp_ex_top []) = Inl NameError"
proof -
  have "map_sum id (\<lambda>_. ()) (create_random_object_list (smp_ex_cfg\<lparr>num_range := Some (1, 2)\<rparr>) (\<lambda>d. zeros 1 1) id
          (NFixed 0) 0 smp_ex_draws smp_ex_top []) = Inl NameError"
    by code_simp
  with sampler_no_objects_topup_fails [of "smp_ex_cfg\<lparr>num_range := Some (1, 2)\<rparr>" 1 2 "\<lambda>d. zeros 1 1" id 0
         smp_ex_draws smp_ex_top "[]"]
  show ?thesis by simp
qed

text \<open>C15: The adjustment for too many targets, with
  \<^verbatim>\<open>target_dict['is_liquid']\<close> set, replaces a target object by a container of a
  target liquid and leaves \<^verbatim>\<open>target_counter\<close> unchanged, so the number of targets can
  exceed \<^verbatim>\<open>num_range[1]\<close>.\<close>

theorem target_adjust_target_liquid:
  assumes "target_adjust cfg rast cd shp g i p c ob st = Inr (ob', st')"
    and "num_range cfg = Some (lo, hi)" "target_counter st = hi" "c \<in> set (target_list cfg)"
    and "is_liquid cfg"
  shows "\<exists>lp lm. sd_lqd (so_dict ob') = Some (lp, lm) \<and> lm \<in> set (lqd_target_list cfg) \<and>
                 target_counter st' = hi"
  using assms
  by (auto simp: target_adjust_def map_sum_Inr_iff dest!: change_object_material_Inr)

theorem target_adjust_target_liquid_witness:
  "\<exists>ob' st'. target_adjust (smp_ex_cfg\<lparr>num_range := Some (0, 1), is_liquid := True\<rparr>) (\<lambda>d. zeros 1 1) smp_ex_chg
                Box GEmpty 4 (0, 0, 0) 2 (smp_ex_metal\<lparr>so_dict := (so_dict smp_ex_metal)\<lparr>sd_mat := 2\<rparr>\<rparr>)
                ((smp_init smp_ex_cfg 1)\<lparr>target_counter := 1\<rparr>) = Inr (ob', st') \<and>
     num_range (smp_ex_cfg\<lparr>num_range := Some (0, 1), is_liquid := True\<rparr>) = Some (0, 1) \<and>
     target_counter ((smp_init smp_ex_cfg 1)\<lparr>target_counter := 1\<rparr>) = 1 \<and>
     2 \<in> set (target_list (smp_ex_cfg\<lparr>num_range := Some (0, 1), is_liquid := True\<rparr>)) \<and>
     is_liquid (smp_ex_cfg\<lparr>num_range := Some (0, 1), is_liquid := True\<rparr>) \<and>
     (\<exists>lp lm. sd_lqd (so_dict ob') = Some (lp, lm) \<and>
              lm \<in> set (lqd_target_list (smp_ex_cfg\<lparr>num_range := Some (0, 1), is_liquid := True\<rparr>)) \<and>
              target_counter st' = 1) \<and>
     sd_mat (so_dict ob') = 1 \<and> map_option snd (sd_lqd (so_dict ob')) = Some 10"
proof -
  let ?c = "smp_ex_cfg\<lparr>num_range := Some (0, 1), is_liquid := True\<rparr>"
  let ?ob = "smp_ex_metal\<lparr>so_dict := (so_dict smp_ex_metal)\<lparr>sd_mat := 2\<rparr>\<rparr>"
  let ?st = "(smp_init smp_ex_cfg 1)\<lparr>target_counter := 1\<rparr>"
  let ?r = "target_adjust ?c (\<lambda>d. zeros 1 1) smp_ex_chg Box GEmpty 4 (0, 0, 0) 2 ?ob ?st"
  have "map_sum id (\<lambda>(ob', st'). (sd_mat (so_dict ob'), map_option snd (sd_lqd (so_dict ob')))) ?r = Inr (1, Some 10)"
    by code_simp
  then obtain x where x: "?r = Inr x"
    "(1, Some 10) = (case x of (ob', st') \<Rightarrow> (sd_mat (so_dict ob'), map_option snd (sd_lqd (so_dict ob'))))"
    unfolding map_sum_Inr_iff by blast
  obtain ob' st' where xx: "x = (ob', st')" by (cases x)
  have run: "?r = Inr (ob', st')" using x xx by simp
  have m: "sd_mat (so_dict ob') = 1" "map_option snd (sd_lqd (so_dict ob')) = Some 10"
    using x(2) xx by simp_all
  have h: "num_range ?c = Some (0, 1)" "target_counter ?st = 1" "2 \<in> set (target_list ?c)" "is_liquid ?c"
    by (simp_all add: smp_ex_cfg_def target_list_def non_metal_list_def)
  from target_adjust_target_liquid [OF run h] run h m show ?thesis by blast
qed

text \<open>C14: When a metal object exceeds the remaining metal budget and rescaling
  brings its count to at least 225 pixels, the rescaled raster is discarded: the object
  keeps its full raster, which alone exceeds the budget, while only the rescaled count is
  charged.\<close>

theorem metal_adjust_overdraw:
  assumes "metal_adjust cfg rast rs cd shp g i p c ob st = Inr (ob', st')"
    and "metal_left st = Some m" "c \<in> set (metals cfg)" "225 < m" "m < int (cnt_nz (so_data ob))"
    and "sd_lqd (so_dict ob) = None"
    and "resc_loop rs m (gbin (so_data ob)) (cnt_nz (so_data ob)) 0 = (b, a)" "225 \<le> a"
  shows "so_data ob' = so_data ob \<and> m < int (cnt_nz (so_data ob')) \<and> metal_left st' = Some (m - int a)"
  using assms by (auto simp: metal_adjust_def Let_def)

theorem metal_adjust_overdraw_witness:
  "\<exists>ob' st'. metal_adjust smp_ex_cfg (\<lambda>d. zeros 1 1) (\<lambda>g. smp_ex_small) smp_ex_chg Box GEmpty 4 (0, 0, 0) 3
                smp_ex_metal ((smp_init smp_ex_cfg 1)\<lparr>metal_left := Some 300\<rparr>) = Inr (ob', st') \<and>
     metal_left ((smp_init smp_ex_cfg 1)\<lparr>metal_left := Some 300\<rparr>) = Some 300 \<and> 3 \<in> set (metals smp_ex_cfg) \<and>
     (225 :: int) < 300 \<and> 300 < int (cnt_nz (so_data smp_ex_metal)) \<and> sd_lqd (so_dict smp_ex_metal) = None \<and>
     resc_loop (\<lambda>g. smp_ex_small) 300 (gbin (so_data smp_ex_metal)) (cnt_nz (so_data smp_ex_metal)) 0
       = (smp_ex_small, 250) \<and> (225 :: nat) \<le> 250 \<and>
     so_data ob' = so_data smp_ex_metal \<and> 300 < int (cnt_nz (so_data ob')) \<and> metal_left st' = Some 50"
proof -
  let ?st = "(smp_init smp_ex_cfg 1)\<lparr>metal_left := Some 300\<rparr>"
  have c1: "cnt_nz (so_data smp_ex_metal) = 400" by code_simp
  have c2: "cnt_nz smp_ex_small = 250" by code_simp
  have rl: "resc_loop (\<lambda>g. smp_ex_small) 300 (gbin (so_data smp_ex_metal)) (cnt_nz (so_data smp_ex_metal)) 0
              = (smp_ex_small, 250)"
    by (simp add: c1 c2 resc_loop.simps)
  have h: "metal_left ?st = Some 300" "3 \<in> set (metals smp_ex_cfg)" "sd_lqd (so_dict smp_ex_metal) = None"
    by (simp_all add: smp_ex_cfg_def smp_ex_metal_def)
  obtain ob' st' where run: "metal_adjust smp_ex_cfg (\<lambda>d. zeros 1 1) (\<lambda>g. smp_ex_small) smp_ex_chg Box GEmpty 4 (0, 0, 0) 3
                smp_ex_metal ?st = Inr (ob', st')"
    using h c1 rl by (simp add: metal_adjust_def Let_def)
  from metal_adjust_overdraw [OF run h(1,2) _ _ h(3) rl] c1 run h rl show ?thesis by auto
qed

text \<open>C31: A liquid probability outside \<open>[0, 1]\<close> makes every main-loop iteration
  raise \<^verbatim>\<open>ValueError\<close>, even when \<^verbatim>\<open>spawn_liquids\<close> is false, because the liquid coin
  is drawn before the \<^verbatim>\<open>spawn_liquids\<close> test.\<close>

theorem smp_obj_lqd_prob_raises:
  assumes "lqd_prob cfg < 0 \<or> 1 < lqd_prob cfg"
  shows "\<exists>e. smp_obj cfg rast rs pr d i st = Inl e"
proof (cases "smp_obj cfg rast rs pr d i st")
  case (Inr st')
  have "np_choice_p [True, False] [lqd_prob cfg, 1 - lqd_prob cfg] k = Inl ValueError" for k
    using assms by (auto simp: np_choice_p_def)
  with Inr show ?thesis
    by (auto simp: smp_obj_def sbind_Inr_iff Let_def)
qed simp

theorem smp_obj_lqd_prob_raises_witness:
  "(lqd_prob (smp_ex_cfg\<lparr>lqd_prob := 2, spawn_liquids := False\<rparr>) < 0 \<or>
    1 < lqd_prob (smp_ex_cfg\<lparr>lqd_prob := 2, spawn_liquids := False\<rparr>)) \<and>
   (\<exists>e. smp_obj (smp_ex_cfg\<lparr>lqd_prob := 2, spawn_liquids := False\<rparr>) (\<lambda>d. zeros 1 1) id (20, 70)
          (smp_ex_draws 4) 4 (smp_init smp_ex_cfg 1) = Inl e) \<and>
   map_sum id (\<lambda>_. ()) (smp_obj (smp_ex_cfg\<lparr>lqd_prob := 2, spawn_liquids := False\<rparr>) (\<lambda>d. zeros 1 1) id (20, 70)
          (smp_ex_draws 4) 4 (smp_init smp_ex_cfg 1)) = Inl ValueError"
proof -
  have "map_sum id (\<lambda>_. ()) (smp_obj (smp_ex_cfg\<lparr>lqd_prob := 2, spawn_liquids := False\<rparr>) (\<lambda>d. zeros 1 1) id (20, 70)
          (smp_ex_draws 4) 4 (smp_init smp_ex_cfg 1)) = Inl ValueError"
    by code_simp
  with smp_obj_lqd_prob_raises [of "smp_ex_cfg\<lparr>lqd_prob := 2, spawn_liquids := False\<rparr>" "\<lambda>d. zeros 1 1" id "(20, 70)"
         "smp_ex_draws 4" 4 "smp_init smp_ex_cfg 1"]
  show ?thesis by simp
qed

end
