(* ===== verification/Container.thy ===== *)
theory Container
  imports Session
begin

text \<open>
  The constructor \<^verbatim>\<open>BaggageImage2D.__init__\<close> and the composition of the output
  image at the end of \<^verbatim>\<open>create_baggage_image\<close>. \<^verbatim>\<open>ShapeListHandle.get_bag_background\<close>
  (outside this file) is a parameter returning the record \<open>bag_bg\<close>. The 3D arrays
  \<^verbatim>\<open>ws_bag\<close>, \<^verbatim>\<open>boundary\<close> and \<^verbatim>\<open>virtual_bag\<close> are read plane by plane (third index
  \<open>k\<close>), as the session reads them; a 2D index array such as \<^verbatim>\<open>prior_image.nonzero()\<close>
  selects the same cells in every plane. The exceptions numpy raises on whole arrays
  (shapes that do not broadcast, indices out of range) do not depend on the plane
  and are checked once.
\<close>

subsection \<open>The bag background and the attributes of the constructor\<close>

text \<open>The tuple \<^verbatim>\<open>img_ctr, boundary, bg_sf_list, full_bag_img, gantry_cavity, bag_b,
  bag_mask\<close> that \<^verbatim>\<open>get_bag_background(img_vol, gantry_dia, template)\<close> returns;
  \<open>bag_b\<close> is \<open>None\<close> when no bag template is used.\<close>

record bag_bg =
  img_ctr :: "int \<times> int \<times> int"
  bg_boundary :: "int \<times> int"
  bg_sf_list :: "obj_meta list"
  full_bag_img :: grid
  gantry_cavity :: grid
  bag_b :: "grid option"
  bag_mask :: grid

text \<open>The attributes the constructor sets and the rest of the class reads:
  \<^verbatim>\<open>img_vol\<close>, the container geometry \<^verbatim>\<open>size\<close>, \<^verbatim>\<open>bb_h\<close>, \<^verbatim>\<open>extents\<close>, the wall
  thickness \<^verbatim>\<open>bb_t\<close>, \<^verbatim>\<open>img_ctr\<close>, \<^verbatim>\<open>bg_sf_list\<close>, \<^verbatim>\<open>bag_mask\<close>,
  \<^verbatim>\<open>gantry_cavity\<close>, the common plane of \<^verbatim>\<open>virtual_bag\<close>, and plane \<open>k\<close> of
  \<^verbatim>\<open>ws_bag\<close> and \<^verbatim>\<open>boundary\<close>.\<close>

record bag_image =
  bi_img_vol :: "nat \<times> nat \<times> nat"
  bi_cfg :: bag_cfg
  bi_bb_t :: int
  bi_ctr :: "int \<times> int \<times> int"
  bi_sf_list :: "obj_meta list"
  bi_mask :: "grid option"
  bi_gantry :: grid
  bi_vbag :: grid
  bi_plane :: "nat \<Rightarrow> canvas"

subsection \<open>The boundary planes\<close>

text \<open>Plane \<open>k\<close> of \<^verbatim>\<open>bag_bound\<close> without a template, before the prior image is
  marked (the two slice assignments of \<^verbatim>\<open>bag_b is None\<close>).\<close>

definition frame_plane :: "int \<Rightarrow> int \<Rightarrow> int \<Rightarrow> nat \<Rightarrow> grid" where
  "frame_plane s h t k =
     (let lo1 = s div 2 - h - t; hi1 = s div 2 + h + t; lo0 = s div 2 - h; hi0 = s div 2 + h;
          n = nat s; z = zeros n n;
          g1 = (if py_bound lo1 n \<le> k \<and> k < py_bound hi1 n then fill_window z lo1 hi1 lo1 hi1 1 else z)
      in if py_bound lo0 n \<le> k \<and> k < py_bound hi0 n then fill_window g1 lo0 hi0 lo0 hi0 0 else g1)"

text \<open>With a template: \<^verbatim>\<open>self.extents\<close> from the bounding box of \<^verbatim>\<open>bag_mask\<close>
  (\<^verbatim>\<open>ValueError\<close> for an empty mask), and the cube around the centre set to
  \<^verbatim>\<open>bag_b[ctr0-h-t : ctr0+h+t, ctr1-h-t : ctr1+h+t][:,:,newaxis] * ones((m, m, m))\<close>
  with \<open>m = 2 (h + t)\<close>: the window of \<^verbatim>\<open>bag_b\<close> must broadcast to \<open>m x m\<close>, and the
  product must fit the target cube.\<close>

definition mask_extents :: "grid \<Rightarrow> py_exc + int \<times> int" where
  "mask_extents msk =
     (case bbox msk of
        None \<Rightarrow> Inl ValueError
      | Some (r0, r1, c0, c1) \<Rightarrow> Inr (int r1 - int r0, int c1 - int c0))"

definition tpl_window :: "int \<Rightarrow> int \<Rightarrow> int \<times> int \<times> int \<Rightarrow> grid \<Rightarrow> grid" where
  "tpl_window h t ic b =
     window (fst ic - h - t) (fst ic + h + t) (fst (snd ic) - h - t) (fst (snd ic) + h + t) b"

definition tpl_fits :: "int \<Rightarrow> int \<Rightarrow> int \<Rightarrow> grid \<Rightarrow> bool" where
  "tpl_fits s h t w =
     (let m = nat (2 * (h + t)); n = nat s;
          len = py_bound (s div 2 + h + t) n - py_bound (s div 2 - h - t) n
      in case (bcast (nrows w) m, bcast (ncols w) m) of
           (Some r, Some c) \<Rightarrow> (r = len \<or> r = 1) \<and> (c = len \<or> c = 1) \<and> (m = len \<or> m = 1)
         | _ \<Rightarrow> False)"

definition template_plane :: "int \<Rightarrow> int \<Rightarrow> int \<Rightarrow> grid \<Rightarrow> nat \<Rightarrow> grid" where
  "template_plane s h t w k =
     (let n = nat s; a0 = py_bound (s div 2 - h - t) n; a1 = py_bound (s div 2 + h + t) n; z = zeros n n
      in if a0 \<le> k \<and> k < a1
         then z\<lparr>px := (\<lambda>i j. if a0 \<le> i \<and> i < a1 \<and> a0 \<le> j \<and> j < a1
                              then px w (if nrows w = 1 then 0 else i - a0) (if ncols w = 1 then 0 else j - a0)
                              else 0)\<rparr>
         else z)"

text \<open>\<^verbatim>\<open>bag_bound[prior_image.nonzero()] = 1\<close>: \<open>IndexError\<close> unless every marked cell
  is inside the \<open>n x n\<close> planes.\<close>

definition prior_fits :: "nat \<Rightarrow> grid option \<Rightarrow> bool" where
  "prior_fits n prior =
     (case prior of None \<Rightarrow> True | Some p \<Rightarrow> list_all (\<lambda>(i, j). i < n \<and> j < n) (nz_pixels p))"

definition mark_prior :: "grid option \<Rightarrow> grid \<Rightarrow> grid" where
  "mark_prior prior g = (case prior of None \<Rightarrow> g | Some p \<Rightarrow> set_where g p 1)"

definition ones_grid :: "nat \<Rightarrow> nat \<Rightarrow> grid" where
  "ones_grid m n = \<lparr>nrows = m, ncols = n, px = (\<lambda>i j. 1)\<rparr>"

subsection \<open>The constructor\<close>

text \<open>\<^verbatim>\<open>__init__(img_vol, gantry_dia, prior_image, template)\<close>, in source order:
  \<^verbatim>\<open>if gantry_dia is None: gantry_dia = self.img_vol[0]\<close> runs before
  \<^verbatim>\<open>self.img_vol\<close> is assigned and raises \<^verbatim>\<open>AttributeError\<close>; then the background,
  \<^verbatim>\<open>size = max(2*bb_h + 2*bb_t, img_vol[2])\<close>, the boundary planes of either branch,
  the prior image, \<^verbatim>\<open>ws_bag = bb_label * bag_bound\<close>, and
  \<^verbatim>\<open>virtual_bag = full_bag_img[:, :, newaxis] * np.ones(img_vol)\<close>.\<close>

definition bag_image_init ::
  "(nat \<times> nat \<times> nat \<Rightarrow> nat \<Rightarrow> nat \<Rightarrow> bag_bg) \<Rightarrow> nat \<times> nat \<times> nat \<Rightarrow> nat option \<Rightarrow> grid option \<Rightarrow>
   nat \<Rightarrow> py_exc + bag_image" where
  "bag_image_init gbg iv gd prior tpl =
     (case gd of
        None \<Rightarrow> Inl AttributeError
      | Some gdia \<Rightarrow>
          (let bg = gbg iv gdia tpl; h = fst (bg_boundary bg); t = snd (bg_boundary bg);
               s = max (2 * h + 2 * t) (int (snd (snd iv))); n = nat s in
           sbind (case bag_b bg of
                    None \<Rightarrow> Inr (None, frame_plane s h t)
                  | Some b \<Rightarrow>
                      sbind (mask_extents (bag_mask bg)) (\<lambda>ex.
                        (let w = tpl_window h t (img_ctr bg) b in
                         if h + t < 0 then Inl ValueError
                         else if tpl_fits s h t w then Inr (Some ex, template_plane s h t w)
                         else Inl BroadcastError))) (\<lambda>(ex, pl).
           if \<not> prior_fits n prior then Inl IndexError
           else
             sbind (bmul (full_bag_img bg) (ones_grid (fst iv) (fst (snd iv)))) (\<lambda>vb.
             Inr \<lparr>bi_img_vol = iv, bi_cfg = \<lparr>size = s, bb_h = h, extents = ex\<rparr>, bi_bb_t = t,
                  bi_ctr = img_ctr bg, bi_sf_list = bg_sf_list bg,
                  bi_mask = (case bag_b bg of None \<Rightarrow> None | Some b \<Rightarrow> Some (bag_mask bg)),
                  bi_gantry = gantry_cavity bg, bi_vbag = vb,
                  bi_plane = (\<lambda>k. (let bb = mark_prior prior (pl k) in
                                   \<lparr>bag = gmap (\<lambda>v. 3 * v) bb, boundary = bb\<rparr>))\<rparr>))))"

subsection \<open>The output image\<close>

text \<open>The copy of the container's interior into \<^verbatim>\<open>virtual_bag\<close>:
  \<^verbatim>\<open>virtual_bag[ctr0-h:ctr0+h, ctr1-h:ctr1+h, ctr2-h:ctr2+h] =
  ws_bag[size//2-h:size//2+h, ...]\<close>; the source cube must broadcast to the target
  window, which numpy clips at the image border. \<open>ws\<close> are the finished planes of
  \<^verbatim>\<open>ws_bag\<close>.\<close>

definition vb_window :: "bag_image \<Rightarrow> (nat \<times> nat) \<times> (nat \<times> nat) \<times> (nat \<times> nat)" where
  "vb_window bi =
     (let ic = bi_ctr bi; h = bb_h (bi_cfg bi); vb = bi_vbag bi; v2 = snd (snd (bi_img_vol bi)) in
      ((py_bound (fst ic - h) (nrows vb), py_bound (fst ic + h) (nrows vb)),
       (py_bound (fst (snd ic) - h) (ncols vb), py_bound (fst (snd ic) + h) (ncols vb)),
       (py_bound (snd (snd ic) - h) v2, py_bound (snd (snd ic) + h) v2)))"

definition ws_cube :: "bag_image \<Rightarrow> nat \<times> nat" where
  "ws_cube bi =
     (let s = size (bi_cfg bi); h = bb_h (bi_cfg bi); n = nat s; a = py_bound (s div 2 - h) n in
      (a, py_bound (s div 2 + h) n - a))"

definition cube_fits :: "bag_image \<Rightarrow> bool" where
  "cube_fits bi =
     (let len = snd (ws_cube bi); ((r0, r1), (c0, c1), (z0, z1)) = vb_window bi in
      (len = r1 - r0 \<or> len = 1) \<and> (len = c1 - c0 \<or> len = 1) \<and> (len = z1 - z0 \<or> len = 1))"

text \<open>Plane \<open>z\<close> of the image with the copied cube over the plane \<open>base\<close>.\<close>

definition paste_cube :: "bag_image \<Rightarrow> (nat \<Rightarrow> grid) \<Rightarrow> grid \<Rightarrow> nat \<Rightarrow> grid" where
  "paste_cube bi ws base z =
     (let (a, len) = ws_cube bi; ((r0, r1), (c0, c1), (z0, z1)) = vb_window bi;
          ix = (\<lambda>k k0. a + (if len = 1 then 0 else k - k0))
      in if z0 \<le> z \<and> z < z1
         then base\<lparr>px := (\<lambda>i j. if r0 \<le> i \<and> i < r1 \<and> c0 \<le> j \<and> j < c1
                                 then px (ws (ix z z0)) (ix i r0) (ix j c0) else px base i j)\<rparr>
         else base)"

text \<open>The bag-mask branch: the cube is copied into \<^verbatim>\<open>shifted_img = zeros_like(virtual_bag)\<close>,
  multiplied by \<^verbatim>\<open>bag_mask[:,:,newaxis]\<close>, and written back at the mask's nonzero cells
  (\<open>IndexError\<close> for a mask cell outside the image).\<close>

definition mask_paste :: "grid \<Rightarrow> nat \<times> nat \<Rightarrow> grid \<Rightarrow> grid \<Rightarrow> grid" where
  "mask_paste msk rc shifted vb =
     vb\<lparr>px := (\<lambda>i j. if i < nrows msk \<and> j < ncols msk \<and> px msk i j \<noteq> 0
                     then px (bprod shifted msk rc) i j else px vb i j)\<rparr>"

text \<open>The composition and \<^verbatim>\<open>virtual_bag = virtual_bag * gantry_cavity[:,:,newaxis]\<close>;
  the result is plane \<open>z\<close> of the image.\<close>

definition compose_virtual_bag :: "bag_image \<Rightarrow> (nat \<Rightarrow> grid) \<Rightarrow> py_exc + (nat \<Rightarrow> grid)" where
  "compose_virtual_bag bi ws =
     (let vb = bi_vbag bi in
      if \<not> cube_fits bi then Inl BroadcastError
      else
        sbind (case bi_mask bi of
                 None \<Rightarrow> Inr (paste_cube bi ws vb)
               | Some msk \<Rightarrow>
                   (case bshape vb msk of
                      None \<Rightarrow> Inl BroadcastError
                    | Some rc \<Rightarrow>
                        if list_all (\<lambda>(i, j). i < nrows vb \<and> j < ncols vb) (nz_pixels msk)
                        then Inr (\<lambda>z. mask_paste msk rc (paste_cube bi ws (zeros (nrows vb) (ncols vb)) z) vb)
                        else Inl IndexError)) (\<lambda>pl.
        case bshape vb (bi_gantry bi) of
          None \<Rightarrow> Inl BroadcastError
        | Some rc \<Rightarrow> Inr (\<lambda>z. bprod (pl z) (bi_gantry bi) rc)))"

subsection \<open>Example background\<close>

text \<open>A background provider for a 10 x 10 image with a container of half size 2 and
  wall 1 centred at \<open>ic\<close>, no template, and an open gantry.\<close>

definition bg_ex :: "int \<times> int \<times> int \<Rightarrow> nat \<times> nat \<times> nat \<Rightarrow> nat \<Rightarrow> nat \<Rightarrow> bag_bg" where
  "bg_ex ic iv gd tpl =
     \<lparr>img_ctr = ic, bg_boundary = (2, 1), bg_sf_list = [], full_bag_img = zeros 10 10,
      gantry_cavity = ones_grid 10 10, bag_b = None, bag_mask = zeros 10 10\<rparr>"

text \<open>The container the design describes: the cube of half side \<open>r\<close> around the centre
  \<open>c\<close> on all three axes, in plane \<open>k\<close>.\<close>

definition in_cube :: "int \<Rightarrow> int \<Rightarrow> nat \<Rightarrow> nat \<Rightarrow> nat \<Rightarrow> bool" where
  "in_cube c r k i j \<longleftrightarrow> c - r \<le> int i \<and> int i < c + r \<and> c - r \<le> int j \<and> int j < c + r \<and>
                         c - r \<le> int k \<and> int k < c + r"

subsection \<open>Properties of the constructor and of the composition\<close>

lemma frame_plane_shape [simp]:
  "nrows (frame_plane s h t k) = nat s" "ncols (frame_plane s h t k) = nat s"
  by (simp_all add: frame_plane_def fill_window_def zeros_def Let_def)

text \<open>Each plane of the boundary is the hollow cube cut at that plane: the slices of
  lines 613 to 622 stay inside the array since the size is at least \<open>2 (bb_h + bb_t)\<close>.\<close>

lemma frame_plane_px:
  assumes "0 \<le> h" "0 \<le> t" "2 * (h + t) \<le> s"
  shows "px (frame_plane s h t k) i j =
           (if in_cube (s div 2) (h + t) k i j \<and> \<not> in_cube (s div 2) h k i j then 1 else 0)"
proof -
  have pb: "py_bound x (nat s) = nat x" if "0 \<le> x" "x \<le> s" for x
    using that by (simp add: py_bound_def)
  have b: "0 \<le> s div 2 - h - t" "s div 2 + h + t \<le> s" using assms by presburger+
  have p: "py_bound (s div 2 - h - t) (nat s) = nat (s div 2 - h - t)"
    "py_bound (s div 2 + h + t) (nat s) = nat (s div 2 + h + t)"
    "py_bound (s div 2 - h) (nat s) = nat (s div 2 - h)"
    "py_bound (s div 2 + h) (nat s) = nat (s div 2 + h)"
    using b assms(1,2) by (simp_all add: pb)
  let ?A = "\<lambda>x. nat (s div 2 - h - t) \<le> x \<and> x < nat (s div 2 + h + t)"
  let ?B = "\<lambda>x. nat (s div 2 - h) \<le> x \<and> x < nat (s div 2 + h)"
  have f: "px (frame_plane s h t k) i j =
             (if ?B k \<and> ?B i \<and> ?B j then 0 else if ?A k \<and> ?A i \<and> ?A j then 1 else 0)"
    by (simp add: frame_plane_def Let_def fill_window_def p zeros_def)
  have A: "?A x \<longleftrightarrow> s div 2 - (h + t) \<le> int x \<and> int x < s div 2 + (h + t)" for x
    using b assms(1,2) by linarith
  have B: "?B x \<longleftrightarrow> s div 2 - h \<le> int x \<and> int x < s div 2 + h" for x
    using b assms(1,2) by linarith
  show ?thesis
    unfolding f A B in_cube_def by auto
qed

lemma bag_image_init_Inr:
  assumes "bag_image_init gbg iv gd prior tpl = Inr bi"
  shows "\<exists>g. gd = Some g \<and>
           size (bi_cfg bi) = max (2 * fst (bg_boundary (gbg iv g tpl)) + 2 * snd (bg_boundary (gbg iv g tpl)))
                                  (int (snd (snd iv))) \<and>
           bb_h (bi_cfg bi) = fst (bg_boundary (gbg iv g tpl)) \<and> bi_bb_t bi = snd (bg_boundary (gbg iv g tpl)) \<and>
           prior_fits (nat (size (bi_cfg bi))) prior \<and>
           (bag_b (gbg iv g tpl) = None \<longrightarrow> extents (bi_cfg bi) = None \<and>
              (\<forall>k. bi_plane bi k = (let bb = mark_prior prior (frame_plane (size (bi_cfg bi)) (bb_h (bi_cfg bi)) (bi_bb_t bi) k)
                                    in \<lparr>bag = gmap (\<lambda>v. 3 * v) bb, boundary = bb\<rparr>)))"
  using assms
  by (cases gd) (auto simp: bag_image_init_def Let_def sbind_Inr_iff split: option.splits if_splits)

lemma ws_cube_len:
  assumes "2 * h \<le> s" "0 \<le> h" "size (bi_cfg bi) = s" "bb_h (bi_cfg bi) = h"
  shows "snd (ws_cube bi) = nat (2 * h)"
proof -
  have "0 \<le> s div 2 - h" "s div 2 - h \<le> s" "0 \<le> s div 2 + h" "s div 2 + h \<le> s"
    using assms by linarith+
  with assms(3,4) show ?thesis
    by (simp add: ws_cube_def Let_def py_bound_nonneg nat_le_eq_zle min_def) linarith
qed

text \<open>C32: When the container window at \<^verbatim>\<open>img_ctr\<close> overruns the image's first axis, the
  final copy of \<^verbatim>\<open>ws_bag\<close> into \<^verbatim>\<open>virtual_bag\<close> raises a broadcast error, after every
  slice has been placed.\<close>

theorem compose_border_raises:
  assumes init: "bag_image_init gbg iv (Some g) prior tpl = Inr bi"
    and h: "0 < bb_h (bi_cfg bi)" and t: "0 \<le> bi_bb_t bi"
    and lo: "bb_h (bi_cfg bi) \<le> fst (bi_ctr bi)"
    and hi: "int (nrows (bi_vbag bi)) < fst (bi_ctr bi) + bb_h (bi_cfg bi)"
  shows "compose_virtual_bag bi ws = Inl BroadcastError"
proof -
  let ?h = "bb_h (bi_cfg bi)" and ?c = "fst (bi_ctr bi)" and ?N = "nrows (bi_vbag bi)"
  from bag_image_init_Inr [OF init] t have "2 * ?h \<le> size (bi_cfg bi)" by auto
  with h have len: "snd (ws_cube bi) = nat (2 * ?h)"
    using ws_cube_len [of ?h "size (bi_cfg bi)" bi] by simp
  have r: "py_bound (?c + ?h) ?N - py_bound (?c - ?h) ?N < nat (2 * ?h)"
    using h lo hi by (simp add: py_bound_nonneg)
  have "\<not> cube_fits bi"
    using len r h by (auto simp: cube_fits_def vb_window_def Let_def split: prod.splits)
  then show ?thesis by (simp add: compose_virtual_bag_def)
qed

theorem compose_border_raises_witness:
  "\<exists>bi. bag_image_init (bg_ex (9, 5, 5)) (10, 10, 4) (Some 10) None 0 = Inr bi \<and>
        0 < bb_h (bi_cfg bi) \<and> 0 \<le> bi_bb_t bi \<and> bb_h (bi_cfg bi) \<le> fst (bi_ctr bi) \<and>
        int (nrows (bi_vbag bi)) < fst (bi_ctr bi) + bb_h (bi_cfg bi) \<and>
        compose_virtual_bag bi (\<lambda>k. zeros 6 6) = Inl BroadcastError"
proof -
  have "map_sum id (\<lambda>bi. (bb_h (bi_cfg bi), bi_bb_t bi, fst (bi_ctr bi), nrows (bi_vbag bi)))
          (bag_image_init (bg_ex (9, 5, 5)) (10, 10, 4) (Some 10) None 0) = Inr (2, 1, 9, 10)"
    by code_simp
  then obtain bi where r: "bag_image_init (bg_ex (9, 5, 5)) (10, 10, 4) (Some 10) None 0 = Inr bi"
    and f: "bb_h (bi_cfg bi) = 2" "bi_bb_t bi = 1" "fst (bi_ctr bi) = 9" "nrows (bi_vbag bi) = 10"
    by (auto simp: map_sum_Inr_iff)
  have c: "0 < bb_h (bi_cfg bi)" "0 \<le> bi_bb_t bi" "bb_h (bi_cfg bi) \<le> fst (bi_ctr bi)"
    "int (nrows (bi_vbag bi)) < fst (bi_ctr bi) + bb_h (bi_cfg bi)"
    using f by simp_all
  from compose_border_raises [OF r c] r c show ?thesis by blast
qed

text \<open>C16: Without a bag template or prior image, the boundary the constructor builds is the
  hollow cube of the design: a cell of plane \<open>k\<close> is wall exactly when it lies in the cube
  of half side \<open>bb_h + bb_t\<close> around \<^verbatim>\<open>size//2\<close> and not in the interior cube of half side
  \<open>bb_h\<close>, and \<^verbatim>\<open>ws_bag\<close> holds \<^verbatim>\<open>bb_label = 3\<close> there.\<close>

theorem bag_image_init_hollow_box:
  assumes "bag_image_init gbg iv (Some g) None tpl = Inr bi" "bag_b (gbg iv g tpl) = None"
    and "0 \<le> fst (bg_boundary (gbg iv g tpl))" "0 \<le> snd (bg_boundary (gbg iv g tpl))"
  shows "px (boundary (bi_plane bi k)) i j =
           (if in_cube (size (bi_cfg bi) div 2) (bb_h (bi_cfg bi) + bi_bb_t bi) k i j \<and>
               \<not> in_cube (size (bi_cfg bi) div 2) (bb_h (bi_cfg bi)) k i j then 1 else 0) \<and>
         px (bag (bi_plane bi k)) i j = 3 * px (boundary (bi_plane bi k)) i j"
proof -
  from bag_image_init_Inr [OF assms(1)] assms(2) have
    s: "size (bi_cfg bi) = max (2 * fst (bg_boundary (gbg iv g tpl)) + 2 * snd (bg_boundary (gbg iv g tpl)))
                              (int (snd (snd iv)))"
    and h: "bb_h (bi_cfg bi) = fst (bg_boundary (gbg iv g tpl))" "bi_bb_t bi = snd (bg_boundary (gbg iv g tpl))"
    and pl: "bi_plane bi k = (let bb = mark_prior None (frame_plane (size (bi_cfg bi)) (bb_h (bi_cfg bi)) (bi_bb_t bi) k)
                              in \<lparr>bag = gmap (\<lambda>v. 3 * v) bb, boundary = bb\<rparr>)"
    by auto
  have "2 * (bb_h (bi_cfg bi) + bi_bb_t bi) \<le> size (bi_cfg bi)" using s h by simp
  from frame_plane_px [OF _ _ this] assms(3,4) h show ?thesis
    by (simp add: pl mark_prior_def gmap_def Let_def)
qed

theorem bag_image_init_hollow_box_witness:
  "\<exists>bi. bag_image_init (bg_ex (5, 5, 5)) (10, 10, 4) (Some 10) None 0 = Inr bi \<and>
        px (boundary (bi_plane bi 3)) 3 0 = 1 \<and> px (bag (bi_plane bi 3)) 3 0 = 3 \<and>
        px (boundary (bi_plane bi 3)) 3 3 = 0"
proof -
  have "map_sum id (\<lambda>bi. (size (bi_cfg bi), bb_h (bi_cfg bi), bi_bb_t bi))
          (bag_image_init (bg_ex (5, 5, 5)) (10, 10, 4) (Some 10) None 0) = Inr (6, 2, 1)"
    by code_simp
  then obtain bi where r: "bag_image_init (bg_ex (5, 5, 5)) (10, 10, 4) (Some 10) None 0 = Inr bi"
    and f: "size (bi_cfg bi) = 6" "bb_h (bi_cfg bi) = 2" "bi_bb_t bi = 1"
    by (auto simp: map_sum_Inr_iff)
  have b: "bag_b (bg_ex (5, 5, 5) (10, 10, 4) 10 0) = None"
    "0 \<le> fst (bg_boundary (bg_ex (5, 5, 5) (10, 10, 4) 10 0))"
    "0 \<le> snd (bg_boundary (bg_ex (5, 5, 5) (10, 10, 4) 10 0))" by (simp_all add: bg_ex_def)
  have "px (boundary (bi_plane bi 3)) 3 0 = 1 \<and> px (bag (bi_plane bi 3)) 3 0 = 3 \<and>
        px (boundary (bi_plane bi 3)) 3 3 = 0"
    using bag_image_init_hollow_box [OF r b, of 3 3 0] bag_image_init_hollow_box [OF r b, of 3 3 3] f
    by (simp add: in_cube_def)
  with r show ?thesis by blast
qed

end
