(* ===== verification/Spec2Isabelle.thy ===== *)
theory Spec2Isabelle
  imports Raster Overlap Sheet Gravity Liquid Session Sampler Container
begin

text \<open>
  Verification development for the 2D shape-grammar placement engine of
  \<^verbatim>\<open>src/lib/bag_generator/baggage_creator_2d.py\<close>: the classes \<^verbatim>\<open>Object2D\<close>
  (shape descriptors rasterised into labelled masks) and \<^verbatim>\<open>BaggageImage2D\<close> (the
  container, the placement rules and the slice session). The program is a shallow
  embedding: every modelled method is a HOL function over explicit values, numpy arrays
  are \<open>grid\<close> records, exceptions are the \<open>Inl\<close> branch of a sum type, and loops are
  fuel or well-founded recursion.

  \<^bold>\<open>Parts and how they interact.\<close> A session (\<^verbatim>\<open>create_baggage_image\<close>) clones the
  object list per slice, spawns every object at the container top, shuffles them, and hands
  each to \<^verbatim>\<open>add_object\<close>, which runs the gravity rule
  (\<^verbatim>\<open>run_shape_grammar_overlap_and_gravity\<close>). Gravity drops the object, asks the
  collision test (\<^verbatim>\<open>get_overlap\<close>) and calls the collision resolver
  (\<^verbatim>\<open>run_shape_grammar_overlap\<close>) or, for sheets, the curve fitter
  (\<^verbatim>\<open>generate_sheet_curve\<close>, \<^verbatim>\<open>run_midpoint_recursion\<close>, \<^verbatim>\<open>inflate_sheet\<close>),
  then clamps (\<^verbatim>\<open>_adjust_for_boundaries\<close>) and commits (\<^verbatim>\<open>place_object_in_bag\<close>).
  After placement the liquid rule fills containers, and the session clears voids and writes
  metadata. The object list comes from the sampler (\<^verbatim>\<open>create_random_object_list\<close>),
  the container from the constructor (\<^verbatim>\<open>__init__\<close>), and the session ends by copying
  the container's planes into the output image \<^verbatim>\<open>virtual_bag\<close>.

  \<^bold>\<open>Theories.\<close>
  \<^item> \<open>Prelude\<close>: the grid record, Python slice bounds \<open>py_bound\<close>, numpy's index rule
    \<open>py_idx\<close>, windows, pastes and masks, the exception type \<open>py_exc\<close>, and the
    collection \<open>grid_simps\<close>.
  \<^item> \<open>Canvas\<close>: the records \<open>obj2d\<close>, \<open>canvas\<close>, \<open>bag_cfg\<close>;
    \<open>place_object_in_bag\<close>, \<open>get_overlap\<close>, \<open>adjust_for_boundaries\<close> (its four trims)
    and the no-rule stamp \<open>stamp_object\<close> with numpy broadcasting. Lemmas: what a commit
    writes, that a commit after a clear collision test erases nothing, what a negative
    pose does to the commit, and that the clamp keeps pose, \<open>dim\<close> and raster together
    inside the container (\<open>clip_of\<close>: the raster is a block of the old one).
  \<^item> \<open>Raster\<close>: the bounding-box crop shared by the rasterizers, \<open>create_ellipse\<close>,
    \<open>create_rectanguloid\<close>, \<open>create_trapezoid\<close> (with its rotation angle
    \<open>trap_angle\<close>, numpy's \<open>inf\<close> and \<open>nan\<close> included), \<open>create_sheet\<close> and
    \<open>create_custom_object\<close> (its slice-search loop \<open>custom_scan\<close> terminates by the
    number of slices left); skimage's \<^verbatim>\<open>ellipse\<close> and \<^verbatim>\<open>polygon\<close>,
    \<^verbatim>\<open>scipy.ndimage.rotate\<close> and \<^verbatim>\<open>skimage.transform.rescale\<close> are parameters;
    and the labelling of \<^verbatim>\<open>__init__\<close>. Lemmas: the crop's border, the unrotated box
    and sheet, the exact result of the custom mask's slice scan (\<open>sum\<close> is
    \<^verbatim>\<open>numpy.sum\<close> through \<^verbatim>\<open>from numpy import *\<close>), the trapezoid's negligible angle.
  \<^item> \<open>Overlap\<close>: the resolver's loop as \<open>ovl_loop\<close> with fuel 10 (the
    \<^verbatim>\<open>ol_ctr == 10\<close> break), \<^verbatim>\<open>skimage.measure.label\<close> as an 8-connected flood fill,
    \<^verbatim>\<open>np.argmax\<close> as \<open>argmax\<close>, and the pose array with \<^verbatim>\<open>pose_list\<close> as an explicit
    store of addresses, which is what makes the oscillation test fire from the third pass.
  \<^item> \<open>Sheet\<close>: skimage's line routine, \<open>run_midpoint_recursion\<close> as a
    \<^verbatim>\<open>partial_function (option)\<close> proved to return on every input by a well-founded
    measure, \<open>generate_sheet_curve\<close>, \<open>inflate_sheet\<close> with disk dilation, and the
    3D helper \<open>get_2d_plane\<close> (the plane through a simplex, shown to pass through its
    three points, and heights within one unit of it). Lemmas: totality of the recursion,
    tightness of the redrawn raster, and the clip that moves a resting sheet up.
  \<^item> \<open>Gravity\<close>: the drop loop \<open>grav_loop\<close> with fuel 50 (\<^verbatim>\<open>while drop_ctr < 50\<close>),
    the inner resolver loop \<open>grav_inner\<close> terminating by \<open>11 - ol_ctr\<close>, the sheet branch
    with \<^verbatim>\<open>COLL_FLAG\<close> as a \<open>bool option\<close> (\<open>None\<close> while unbound).
  \<^item> \<open>Liquid\<close>: \<open>apply_liquid_container_rule\<close>, its \<^verbatim>\<open>try\<close> body as the fallible
    \<open>liquid_fill\<close>, skimage's erosion with \<^verbatim>\<open>border_value=True\<close>. Lemmas: the bottom
    row always fills, the swallowed \<open>ValueError\<close> of an empty cavity, and the open top
    and left walls of every rasterised container.
  \<^item> \<open>Session\<close>: the container set-up of one plane, \<open>add_object\<close>, the slice body
    \<open>bag_slice\<close>, the slice loop \<open>run_slices\<close>, the finishing of planes and the metadata;
    the contract \<open>slices_spec\<close> of independent slices and its refinement.
  \<^item> \<open>Sampler\<close>: \<^verbatim>\<open>create_random_object_list\<close> with every random draw an input
    (\<open>np_choice\<close>, \<open>np_choice_p\<close> with numpy's argument checks), the main loop
    \<open>smp_loop\<close> over the labels threading the record \<open>smp_state\<close>, the metal and
    target adjustments, \<^verbatim>\<open>change_object_material\<close>, the metal rescale loop
    \<open>resc_loop\<close> and the target top-up loop \<open>topup_loop\<close>. Lemmas: the labels of the
    main loop are distinct, the top-up repeats one, and the error and overdraw paths.
  \<^item> \<open>Container\<close>: the constructor \<^verbatim>\<open>__init__\<close> as \<open>bag_image_init\<close> (the
    background of \<^verbatim>\<open>get_bag_background\<close> a parameter, the template and prior-image
    branches, numpy broadcasting of the virtual bag) and the final copy of
    \<^verbatim>\<open>ws_bag\<close> into \<^verbatim>\<open>virtual_bag\<close>. Lemma: a container window past
    the image border makes the final copy raise.
  \<^item> This theory: reference definitions and the properties that span components (the
    crop/commit round trip and the refinement of the commit by a map update).

  \<^bold>\<open>Bounds and fuel.\<close> The fuels are the code's own caps: 10 resolver passes, 50 drop
  steps; the inner loop's counter is bounded by its \<^verbatim>\<open>ol_ctr > 10\<close> exit; the midpoint
  recursion needs no fuel (its totality is a theorem). The sampler's rescale loop stops
  after at most five passes (measure \<open>5 - cnt\<close>, the code's \<^verbatim>\<open>cnt < 5\<close>); its
  top-up loop adds one target per pass and terminates by the distance of the target
  counter to \<^verbatim>\<open>num_range[0]\<close>. \<^verbatim>\<open>np.clip\<close> is modelled for
  \<^verbatim>\<open>bb_h \<ge> 1\<close>. Python floats (the liquid level and the random draws) are rationals,
  with \<^verbatim>\<open>int()\<close> as truncation; the trapezoid's angle is a real number, since it
  needs \<open>arctan\<close> and \<open>\<pi>\<close>.

  \<^bold>\<open>Not modelled.\<close> Logging set-up, tabulated reports, FITS and pickle output,
  which are I/O with no state the placement reads back. The library code the program calls
  (skimage's rasterisers, measure and morphology calls beyond the ones modelled, scipy's
  rotate, skimage's rescale) and the code of other files (\<^verbatim>\<open>ShapeListHandle\<close>'s
  background and shape-list dictionaries, the material database) enter the model as
  parameters or inputs, never as definitions; Python's random generator is replaced by
  its outcomes, which are inputs of the sampler.
\<close>

subsection \<open>Reference definitions\<close>

text \<open>The abstract reading of a grid as a partial
  map from cells to values, and the cells an object covers at its pose.\<close>

definition cells :: "grid \<Rightarrow> pix \<Rightarrow> int option" where
  "cells g = (\<lambda>(i, j). if i < nrows g \<and> j < ncols g then Some (px g i j) else None)"

definition footprint :: "grid \<Rightarrow> obj2d \<Rightarrow> pix \<Rightarrow> int option" where
  "footprint g ob = (\<lambda>(i, j).
     if i < nrows g \<and> j < ncols g \<and> int i \<ge> fst (pose ob) \<and> int j \<ge> snd (pose ob) \<and>
        nat (int i - fst (pose ob)) < nrows (data ob) \<and> nat (int j - snd (pose ob)) < ncols (data ob) \<and>
        px (data ob) (nat (int i - fst (pose ob))) (nat (int j - snd (pose ob))) \<noteq> 0
     then Some (px (data ob) (nat (int i - fst (pose ob))) (nat (int j - snd (pose ob)))) else None)"

subsection \<open>Properties that span components\<close>

text \<open>C11: Round trip of rasterisation and commit: the bounding-box crop of a mask, placed at the
  crop's origin on an empty canvas of the mask's shape, gives back the mask on every cell.\<close>

theorem crop_place_roundtrip:
  assumes "bbox m = Some (r0, r1, c0, c1)" "crop_bbox m = Inr c" "i < nrows m" "j < ncols m"
  shows "px (bag (place_object_in_bag \<lparr>bag = zeros (nrows m) (ncols m), boundary = bd\<rparr>
                  (ob\<lparr>data := c, pose := (int r0, int c0)\<rparr>))) i j = px m i j"
proof -
  from bbox_in_shape [OF assms(1)] have sh: "r0 \<le> r1" "r1 < nrows m" "c0 \<le> c1" "c1 < ncols m" by auto
  from crop_bbox_Inr [OF assms(1,2)]
  have c: "nrows c = min (r1 + 2) (nrows m) - r0" "ncols c = min (c1 + 2) (ncols m) - c0"
          "\<And>a b. px c a b = px m (r0 + a) (c0 + b)" by auto
  let ?ob = "ob\<lparr>data := c, pose := (int r0, int c0)\<rparr>" and ?g = "zeros (nrows m) (ncols m)"
  have o: "row_origin ?g ?ob = r0" "col_origin ?g ?ob = c0"
    using sh by (simp_all add: row_origin_def col_origin_def zeros_def)
  have gz: "nrows ?g = nrows m" "ncols ?g = ncols m" by (simp_all add: zeros_def)
  have w: "nrows (obj_window ?g ?ob) = nrows c" "ncols (obj_window ?g ?ob) = ncols c"
    using sh c(1,2) by (simp_all add: obj_window_origin o gz)
  show ?thesis
  proof (cases "px m i j = 0")
    case True
    have "px ?g i j = 0" by (simp add: zeros_def)
    with True show ?thesis by (auto simp: place_px Let_def o w c(3))
  next
    case False
    with assms(3,4) have "(i, j) \<in> set (nz_pixels m)" by (simp add: set_nz_pixels)
    from bbox_Some(5) [OF assms(1) this] have "r0 \<le> i \<and> i \<le> r1 \<and> c0 \<le> j \<and> j \<le> c1" .
    with False assms(3,4) c(1,2) show ?thesis by (auto simp: place_px Let_def o w c(3))
  qed
qed


theorem crop_place_roundtrip_witness:
  "case crop_bbox (grid_of_list [[0, 0, 0], [0, 7, 7], [0, 0, 0]]) of Inl e \<Rightarrow> False
   | Inr c \<Rightarrow> px (bag (place_object_in_bag \<lparr>bag = zeros 3 3, boundary = zeros 3 3\<rparr>
                 (\<lparr>shape = Box, label = 7, data = c, dim = (2, 3), pose = (1, 1), curve_pts = ((0, 0), (0, 0)),
                   thick = 0, lqd = None\<rparr>))) 1 2 = 7"
proof -
  let ?m = "grid_of_list [[0, 0, 0], [0, 7, 7], [0, 0, 0]]"
  have b: "bbox ?m = Some (1, 1, 1, 2)" by code_simp
  have "\<not> isl (crop_bbox ?m)" by code_simp
  then obtain c where c: "crop_bbox ?m = Inr c" by (cases "crop_bbox ?m") auto
  have "px ?m 1 2 = 7" "nrows ?m = 3" "ncols ?m = 3" by (simp_all add: grid_of_list_def)
  with crop_place_roundtrip [OF b c, of 1 2 "zeros 3 3"
         "\<lparr>shape = Box, label = 7, data = c, dim = (2, 3), pose = (1, 1), curve_pts = ((0, 0), (0, 0)), thick = 0, lqd = None\<rparr>"] c
  show ?thesis by simp
qed

lemma window_axis:
  "i < (n::nat) \<Longrightarrow> (min q n \<le> i \<and> i < min q n + (min (q + h) n - min q n)) \<longleftrightarrow> (q \<le> i \<and> i - q < h)"
  "i < (n::nat) \<Longrightarrow> min q n \<le> i \<Longrightarrow> i - min q n = i - q"
  unfolding min_def by presburger+

text \<open>C10: Refinement of the commit: for a non-negative pose, \<^verbatim>\<open>place_object_in_bag\<close> on the
  grid, read as a map from cells to labels, is the old canvas overridden by the object's
  foreground footprint clipped to the canvas.\<close>

theorem place_refines:
  assumes "0 \<le> fst (pose ob)" "0 \<le> snd (pose ob)"
  shows "cells (bag (place_object_in_bag cv ob)) = cells (bag cv) ++ footprint (bag cv) ob"
proof (rule ext, clarify)
  fix i j
  from assms obtain q0 q1 where p: "pose ob = (int q0, int q1)"
    by (cases "pose ob") (metis fst_conv snd_conv nonneg_int_cases)
  have o: "row_origin (bag cv) ob = min q0 (nrows (bag cv))" "col_origin (bag cv) ob = min q1 (ncols (bag cv))"
    "nrows (obj_window (bag cv) ob) = min (q0 + nrows (data ob)) (nrows (bag cv)) - min q0 (nrows (bag cv))"
    "ncols (obj_window (bag cv) ob) = min (q1 + ncols (data ob)) (ncols (bag cv)) - min q1 (ncols (bag cv))"
    using p by (simp_all add: row_origin_def col_origin_def obj_window_origin py_bound_nonneg)
  show "cells (bag (place_object_in_bag cv ob)) (i, j) = (cells (bag cv) ++ footprint (bag cv) ob) (i, j)"
  proof (cases "i < nrows (bag cv) \<and> j < ncols (bag cv)")
    case True
    then have "px (bag (place_object_in_bag cv ob)) i j =
           (if q0 \<le> i \<and> i - q0 < nrows (data ob) \<and> q1 \<le> j \<and> j - q1 < ncols (data ob) \<and>
               px (data ob) (i - q0) (j - q1) \<noteq> 0
            then px (data ob) (i - q0) (j - q1) else px (bag cv) i j)"
      unfolding place_px Let_def o window_axis(1) [of i "nrows (bag cv)"] window_axis(1) [of j "ncols (bag cv)"]
      using window_axis(2) [of i "nrows (bag cv)" q0] window_axis(2) [of j "ncols (bag cv)" q1] by auto
    with True show ?thesis
      by (simp add: cells_def footprint_def map_add_def place_shape p nat_diff_distrib')
  next
    case False
    then show ?thesis by (auto simp: cells_def footprint_def map_add_def place_shape)
  qed
qed

theorem place_refines_witness:
  "cells (bag (place_object_in_bag \<lparr>bag = zeros 4 4, boundary = zeros 4 4\<rparr> \<lparr>shape = Box, label = 5, data = grid_of_list [[5, 0], [5, 5]], dim = (2, 2), pose = (1, 1), curve_pts = ((0, 0), (0, 0)), thick = 0, lqd = None\<rparr>)) = cells (bag \<lparr>bag = zeros 4 4, boundary = zeros 4 4\<rparr>) ++ footprint (bag \<lparr>bag = zeros 4 4, boundary = zeros 4 4\<rparr>) \<lparr>shape = Box, label = 5, data = grid_of_list [[5, 0], [5, 5]], dim = (2, 2), pose = (1, 1), curve_pts = ((0, 0), (0, 0)), thick = 0, lqd = None\<rparr>"
  by (rule place_refines) simp_all

end
